(* ===== verification/Prelude.thy ===== *)
theory Prelude
  imports Main "HOL-Library.Word"
begin

unbundle bit_operations_syntax

text \<open>
  Shared ground of the development: the machine integers of the C code, what a C function
  can do besides returning (\<open>fault\<close>, \<open>outcome\<close>), and byte buffers with the memory
  primitives the code uses on them (\<open>memset\<close>, \<open>memmove\<close>, reading and storing a packed
  32-bit field).  The data model is LP64 and little-endian: \<open>DWORD\<close>, \<open>LONG\<close>, \<open>size_t\<close>
  have 64 bits, \<open>int\<close> and \<open>uint32_t\<close> have 32.

  A buffer is a total map from offsets to bytes; its capacity is a constant of the code
  (\<open>PP_MAX_MESSAGE_LEN\<close>), and every access at a computed offset is guarded in the
  definitions by a check against that capacity.
\<close>

section \<open>Machine integers\<close>

type_synonym u8 = "8 word"
type_synonym u32 = "32 word"
type_synonym u64 = "64 word"

text \<open>Lengths are compared as natural numbers throughout.\<close>

declare of_nat_unat [simp del]

text \<open>A 32-bit value survives a passage through a 64-bit one.\<close>

lemma ucast_ucast_32 [simp]: "ucast (ucast x :: u64) = (x :: u32)"
  by (rule bit_word_eqI) (simp add: bit_simps)

section \<open>Outcomes of a C function\<close>

text \<open>
  \<open>OutOfBounds\<close> and \<open>NullPointer\<close> are accesses outside an object or through NULL;
  \<open>Blocked\<close> is a call that does not return (a read with no further event, a mutex that is
  never released); \<open>Exited\<close> is the process ending through \<open>exit\<close>.
\<close>

datatype fault = OutOfBounds | NullPointer | Blocked | Exited int

type_synonym 'a outcome = "fault + 'a"

fun bindo :: "'a outcome \<Rightarrow> ('a \<Rightarrow> 'b outcome) \<Rightarrow> 'b outcome" where
  "bindo (Inl e) f = Inl e"
| "bindo (Inr x) f = f x"

definition check :: "bool \<Rightarrow> fault \<Rightarrow> unit outcome" where
  "check c e = (if c then Inr () else Inl e)"

named_theorems outcome_simps

lemma bindo_assoc: "bindo (bindo m f) g = bindo m (\<lambda>x. bindo (f x) g)"
  by (cases m) auto

lemma bindo_Inr_iff [outcome_simps]:
  "bindo m f = Inr y \<longleftrightarrow> (\<exists>x. m = Inr x \<and> f x = Inr y)"
  by (cases m) auto

lemma bindo_Inl_iff [outcome_simps]:
  "bindo m f = Inl e \<longleftrightarrow> m = Inl e \<or> (\<exists>x. m = Inr x \<and> f x = Inl e)"
  by (cases m) auto

lemma check_Inr_iff [outcome_simps]: "check c e = Inr u \<longleftrightarrow> c"
  by (simp add: check_def)

lemma check_Inl_iff [outcome_simps]: "check c e = Inl f \<longleftrightarrow> \<not> c \<and> f = e"
  by (auto simp: check_def)

lemma check_True [simp]: "c \<Longrightarrow> check c e = Inr ()"
  by (simp add: check_def)

lemma check_False [simp]: "\<not> c \<Longrightarrow> check c e = Inl e"
  by (simp add: check_def)

section \<open>Little-endian 32-bit values\<close>

definition le32 :: "u32 \<Rightarrow> u8 list" where
  "le32 w = [ucast w, ucast (drop_bit 8 w), ucast (drop_bit 16 w), ucast (drop_bit 24 w)]"

definition of_le32 :: "u8 \<Rightarrow> u8 \<Rightarrow> u8 \<Rightarrow> u8 \<Rightarrow> u32" where
  "of_le32 a b c d =
     ucast a OR push_bit 8 (ucast b) OR push_bit 16 (ucast c) OR push_bit 24 (ucast d)"

lemma length_le32 [simp]: "length (le32 w) = 4"
  by (simp add: le32_def)

lemma of_le32_le32:
  "of_le32 (ucast w) (ucast (drop_bit 8 w)) (ucast (drop_bit 16 w)) (ucast (drop_bit 24 w)) = w"
proof (rule bit_word_eqI)
  fix n assume n: "n < LENGTH(32)"
  consider "n < 8" | "8 \<le> n \<and> n < 16" | "16 \<le> n \<and> n < 24" | "24 \<le> n \<and> n < 32"
    using n by fastforce
  then show "bit (of_le32 (ucast w) (ucast (drop_bit 8 w)) (ucast (drop_bit 16 w))
       (ucast (drop_bit 24 w))) n = bit w n"
    by cases (auto simp: of_le32_def bit_simps)
qed

lemma le32_of_le32: "le32 (of_le32 a b c d) = [a, b, c, d]"
proof -
  have "ucast (of_le32 a b c d) = a"
    by (rule bit_word_eqI) (auto simp: of_le32_def bit_simps)
  moreover have "ucast (drop_bit 8 (of_le32 a b c d)) = b"
    by (rule bit_word_eqI) (auto simp: of_le32_def bit_simps dest: bit_imp_le_length)
  moreover have "ucast (drop_bit 16 (of_le32 a b c d)) = c"
    by (rule bit_word_eqI) (auto simp: of_le32_def bit_simps dest: bit_imp_le_length)
  moreover have "ucast (drop_bit 24 (of_le32 a b c d)) = d"
    by (rule bit_word_eqI) (auto simp: of_le32_def bit_simps dest: bit_imp_le_length)
  ultimately show ?thesis by (simp add: le32_def)
qed

section \<open>Byte buffers\<close>

type_synonym buffer = "nat \<Rightarrow> u8"

definition zeros :: buffer where
  "zeros = (\<lambda>_. 0)"

definition bytes :: "nat \<Rightarrow> nat \<Rightarrow> buffer \<Rightarrow> u8 list" where
  "bytes off n b = map b [off ..< off + n]"

text \<open>\<open>memmove\<close> of the bytes \<open>bs\<close> to offset \<open>off\<close>.\<close>

definition blit :: "nat \<Rightarrow> u8 list \<Rightarrow> buffer \<Rightarrow> buffer" where
  "blit off bs b = (\<lambda>i. if off \<le> i \<and> i < off + length bs then bs ! (i - off) else b i)"

definition get32 :: "nat \<Rightarrow> buffer \<Rightarrow> u32" where
  "get32 off b = of_le32 (b off) (b (off + 1)) (b (off + 2)) (b (off + 3))"

definition put32 :: "nat \<Rightarrow> u32 \<Rightarrow> buffer \<Rightarrow> buffer" where
  "put32 off v b = blit off (le32 v) b"

text \<open>Two buffers agree on their first \<open>n\<close> bytes.\<close>

definition agree :: "nat \<Rightarrow> buffer \<Rightarrow> buffer \<Rightarrow> bool" where
  "agree n b b' \<longleftrightarrow> bytes 0 n b = bytes 0 n b'"

named_theorems buf_simps

lemma length_bytes [simp]: "length (bytes off n b) = n"
  by (simp add: bytes_def)

lemma bytes_0 [simp]: "bytes off 0 b = []"
  by (simp add: bytes_def)

lemma nth_bytes: "i < n \<Longrightarrow> bytes off n b ! i = b (off + i)"
  by (simp add: bytes_def)

lemma bytes_eq_iff: "bytes off n b = bytes off' n b' \<longleftrightarrow> (\<forall>i < n. b (off + i) = b' (off' + i))"
  by (auto simp: list_eq_iff_nth_eq nth_bytes)

lemma bytes_add: "bytes off (m + n) b = bytes off m b @ bytes (off + m) n b"
proof -
  have "[off..<off + (m + n)] = [off..<off + m] @ [off + m..<off + m + n]"
    by (metis add.assoc le_add1 upt_add_eq_append)
  then show ?thesis by (simp add: bytes_def)
qed

lemma bytes_Suc: "bytes off (Suc n) b = b off # bytes (Suc off) n b"
proof -
  have "[off..<off + Suc n] = off # [Suc off..<Suc off + n]"
    by (simp add: upt_rec)
  then show ?thesis by (simp add: bytes_def)
qed

lemma blit_Nil [simp]: "blit off [] b = b"
  by (rule ext) (auto simp: blit_def)

lemma blit_in: "off \<le> i \<Longrightarrow> i < off + length bs \<Longrightarrow> blit off bs b i = bs ! (i - off)"
  by (simp add: blit_def)

lemma blit_out [buf_simps]: "i < off \<or> off + length bs \<le> i \<Longrightarrow> blit off bs b i = b i"
  by (auto simp: blit_def)

lemma put32_out [buf_simps]: "i < off \<or> off + 4 \<le> i \<Longrightarrow> put32 off v b i = b i"
  by (simp add: put32_def blit_out)

lemma get32_cong: "(\<And>i. off \<le> i \<Longrightarrow> i < off + 4 \<Longrightarrow> b i = b' i) \<Longrightarrow> get32 off b = get32 off b'"
  by (simp add: get32_def)

lemma get32_put32_same [buf_simps]: "get32 off (put32 off v b) = v"
proof -
  have "put32 off v b off = ucast v" "put32 off v b (off + 1) = ucast (drop_bit 8 v)"
    "put32 off v b (off + 2) = ucast (drop_bit 16 v)" "put32 off v b (off + 3) = ucast (drop_bit 24 v)"
    by (simp_all add: put32_def blit_def le32_def)
  then show ?thesis by (simp add: get32_def of_le32_le32)
qed

lemma get32_put32_other [buf_simps]:
  "off + 4 \<le> off' \<or> off' + 4 \<le> off \<Longrightarrow> get32 off (put32 off' v b) = get32 off b"
  by (rule get32_cong) (auto simp: put32_out)

lemma get32_blit_other [buf_simps]:
  "off + 4 \<le> off' \<or> off' + length bs \<le> off \<Longrightarrow> get32 off (blit off' bs b) = get32 off b"
  by (rule get32_cong) (auto simp: blit_out)

lemma get32_upd_other [buf_simps]:
  "i < off \<or> off + 4 \<le> i \<Longrightarrow> get32 off (b(i := v)) = get32 off b"
  by (rule get32_cong) auto

lemma bytes_put32_other [buf_simps]:
  "off + n \<le> off' \<or> off' + 4 \<le> off \<Longrightarrow> bytes off n (put32 off' v b) = bytes off n b"
  by (auto simp: bytes_eq_iff put32_out)

lemma bytes_blit_other [buf_simps]:
  "off + n \<le> off' \<or> off' + length bs \<le> off \<Longrightarrow> bytes off n (blit off' bs b) = bytes off n b"
  by (auto simp: bytes_eq_iff blit_out)

lemma bytes_upd_other [buf_simps]:
  "i < off \<or> off + n \<le> i \<Longrightarrow> bytes off n (b(i := v)) = bytes off n b"
  by (auto simp: bytes_eq_iff)

lemma bytes_blit_same [buf_simps]: "n = length bs \<Longrightarrow> bytes off n (blit off bs b) = bs"
  by (auto simp: list_eq_iff_nth_eq nth_bytes blit_def)

lemma bytes_blit_take: "n \<le> length bs \<Longrightarrow> bytes off n (blit off bs b) = take n bs"
  by (auto simp: list_eq_iff_nth_eq nth_bytes blit_def)

lemma bytes_put32_same [buf_simps]: "bytes off 4 (put32 off v b) = le32 v"
  by (simp add: put32_def bytes_blit_same)

lemma blit_bytes_id: "blit off (bytes off n b) b = b"
  by (rule ext) (auto simp: blit_def nth_bytes)

lemma blit_append: "blit off (xs @ ys) b = blit (off + length xs) ys (blit off xs b)"
  by (rule ext) (auto simp: blit_def nth_append)

lemma get32_zeros [buf_simps]: "get32 off zeros = 0"
  by (simp add: get32_def zeros_def of_le32_def)

lemma zeros_apply [buf_simps]: "zeros i = 0"
  by (simp add: zeros_def)

lemma agree_refl [simp]: "agree n b b"
  by (simp add: agree_def)

lemma agree_iff: "agree n b b' \<longleftrightarrow> (\<forall>i < n. b i = b' i)"
  by (simp add: agree_def bytes_eq_iff)

lemma agree_get32: "agree n b b' \<Longrightarrow> off + 4 \<le> n \<Longrightarrow> get32 off b = get32 off b'"
  by (rule get32_cong) (simp add: agree_iff)

lemma agree_bytes: "agree n b b' \<Longrightarrow> off + k \<le> n \<Longrightarrow> bytes off k b = bytes off k b'"
  by (simp add: agree_iff bytes_eq_iff)

lemma agree_byte: "agree n b b' \<Longrightarrow> i < n \<Longrightarrow> b i = b' i"
  by (simp add: agree_iff)

text \<open>
  A C string: the bytes from \<open>off\<close> up to the first zero byte, read within the next \<open>n\<close> bytes
  of the object; \<open>OutOfBounds\<close> if none of them is zero.
\<close>

fun cstring :: "nat \<Rightarrow> nat \<Rightarrow> buffer \<Rightarrow> u8 list outcome" where
  "cstring 0 off b = Inl OutOfBounds"
| "cstring (Suc n) off b =
     (if b off = 0 then Inr []
      else bindo (cstring n (Suc off) b) (\<lambda>s. Inr (b off # s)))"

lemma cstring_unfold: "0 < n \<Longrightarrow> cstring n off b =
    (if b off = 0 then Inr [] else bindo (cstring (n - 1) (Suc off) b) (\<lambda>s. Inr (b off # s)))"
  by (cases n) auto

lemma cstring_found:
  "(\<forall>c \<in> set s. c \<noteq> 0) \<Longrightarrow> length s < n \<Longrightarrow> bytes off (Suc (length s)) b = s @ [0] \<Longrightarrow>
    cstring n off b = Inr s"
proof (induction s arbitrary: n off)
  case Nil
  then show ?case by (cases n) (auto simp: bytes_def)
next
  case (Cons c s)
  then obtain m where n: "n = Suc m" by (cases n) auto
  from Cons.prems(3) have "b off = c" and rest: "bytes (Suc off) (Suc (length s)) b = s @ [0]"
    using bytes_Suc [of off "Suc (length s)" b] by auto
  have "cstring m (Suc off) b = Inr s"
    using Cons.prems n rest by (intro Cons.IH) auto
  with \<open>b off = c\<close> Cons.prems(1) n show ?case by simp
qed

end
