(* ===== verification/Message.thy ===== *)
theory Message
  imports Prelude
begin

text \<open>
  The wire format of \<open>src/src/common/message.h\<close>: the command numbers, the packed
  structures (each a list of its fields with their sizes, in the order of the source) and the
  access to a field of a message.  A message is a byte buffer of capacity
  \<open>PP_MAX_MESSAGE_LEN\<close>, as the \<open>union { char buffer[PP_MAX_MESSAGE_LEN]; s_message msg; }\<close>
  of the code; the union of the payload structures is the overlay of their fields on the same
  bytes, so a handler that stores through the wrong member of the union hits the bytes it hits
  in the code.
\<close>

section \<open>Limits and commands\<close>

definition PP_MAX_MESSAGE_LEN :: nat where
  "PP_MAX_MESSAGE_LEN = 65 * 1024"

definition PP_MAX_BUFFER_LEN :: nat where
  "PP_MAX_BUFFER_LEN = 4096"

definition MAX_READERNAME :: nat where
  "MAX_READERNAME = 128"

definition MAX_ATR_SIZE :: nat where
  "MAX_ATR_SIZE = 33"

lemmas limit_defs [simp] =
  PP_MAX_MESSAGE_LEN_def PP_MAX_BUFFER_LEN_def MAX_READERNAME_def MAX_ATR_SIZE_def

datatype message_commands =
    SCARD_ESTABLISH_CONTEXT
  | SCARD_RELEASE_CONTEXT
  | SCARD_ISVALIDCONTEXT
  | SCARD_SETTIMEOUT
  | SCARD_CONNECT
  | SCARD_RECONNECT
  | SCARD_DISCONNECT
  | SCARD_BEGIN_TRANSACTION
  | SCARD_END_TRANSACTION
  | SCARD_CANCEL_TRANSACTION
  | SCARD_STATUS
  | SCARD_GET_STATUS_CHANGE
  | SCARD_TRANSMIT
  | SCARD_CONTROL
  | SCARD_CANCEL
  | SCARD_GET_ATTRIB
  | SCARD_SET_ATTRIB
  | SCARD_LIST_READERS
  | SCARD_LIST_GROUPS

definition all_commands :: "message_commands list" where
  "all_commands =
     [SCARD_ESTABLISH_CONTEXT, SCARD_RELEASE_CONTEXT, SCARD_ISVALIDCONTEXT,
      SCARD_SETTIMEOUT, SCARD_CONNECT, SCARD_RECONNECT, SCARD_DISCONNECT,
      SCARD_BEGIN_TRANSACTION, SCARD_END_TRANSACTION, SCARD_CANCEL_TRANSACTION,
      SCARD_STATUS, SCARD_GET_STATUS_CHANGE, SCARD_TRANSMIT, SCARD_CONTROL, SCARD_CANCEL,
      SCARD_GET_ATTRIB, SCARD_SET_ATTRIB, SCARD_LIST_READERS, SCARD_LIST_GROUPS]"

text \<open>The value of an enumerator is its position in the declaration.\<close>

primrec command_index :: "message_commands \<Rightarrow> nat" where
  "command_index SCARD_ESTABLISH_CONTEXT = 0"
| "command_index SCARD_RELEASE_CONTEXT = 1"
| "command_index SCARD_ISVALIDCONTEXT = 2"
| "command_index SCARD_SETTIMEOUT = 3"
| "command_index SCARD_CONNECT = 4"
| "command_index SCARD_RECONNECT = 5"
| "command_index SCARD_DISCONNECT = 6"
| "command_index SCARD_BEGIN_TRANSACTION = 7"
| "command_index SCARD_END_TRANSACTION = 8"
| "command_index SCARD_CANCEL_TRANSACTION = 9"
| "command_index SCARD_STATUS = 10"
| "command_index SCARD_GET_STATUS_CHANGE = 11"
| "command_index SCARD_TRANSMIT = 12"
| "command_index SCARD_CONTROL = 13"
| "command_index SCARD_CANCEL = 14"
| "command_index SCARD_GET_ATTRIB = 15"
| "command_index SCARD_SET_ATTRIB = 16"
| "command_index SCARD_LIST_READERS = 17"
| "command_index SCARD_LIST_GROUPS = 18"

definition command_code :: "message_commands \<Rightarrow> u8" where
  "command_code c = of_nat (command_index c)"

text \<open>The \<open>switch\<close> over a command number: \<open>None\<close> is the \<open>default\<close> label.\<close>

definition command_of :: "nat \<Rightarrow> message_commands option" where
  "command_of t = (if t < length all_commands then Some (all_commands ! t) else None)"

primrec command_text :: "message_commands \<Rightarrow> string" where
  "command_text SCARD_ESTABLISH_CONTEXT = ''establishContext''"
| "command_text SCARD_RELEASE_CONTEXT = ''releaseContext''"
| "command_text SCARD_ISVALIDCONTEXT = ''isValidContext''"
| "command_text SCARD_SETTIMEOUT = ''setTimeout''"
| "command_text SCARD_CONNECT = ''connect''"
| "command_text SCARD_RECONNECT = ''reconnect''"
| "command_text SCARD_DISCONNECT = ''disconnect''"
| "command_text SCARD_BEGIN_TRANSACTION = ''beginTransaction''"
| "command_text SCARD_END_TRANSACTION = ''endTransaction''"
| "command_text SCARD_CANCEL_TRANSACTION = ''cancelTransaction''"
| "command_text SCARD_STATUS = ''status''"
| "command_text SCARD_GET_STATUS_CHANGE = ''getStatusChange''"
| "command_text SCARD_TRANSMIT = ''transmit''"
| "command_text SCARD_CONTROL = ''control''"
| "command_text SCARD_CANCEL = ''cancel''"
| "command_text SCARD_GET_ATTRIB = ''getAttrib''"
| "command_text SCARD_SET_ATTRIB = ''setAttrib''"
| "command_text SCARD_LIST_READERS = ''listReaders''"
| "command_text SCARD_LIST_GROUPS = ''listGroups''"

definition pp_getMsgTypeText :: "nat \<Rightarrow> string" where
  "pp_getMsgTypeText t =
     (case command_of t of Some c \<Rightarrow> command_text c | None \<Rightarrow> ''(unknown)'')"

section \<open>Packed structures\<close>

datatype field_name =
    F_type | F_len | F_dwScope | F_hContext | F_rv | F_dwTimeout | F_szReader | F_dwShareMode
  | F_dwPreferredProtocols | F_hCard | F_dwActiveProtocol | F_dwInitialization
  | F_dwDisposition | F_mszReaderName | F_pcchReaderLen | F_dwState | F_dwProtocol
  | F_pbAtr | F_pcbAtrLen | F_dwCurrentState | F_dwEventState | F_cbAtrLen | F_cReaders
  | F_readerStates | F_ioSendPciProtocol | F_ioSendPciLength | F_ioRecvPciProtocol
  | F_ioRecvPciLength | F_pcbRecvLength | F_cbBufferLength | F_pcbBuffer | F_dwControlCode
  | F_pbSendBuffer | F_cbSendLength | F_pbRecvBuffer | F_cbRecvLength | F_dwBytesReturned
  | F_dwAttrId | F_pbAttr | F_cbAttrLen | F_cchReaderLen | F_isSizeQueryOnly
  | F_cchGroupLen | F_szGroup

type_synonym struct = "(field_name \<times> nat) list"

definition sizeof :: "struct \<Rightarrow> nat" where
  "sizeof st = sum_list (map snd st)"

fun field_off :: "field_name \<Rightarrow> struct \<Rightarrow> nat" where
  "field_off f [] = 0"
| "field_off f ((g, n) # st) = (if f = g then 0 else n + field_off f st)"

definition s_msg_header :: struct where
  "s_msg_header =
     [(F_type, 1), (F_len, 4)]"

definition s_establish :: struct where
  "s_establish =
     [(F_dwScope, 4), (F_hContext, 4), (F_rv, 4)]"

definition s_release :: struct where
  "s_release =
     [(F_hContext, 4), (F_rv, 4)]"

definition s_isvalid :: struct where
  "s_isvalid =
     [(F_hContext, 4), (F_rv, 4)]"

definition s_settimeout :: struct where
  "s_settimeout =
     [(F_hContext, 4), (F_dwTimeout, 4), (F_rv, 4)]"

definition s_connect :: struct where
  "s_connect =
     [(F_hContext, 4), (F_szReader, MAX_READERNAME), (F_dwShareMode, 4),
      (F_dwPreferredProtocols, 4), (F_hCard, 4), (F_dwActiveProtocol, 4), (F_rv, 4)]"

definition s_reconnect :: struct where
  "s_reconnect =
     [(F_hCard, 4), (F_dwShareMode, 4), (F_dwPreferredProtocols, 4),
      (F_dwInitialization, 4), (F_dwActiveProtocol, 4), (F_rv, 4)]"

definition s_disconnect :: struct where
  "s_disconnect =
     [(F_hCard, 4), (F_dwDisposition, 4), (F_rv, 4)]"

definition s_begin :: struct where
  "s_begin =
     [(F_hCard, 4), (F_rv, 4)]"

definition s_end :: struct where
  "s_end =
     [(F_hCard, 4), (F_dwDisposition, 4), (F_rv, 4)]"

definition s_cancel :: struct where
  "s_cancel =
     [(F_hCard, 4), (F_rv, 4)]"

definition s_status :: struct where
  "s_status =
     [(F_hCard, 4), (F_mszReaderName, MAX_READERNAME), (F_pcchReaderLen, 4),
      (F_dwState, 4), (F_dwProtocol, 4), (F_pbAtr, MAX_ATR_SIZE), (F_pcbAtrLen, 4),
      (F_rv, 4)]"

definition s_readerstate :: struct where
  "s_readerstate =
     [(F_mszReaderName, MAX_READERNAME), (F_dwCurrentState, 4), (F_dwEventState, 4),
      (F_pbAtr, MAX_ATR_SIZE), (F_cbAtrLen, 4)]"

definition s_getstatuschange :: struct where
  "s_getstatuschange =
     [(F_hContext, 4), (F_dwTimeout, 4), (F_rv, 4), (F_cReaders, 4),
      (F_readerStates, sizeof s_readerstate)]"

definition s_transmit :: struct where
  "s_transmit =
     [(F_hCard, 4), (F_ioSendPciProtocol, 4), (F_ioSendPciLength, 4),
      (F_ioRecvPciProtocol, 4), (F_ioRecvPciLength, 4), (F_pcbRecvLength, 4), (F_rv, 4),
      (F_cbBufferLength, 4), (F_pcbBuffer, 1)]"

definition s_control :: struct where
  "s_control =
     [(F_hCard, 4), (F_dwControlCode, 4), (F_pbSendBuffer, PP_MAX_BUFFER_LEN),
      (F_cbSendLength, 4), (F_pbRecvBuffer, PP_MAX_BUFFER_LEN), (F_cbRecvLength, 4),
      (F_dwBytesReturned, 4), (F_rv, 4)]"

definition s_getset :: struct where
  "s_getset =
     [(F_hCard, 4), (F_dwAttrId, 4), (F_pbAttr, PP_MAX_BUFFER_LEN), (F_cbAttrLen, 4),
      (F_rv, 4)]"

definition s_listreaders :: struct where
  "s_listreaders =
     [(F_hContext, 4), (F_cchReaderLen, 4), (F_isSizeQueryOnly, 4), (F_rv, 4),
      (F_szReader, 1)]"

definition s_listgroups :: struct where
  "s_listgroups =
     [(F_hContext, 4), (F_cchGroupLen, 4), (F_isSizeQueryOnly, 4), (F_rv, 4),
      (F_szGroup, 1)]"

text \<open>\<open>PP_MSG_SIZE\<close>; the offset of a field of a payload structure in the message; its access.\<close>

definition PP_MSG_SIZE :: "struct \<Rightarrow> nat" where
  "PP_MSG_SIZE tp = sizeof s_msg_header + sizeof tp"

definition fld :: "struct \<Rightarrow> field_name \<Rightarrow> nat" where
  "fld st f = sizeof s_msg_header + field_off f st"

definition getf :: "struct \<Rightarrow> field_name \<Rightarrow> buffer \<Rightarrow> u32" where
  "getf st f m = get32 (fld st f) m"

definition putf :: "struct \<Rightarrow> field_name \<Rightarrow> u32 \<Rightarrow> buffer \<Rightarrow> buffer" where
  "putf st f v m = put32 (fld st f) v m"

definition msg_type :: "buffer \<Rightarrow> u8" where
  "msg_type m = m (field_off F_type s_msg_header)"

definition set_msg_type :: "u8 \<Rightarrow> buffer \<Rightarrow> buffer" where
  "set_msg_type t m = m(field_off F_type s_msg_header := t)"

definition msg_len :: "buffer \<Rightarrow> u32" where
  "msg_len m = get32 (field_off F_len s_msg_header) m"

definition set_msg_len :: "u32 \<Rightarrow> buffer \<Rightarrow> buffer" where
  "set_msg_len n m = put32 (field_off F_len s_msg_header) n m"

section \<open>Sizes and offsets as numbers\<close>

lemmas struct_defs =
  s_msg_header_def s_establish_def s_release_def s_isvalid_def s_settimeout_def
  s_connect_def s_reconnect_def s_disconnect_def s_begin_def s_end_def s_cancel_def
  s_status_def s_readerstate_def s_getstatuschange_def s_transmit_def s_control_def
  s_getset_def s_listreaders_def s_listgroups_def

lemma sizeof_simps [simp]:
  "sizeof s_msg_header = 5" "sizeof s_establish = 12" "sizeof s_release = 8"
  "sizeof s_isvalid = 8" "sizeof s_settimeout = 12" "sizeof s_connect = 152"
  "sizeof s_reconnect = 24" "sizeof s_disconnect = 12" "sizeof s_begin = 8" "sizeof s_end = 12"
  "sizeof s_cancel = 8" "sizeof s_status = 185" "sizeof s_readerstate = 173"
  "sizeof s_getstatuschange = 189" "sizeof s_transmit = 33" "sizeof s_control = 8216"
  "sizeof s_getset = 4112" "sizeof s_listreaders = 17" "sizeof s_listgroups = 17"
  by (simp_all add: sizeof_def struct_defs)

lemma PP_MSG_SIZE_simps [simp]:
  "PP_MSG_SIZE s_establish = 17" "PP_MSG_SIZE s_release = 13" "PP_MSG_SIZE s_isvalid = 13"
  "PP_MSG_SIZE s_settimeout = 17" "PP_MSG_SIZE s_connect = 157" "PP_MSG_SIZE s_reconnect = 29"
  "PP_MSG_SIZE s_disconnect = 17" "PP_MSG_SIZE s_begin = 13" "PP_MSG_SIZE s_end = 17"
  "PP_MSG_SIZE s_cancel = 13" "PP_MSG_SIZE s_status = 190" "PP_MSG_SIZE s_getstatuschange = 194"
  "PP_MSG_SIZE s_transmit = 38" "PP_MSG_SIZE s_control = 8221" "PP_MSG_SIZE s_getset = 4117"
  "PP_MSG_SIZE s_listreaders = 22" "PP_MSG_SIZE s_listgroups = 22"
  by (simp_all add: PP_MSG_SIZE_def)

lemma field_off_simps [simp]:
  "field_off F_type s_msg_header = 0" "field_off F_len s_msg_header = 1"
  "field_off F_mszReaderName s_readerstate = 0" "field_off F_dwCurrentState s_readerstate = 128"
  "field_off F_dwEventState s_readerstate = 132" "field_off F_pbAtr s_readerstate = 136"
  "field_off F_cbAtrLen s_readerstate = 169"
  by (simp_all add: fld_def sizeof_def struct_defs)

lemma fld_simps [simp]:
  "fld s_establish F_dwScope = 5" "fld s_establish F_hContext = 9" "fld s_establish F_rv = 13"
  "fld s_release F_hContext = 5" "fld s_release F_rv = 9"
  "fld s_isvalid F_hContext = 5" "fld s_isvalid F_rv = 9"
  "fld s_settimeout F_hContext = 5" "fld s_settimeout F_dwTimeout = 9"
  "fld s_settimeout F_rv = 13"
  "fld s_connect F_hContext = 5" "fld s_connect F_szReader = 9"
  "fld s_connect F_dwShareMode = 137" "fld s_connect F_dwPreferredProtocols = 141"
  "fld s_connect F_hCard = 145" "fld s_connect F_dwActiveProtocol = 149"
  "fld s_connect F_rv = 153"
  "fld s_reconnect F_hCard = 5" "fld s_reconnect F_dwShareMode = 9"
  "fld s_reconnect F_dwPreferredProtocols = 13" "fld s_reconnect F_dwInitialization = 17"
  "fld s_reconnect F_dwActiveProtocol = 21" "fld s_reconnect F_rv = 25"
  "fld s_disconnect F_hCard = 5" "fld s_disconnect F_dwDisposition = 9"
  "fld s_disconnect F_rv = 13"
  "fld s_begin F_hCard = 5" "fld s_begin F_rv = 9"
  "fld s_end F_hCard = 5" "fld s_end F_dwDisposition = 9" "fld s_end F_rv = 13"
  "fld s_cancel F_hCard = 5" "fld s_cancel F_rv = 9"
  "fld s_status F_hCard = 5" "fld s_status F_mszReaderName = 9"
  "fld s_status F_pcchReaderLen = 137" "fld s_status F_dwState = 141"
  "fld s_status F_dwProtocol = 145" "fld s_status F_pbAtr = 149" "fld s_status F_pcbAtrLen = 182"
  "fld s_status F_rv = 186"
  "fld s_getstatuschange F_hContext = 5" "fld s_getstatuschange F_dwTimeout = 9"
  "fld s_getstatuschange F_rv = 13" "fld s_getstatuschange F_cReaders = 17"
  "fld s_getstatuschange F_readerStates = 21"
  "fld s_transmit F_hCard = 5" "fld s_transmit F_ioSendPciProtocol = 9"
  "fld s_transmit F_ioSendPciLength = 13" "fld s_transmit F_ioRecvPciProtocol = 17"
  "fld s_transmit F_ioRecvPciLength = 21" "fld s_transmit F_pcbRecvLength = 25"
  "fld s_transmit F_rv = 29" "fld s_transmit F_cbBufferLength = 33"
  "fld s_transmit F_pcbBuffer = 37"
  "fld s_control F_hCard = 5" "fld s_control F_dwControlCode = 9"
  "fld s_control F_pbSendBuffer = 13" "fld s_control F_cbSendLength = 4109"
  "fld s_control F_pbRecvBuffer = 4113" "fld s_control F_cbRecvLength = 8209"
  "fld s_control F_dwBytesReturned = 8213" "fld s_control F_rv = 8217"
  "fld s_getset F_hCard = 5" "fld s_getset F_dwAttrId = 9" "fld s_getset F_pbAttr = 13"
  "fld s_getset F_cbAttrLen = 4109" "fld s_getset F_rv = 4113"
  "fld s_listreaders F_hContext = 5" "fld s_listreaders F_cchReaderLen = 9"
  "fld s_listreaders F_isSizeQueryOnly = 13" "fld s_listreaders F_rv = 17"
  "fld s_listreaders F_szReader = 21"
  "fld s_listgroups F_hContext = 5" "fld s_listgroups F_cchGroupLen = 9"
  "fld s_listgroups F_isSizeQueryOnly = 13" "fld s_listgroups F_rv = 17"
  "fld s_listgroups F_szGroup = 21"
  by (simp_all add: fld_def sizeof_def struct_defs)

section \<open>Access laws\<close>

named_theorems msg_simps

lemma fld_ge_header [simp]: "5 \<le> fld st f" "\<not> fld st f < 5" "1 \<le> fld st f" "0 < fld st f"
  by (simp_all add: fld_def)

lemma getf_putf_same [msg_simps]: "getf st f (putf st f v m) = v"
  by (simp add: getf_def putf_def buf_simps)

lemma getf_putf_other [msg_simps]:
  "fld st f + 4 \<le> fld st' g \<or> fld st' g + 4 \<le> fld st f \<Longrightarrow>
    getf st f (putf st' g v m) = getf st f m"
  by (simp add: getf_def putf_def buf_simps)

lemma getf_blit_other [msg_simps]:
  "fld st f + 4 \<le> off \<or> off + length bs \<le> fld st f \<Longrightarrow>
    getf st f (blit off bs m) = getf st f m"
  by (simp add: getf_def buf_simps)

lemma bytes_putf_other [msg_simps]:
  "off + n \<le> fld st f \<or> fld st f + 4 \<le> off \<Longrightarrow> bytes off n (putf st f v m) = bytes off n m"
  by (simp add: putf_def buf_simps)

lemma getf_header [msg_simps]:
  "getf st f (set_msg_type t m) = getf st f m" "getf st f (set_msg_len n m) = getf st f m"
  by (simp_all add: getf_def set_msg_type_def set_msg_len_def buf_simps)

lemma bytes_header [msg_simps]:
  "5 \<le> off \<Longrightarrow> bytes off k (set_msg_type t m) = bytes off k m"
  "5 \<le> off \<Longrightarrow> bytes off k (set_msg_len n m) = bytes off k m"
  by (simp_all add: set_msg_type_def set_msg_len_def buf_simps)

lemma msg_type_simps [msg_simps]:
  "msg_type (set_msg_type t m) = t"
  "msg_type (set_msg_len n m) = msg_type m"
  "msg_type (putf st f v m) = msg_type m"
  "5 \<le> off \<Longrightarrow> msg_type (blit off bs m) = msg_type m"
  by (simp_all add: msg_type_def set_msg_type_def set_msg_len_def putf_def buf_simps)

lemma msg_len_simps [msg_simps]:
  "msg_len (set_msg_len n m) = n"
  "msg_len (set_msg_type t m) = msg_len m"
  "msg_len (putf st f v m) = msg_len m"
  "5 \<le> off \<Longrightarrow> msg_len (blit off bs m) = msg_len m"
  by (simp_all add: msg_len_def set_msg_type_def set_msg_len_def putf_def buf_simps)

lemma getf_zeros [msg_simps]: "getf st f zeros = 0"
  by (simp add: getf_def buf_simps)

lemma bytes_zeros: "bytes off n zeros = replicate n 0"
  by (simp add: bytes_def zeros_def map_replicate_const)

text \<open>What a message carries on the wire is its first \<open>header.len\<close> bytes.\<close>

definition frame :: "buffer \<Rightarrow> u8 list" where
  "frame m = bytes 0 (unat (msg_len m)) m"

lemma length_frame [simp]: "length (frame m) = unat (msg_len m)"
  by (simp add: frame_def)

text \<open>A frame laid over another buffer: what the receiver finds in its message.\<close>

lemma frame_over:
  "i < unat (msg_len m) \<Longrightarrow> blit 0 (frame m) b i = m i"
  by (simp add: blit_def frame_def nth_bytes)

lemma getf_frame [msg_simps]:
  "fld st f + 4 \<le> unat (msg_len m) \<Longrightarrow> getf st f (blit 0 (frame m) b) = getf st f m"
  unfolding getf_def by (rule get32_cong) (simp add: frame_over)

lemma get32_frame [msg_simps]:
  "off + 4 \<le> unat (msg_len m) \<Longrightarrow> get32 off (blit 0 (frame m) b) = get32 off m"
  by (rule get32_cong) (simp add: frame_over)

lemma bytes_frame [msg_simps]:
  "off + n \<le> unat (msg_len m) \<Longrightarrow> bytes off n (blit 0 (frame m) b) = bytes off n m"
  by (auto simp: bytes_eq_iff frame_over)

lemma header_frame [msg_simps]:
  "5 \<le> unat (msg_len m) \<Longrightarrow> msg_len (blit 0 (frame m) b) = msg_len m"
  "5 \<le> unat (msg_len m) \<Longrightarrow> msg_type (blit 0 (frame m) b) = msg_type m"
  by (simp_all add: msg_len_def msg_type_def get32_frame [unfolded msg_len_def] frame_over [unfolded msg_len_def])

lemma agree_msg:
  "agree n m m' \<Longrightarrow> fld st f + 4 \<le> n \<Longrightarrow> getf st f m = getf st f m'"
  "agree n m m' \<Longrightarrow> 5 \<le> n \<Longrightarrow> msg_type m = msg_type m'"
  "agree n m m' \<Longrightarrow> 5 \<le> n \<Longrightarrow> msg_len m = msg_len m'"
  by (auto simp: getf_def msg_type_def msg_len_def intro: agree_get32 agree_byte)

section \<open>Accesses at computed lengths\<close>

text \<open>The room for data in a transmit message, computed alike by the client and the server.\<close>

definition max_transmit :: nat where
  "max_transmit = PP_MAX_MESSAGE_LEN - (PP_MSG_SIZE s_transmit - 1)"

lemma max_transmit_simp [simp]: "max_transmit = 66523"
  by (simp add: max_transmit_def)

text \<open>
  The PC/SC library or the application reads or stores \<open>n\<close> bytes at an offset of the message buffer: a fault if they
  are not all inside of it.
\<close>

definition read_bytes :: "nat \<Rightarrow> nat \<Rightarrow> buffer \<Rightarrow> u8 list outcome" where
  "read_bytes off n msg =
     (if off + n \<le> PP_MAX_MESSAGE_LEN then Inr (bytes off n msg) else Inl OutOfBounds)"

definition store_bytes :: "nat \<Rightarrow> u8 list \<Rightarrow> buffer \<Rightarrow> buffer outcome" where
  "store_bytes off bs msg =
     (if bs = [] \<or> off + length bs \<le> PP_MAX_MESSAGE_LEN then Inr (blit off bs msg)
      else Inl OutOfBounds)"

definition read_string :: "nat \<Rightarrow> buffer \<Rightarrow> u8 list outcome" where
  "read_string off msg = cstring (PP_MAX_MESSAGE_LEN - off) off msg"

section \<open>Properties of the format\<close>

lemma field_off_bound:
  "(f, k) \<in> set st \<Longrightarrow> distinct (map fst st) \<Longrightarrow> field_off f st + k \<le> sizeof st"
  by (induction st) (auto simp: sizeof_def image_iff split: if_splits)

lemma field_off_disjoint:
  "(f, k) \<in> set st \<Longrightarrow> (g, l) \<in> set st \<Longrightarrow> distinct (map fst st) \<Longrightarrow> f \<noteq> g \<Longrightarrow>
    field_off f st + k \<le> field_off g st \<or> field_off g st + l \<le> field_off f st"
proof (induction st)
  case (Cons x st)
  then show ?case
    using field_off_bound [of f k st] field_off_bound [of g l st]
    by (cases x) (auto simp: image_iff)
qed simp

text \<open>The structures a message can carry, and the field a store cannot disturb.\<close>

definition payload_structs :: "struct list" where
  "payload_structs =
     [s_establish, s_release, s_isvalid, s_settimeout, s_connect, s_reconnect, s_disconnect,
      s_begin, s_end, s_cancel, s_status, s_getstatuschange, s_transmit, s_control, s_getset,
      s_listreaders, s_listgroups]"

lemma payload_structs_distinct: "st \<in> set payload_structs \<Longrightarrow> distinct (map fst st)"
  by (auto simp: payload_structs_def struct_defs)

lemma payload_structs_size: "st \<in> set payload_structs \<Longrightarrow> PP_MSG_SIZE st \<le> PP_MSG_SIZE s_control"
  by (auto simp: payload_structs_def)

lemma set_all_commands: "c \<in> set all_commands"
  by (cases c) (simp_all add: all_commands_def)

lemma command_index_less: "command_index c < 19"
  by (cases c) simp_all

lemma nth_command_index: "all_commands ! command_index c = c"
  by (cases c) (simp_all add: all_commands_def)

lemma command_of_code [simp]: "command_of (unat (command_code c)) = Some c"
  by (cases c) (simp_all add: command_code_def command_of_def all_commands_def)

lemma all_Suc_less: "(\<forall>i < Suc n. P i) \<longleftrightarrow> P 0 \<and> (\<forall>i < n. P (Suc i))"
  using less_Suc_eq_0_disj by auto

lemma command_of_Some: "command_of t = Some c \<Longrightarrow> t = command_index c"
proof -
  assume a: "command_of t = Some c"
  then have "t < 19" and c: "c = all_commands ! t"
    by (auto simp: command_of_def all_commands_def split: if_splits)
  moreover have "\<forall>i < 19. command_index (all_commands ! i) = i"
    by (simp add: all_commands_def numeral_eq_Suc all_Suc_less)
  ultimately show ?thesis by simp
qed

lemma command_code_inj: "command_code c = command_code d \<longleftrightarrow> c = d"
  by (metis command_of_code option.inject)

text \<open>Enumerators compare by their values.\<close>

lemma command_index_inj: "command_index c = command_index d \<longleftrightarrow> c = d"
  by (metis nth_command_index)

instantiation message_commands :: linorder
begin

definition less_eq_message_commands :: "message_commands \<Rightarrow> message_commands \<Rightarrow> bool" where
  "less_eq_message_commands c d \<longleftrightarrow> command_index c \<le> command_index d"

definition less_message_commands :: "message_commands \<Rightarrow> message_commands \<Rightarrow> bool" where
  "less_message_commands c d \<longleftrightarrow> command_index c < command_index d"

instance
  by standard (auto simp: less_eq_message_commands_def less_message_commands_def command_index_inj)

end

lemma command_code_less: "command_code c < command_code d \<longleftrightarrow> c < d"
proof -
  have "unat (command_code x) = command_index x" for x
    by (cases x) (simp_all add: command_code_def)
  then show ?thesis by (simp add: word_less_nat_alt less_message_commands_def)
qed

lemma sorted_all_commands: "sorted_wrt (<) all_commands"
  by (simp add: all_commands_def less_message_commands_def)

end
