(* ===== verification/Transport.thy ===== *)
theory Transport
  imports Message
begin

text \<open>
  Reading and writing one message on a byte stream: \<open>pp_recv\<close> and \<open>pp_send\<close> of
  \<open>src/src/common/network.c\<close>, and the copies of the same two loops in \<open>nullenc.c\<close>,
  \<open>openssl.c\<close> and \<open>tls.c\<close>, each over its own primitive (\<open>read\<close>/\<open>send\<close>,
  \<open>recv\<close>/\<open>send\<close>, \<open>SSL_read\<close>/\<open>SSL_write\<close>,
  \<open>gnutls_record_recv\<close>/\<open>gnutls_record_send\<close>).

  What a primitive returns is the environment's choice.  It is given by a script of events:
  bytes that arrive in pieces of any size, the peer closing, a call failing with an
  \<open>errno\<close> and the negative value it returns; on the sending side how many bytes each call takes,
  or the errno it fails with.  A call with no event left does not return (\<open>Blocked\<close>).

  The value of a failed call is -1 for the system calls, and a code of the library for a TLS
  library: \<open>gnutls_record_recv\<close> returns for instance -52 (\<open>GNUTLS_E_INTERRUPTED\<close>) or -28
  (\<open>GNUTLS_E_AGAIN\<close>), whatever \<open>errno\<close> holds.
\<close>

section \<open>The primitives\<close>

definition EINTR :: int where
  "EINTR = 4"

datatype read_event = Arrive "u8 list" | Closed | ReadFail int int

datatype read_result = RData "u8 list" | REof | RErr int int

fun sys_read :: "nat \<Rightarrow> read_event list \<Rightarrow> (read_result \<times> read_event list) outcome" where
  "sys_read n [] = Inl Blocked"
| "sys_read n (Arrive bs # es) =
     (if bs = [] then sys_read n es
      else if length bs \<le> n then Inr (RData bs, es)
      else Inr (RData (take n bs), Arrive (drop n bs) # es))"
| "sys_read n (Closed # es) = Inr (REof, Closed # es)"
| "sys_read n (ReadFail e i # es) = Inr (RErr e (min i (-1)), es)"

datatype write_event = Accept nat | WriteFail int

fun script_size :: "read_event list \<Rightarrow> nat" where
  "script_size [] = 0"
| "script_size (Arrive bs # es) = Suc (length bs) + script_size es"
| "script_size (_ # es) = Suc (script_size es)"

lemma sys_read_smaller:
  "sys_read n es = Inr (r, es') \<Longrightarrow> r \<noteq> REof \<Longrightarrow> 0 < n \<Longrightarrow> script_size es' < script_size es"
  by (induction n es rule: sys_read.induct) (auto split: if_splits)

lemma sys_read_length: "sys_read n es = Inr (RData bs, es') \<Longrightarrow> length bs \<le> n"
  by (induction n es rule: sys_read.induct) (auto split: if_splits)

lemma sys_read_negative: "sys_read n es = Inr (RErr e i, es') \<Longrightarrow> i < 0"
  by (induction n es rule: sys_read.induct) (auto split: if_splits)

section \<open>Receiving\<close>

text \<open>
  The header loop.  \<open>bytesRead\<close> is an \<open>int\<close> compared with a \<open>size_t\<close>, so that the
  comparison fails for a negative value; \<open>p\<close> and \<open>bytesRead\<close> advance together, \<open>p\<close> being
  \<open>msg + bytesRead\<close> at every read.  After an interrupted call the code falls through to
  \<open>bytesRead+=i\<close> with the negative value the call returned: after one byte a system call's -1
  makes it read that byte's place again, and a GnuTLS code makes the count negative.  The codes of
  the libraries are far above the least \<open>int\<close>, so that the sum is exact.  The first component of the result is the code returned from
  inside the loop, \<open>None\<close> when the loop is left through its condition.
\<close>

function recv_header :: "int \<Rightarrow> buffer \<Rightarrow> read_event list \<Rightarrow>
    ((int option \<times> int \<times> buffer) \<times> read_event list) outcome" where
  "recv_header bytesRead msg es =
     (if 0 \<le> bytesRead \<and> nat bytesRead < sizeof s_msg_header then
        (case sys_read (sizeof s_msg_header - nat bytesRead) es of
           Inl e \<Rightarrow> Inl e
         | Inr (RErr e i, es') \<Rightarrow>
             if e \<noteq> EINTR then Inr ((Some (-1), bytesRead, msg), es')
             else recv_header (bytesRead + i) msg es'
         | Inr (REof, es') \<Rightarrow>
             Inr ((Some (if bytesRead = 0 then 0 else -1), bytesRead, msg), es')
         | Inr (RData bs, es') \<Rightarrow>
             recv_header (bytesRead + int (length bs)) (blit (nat bytesRead) bs msg) es')
      else Inr ((None, bytesRead, msg), es))"
  by pat_completeness auto
termination
  by (relation "measure (\<lambda>(_, _, es). script_size es)") (auto intro: sys_read_smaller)

declare recv_header.simps [simp del]

text \<open>
  The payload loop; \<open>msg->header.len\<close> is read again in every round, and \<open>bytesRead\<close> is
  converted to \<open>uint32_t\<close> by the comparison.
\<close>

function recv_payload :: "int \<Rightarrow> buffer \<Rightarrow> read_event list \<Rightarrow>
    ((int \<times> buffer) \<times> read_event list) outcome" where
  "recv_payload bytesRead msg es =
     (if 0 \<le> bytesRead \<and> nat bytesRead < unat (msg_len msg) then
        (case sys_read (unat (msg_len msg) - nat bytesRead) es of
           Inl e \<Rightarrow> Inl e
         | Inr (RErr e i, es') \<Rightarrow> Inr ((-1, msg), es')
         | Inr (REof, es') \<Rightarrow> Inr ((-1, msg), es')
         | Inr (RData bs, es') \<Rightarrow>
             recv_payload (bytesRead + int (length bs)) (blit (nat bytesRead) bs msg) es')
      else Inr ((bytesRead, msg), es))"
  by pat_completeness auto
termination
  by (relation "measure (\<lambda>(_, _, es). script_size es)") (auto intro: sys_read_smaller)

declare recv_payload.simps [simp del]

definition recv_message :: "buffer \<Rightarrow> read_event list \<Rightarrow>
    ((int \<times> buffer) \<times> read_event list) outcome" where
  "recv_message msg es =
     (case recv_header 0 msg es of
        Inl e \<Rightarrow> Inl e
      | Inr ((Some rc, bytesRead, msg'), es') \<Rightarrow> Inr ((rc, msg'), es')
      | Inr ((None, bytesRead, msg'), es') \<Rightarrow>
          if PP_MAX_MESSAGE_LEN \<le> unat (msg_len msg') then Inr ((-1, msg'), es')
          else recv_payload bytesRead msg' es')"

section \<open>Sending\<close>

text \<open>
  \<open>bytesLeft\<close> is the \<open>uint32_t\<close> length converted to \<open>int\<close>; \<open>p\<close> is \<open>msg + pos\<close>.  A
  call is handed \<open>bytesLeft\<close> bytes at \<open>p\<close>: if these are not all inside the message buffer the
  primitive reads outside of it.
\<close>

fun send_loop :: "nat \<Rightarrow> int \<Rightarrow> buffer \<Rightarrow> write_event list \<Rightarrow> u8 list \<Rightarrow>
    (int \<times> write_event list \<times> u8 list) outcome" where
  "send_loop pos bytesLeft msg ws out =
     (if bytesLeft = 0 then Inr (0, ws, out)
      else if bytesLeft < 0 \<or> int PP_MAX_MESSAGE_LEN < int pos + bytesLeft then Inl OutOfBounds
      else
        (case ws of
           [] \<Rightarrow> Inl Blocked
         | WriteFail e # ws' \<Rightarrow>
             if e \<noteq> EINTR then Inr (-1, ws', out) else send_loop pos bytesLeft msg ws' out
         | Accept k # ws' \<Rightarrow>
             let i = min k (nat bytesLeft) in
             if i = 0 then send_loop pos bytesLeft msg ws' out
             else send_loop (pos + i) (bytesLeft - int i) msg ws' (out @ bytes pos i msg)))"

declare send_loop.simps [simp del]

definition send_message :: "buffer \<Rightarrow> write_event list \<Rightarrow> u8 list \<Rightarrow>
    (int \<times> write_event list \<times> u8 list) outcome" where
  "send_message msg ws out = send_loop 0 (sint (msg_len msg)) msg ws out"

section \<open>Functional behaviour of the receiving loops\<close>

text \<open>The bytes a script delivers before anything else than data happens.\<close>

fun pending_of :: "read_event list \<Rightarrow> u8 list" where
  "pending_of (Arrive bs # es) = bs @ pending_of es"
| "pending_of _ = []"

lemma sys_read_pending:
  "pending_of es \<noteq> [] \<Longrightarrow> 0 < n \<Longrightarrow>
    \<exists>bs es'. sys_read n es = Inr (RData bs, es') \<and> bs \<noteq> [] \<and> length bs \<le> n \<and>
      pending_of es = bs @ pending_of es'"
  by (induction n es rule: sys_read.induct) auto

lemma recv_header_step:
  assumes "k < 5" "sys_read (5 - k) es = Inr (RData bs, es')"
  shows "recv_header (int k) m es = recv_header (int (k + length bs)) (blit k bs m) es'"
  using assms by (simp add: recv_header.simps [of "int k"])

lemma recv_header_done: "br < 0 \<or> 5 \<le> nat br \<Longrightarrow> recv_header br m es = Inr ((None, br, m), es)"
  by (subst recv_header.simps) auto

lemma sys_read_prefix:
  assumes "pending_of es = xs @ rest" "xs \<noteq> []" "length xs = n"
  obtains bs ys es' where "sys_read n es = Inr (RData bs, es')" "bs \<noteq> []" "xs = bs @ ys"
    "pending_of es' = ys @ rest"
proof -
  have "pending_of es \<noteq> []" "0 < n"
    using assms by auto
  then obtain bs es' where r: "sys_read n es = Inr (RData bs, es')" and "bs \<noteq> []"
    and l: "length bs \<le> n" and p: "pending_of es = bs @ pending_of es'"
    using sys_read_pending by blast
  from p assms(1) have "xs @ rest = bs @ pending_of es'" by simp
  with l assms(3) obtain ys where "xs = bs @ ys" "pending_of es' = ys @ rest"
    by (auto simp: append_eq_append_conv2)
  with r \<open>bs \<noteq> []\<close> show thesis by (rule that)
qed

lemma recv_header_pending:
  "pending_of es = xs @ rest \<Longrightarrow> length xs + k = 5 \<Longrightarrow>
    \<exists>es'. recv_header (int k) m es = Inr ((None, 5, blit k xs m), es') \<and> pending_of es' = rest"
proof (induction xs arbitrary: es k m rule: length_induct)
  case (1 xs)
  show ?case
  proof (cases "xs = []")
    case True
    with 1 show ?thesis by (simp add: recv_header_done)
  next
    case False
    have "length xs = 5 - k" using 1(3) by simp
    with 1(2) False obtain bs ys es' where r: "sys_read (5 - k) es = Inr (RData bs, es')"
      and xs: "bs \<noteq> []" "xs = bs @ ys" and p: "pending_of es' = ys @ rest"
      by (rule sys_read_prefix)
    have "length ys < length xs" "length ys + (k + length bs) = 5" and k: "k < 5"
      using False xs 1(3) by (auto simp: neq_Nil_conv)
    with 1(1) p obtain es'' where
      "recv_header (int (k + length bs)) (blit k bs m) es' =
         Inr ((None, 5, blit (k + length bs) ys (blit k bs m)), es'')" "pending_of es'' = rest"
      by blast
    with recv_header_step [OF k r, of m] show ?thesis by (simp add: xs blit_append)
  qed
qed

lemma recv_payload_step:
  assumes "k < unat (msg_len m)" "sys_read (unat (msg_len m) - k) es = Inr (RData bs, es')"
  shows "recv_payload (int k) m es = recv_payload (int (k + length bs)) (blit k bs m) es'"
  using assms by (simp add: recv_payload.simps [of "int k"])

lemma recv_payload_done:
  "br < 0 \<or> unat (msg_len m) \<le> nat br \<Longrightarrow> recv_payload br m es = Inr ((br, m), es)"
  by (subst recv_payload.simps) auto

lemma recv_payload_pending:
  "pending_of es = xs @ rest \<Longrightarrow> length xs + k = unat (msg_len m) \<Longrightarrow> 5 \<le> k \<Longrightarrow>
    \<exists>es'. recv_payload (int k) m es = Inr ((int (unat (msg_len m)), blit k xs m), es') \<and>
      pending_of es' = rest"
proof (induction xs arbitrary: es k m rule: length_induct)
  case (1 xs)
  show ?case
  proof (cases "xs = []")
    case True
    with 1 show ?thesis by (simp add: recv_payload_done)
  next
    case False
    let ?n = "unat (msg_len m)"
    have "length xs = ?n - k" using 1(3) by simp
    with 1(2) False obtain bs ys es' where r: "sys_read (?n - k) es = Inr (RData bs, es')"
      and xs: "bs \<noteq> []" "xs = bs @ ys" and p: "pending_of es' = ys @ rest"
      by (rule sys_read_prefix)
    let ?m = "blit k bs m"
    have len: "msg_len ?m = msg_len m"
      using 1(4) by (simp add: msg_simps)
    have "length ys < length xs" "length ys + (k + length bs) = unat (msg_len ?m)" and k: "k < ?n"
      using False xs 1(3) len by (auto simp: neq_Nil_conv)
    with 1(1,4) p len obtain es'' where
      "recv_payload (int (k + length bs)) ?m es' =
         Inr ((int ?n, blit (k + length bs) ys ?m), es'')" "pending_of es'' = rest"
      by (metis trans_le_add1)
    with recv_payload_step [OF k r] show ?thesis by (simp add: xs blit_append)
  qed
qed

text \<open>
  One frame, in whatever pieces it arrives, is received whole; the buffer behind it keeps its
  bytes and the script is left at the first byte after the frame.
\<close>

lemma recv_message_frame:
  assumes "pending_of es = frame q @ rest" "5 \<le> unat (msg_len q)"
    "unat (msg_len q) < PP_MAX_MESSAGE_LEN"
  shows "\<exists>es'. recv_message m es =
      Inr ((int (unat (msg_len q)), blit 0 (frame q) m), es') \<and> pending_of es' = rest"
proof -
  let ?n = "unat (msg_len q)"
  have f: "frame q = bytes 0 5 q @ bytes 5 (?n - 5) q"
    using assms(2) bytes_add [of 0 5 "?n - 5" q] by (simp add: frame_def)
  obtain es1 where h: "recv_header 0 m es = Inr ((None, 5, blit 0 (bytes 0 5 q) m), es1)"
    and p: "pending_of es1 = bytes 5 (?n - 5) q @ rest"
    using recv_header_pending [of es "bytes 0 5 q" "bytes 5 (?n - 5) q @ rest" 0 m] assms(1) f
    by auto
  let ?m = "blit 0 (bytes 0 5 q) m"
  have len: "msg_len ?m = msg_len q"
    by (simp add: msg_len_def, rule get32_cong) (simp add: blit_in nth_bytes)
  obtain es2 where "recv_payload 5 ?m es1 =
      Inr ((int ?n, blit 5 (bytes 5 (?n - 5) q) ?m), es2)" and "pending_of es2 = rest"
    using recv_payload_pending [of es1 _ rest 5 ?m] p assms(2) len by auto
  moreover have "blit 5 (bytes 5 (?n - 5) q) ?m = blit 0 (frame q) m"
    using blit_append [of 0 "bytes 0 5 q" "bytes 5 (?n - 5) q" m] f by simp
  ultimately show ?thesis
    using h len assms(3) by (simp add: recv_message_def)
qed

section \<open>Receiving under any script\<close>

text \<open>
  Whatever the environment does, the two loops store only inside the message buffer, and the
  code returned is an error, an end of stream, or a length the buffer can hold.
\<close>

lemma recv_header_cases:
  assumes "recv_header br m es = Inr ((rc, br', m'), es')"
  obtains (finished) "br < 0 \<or> 5 \<le> nat br" "rc = None" "br' = br" "m' = m" "es' = es"
  | (data) bs es1 where "0 \<le> br" "nat br < 5" "sys_read (5 - nat br) es = Inr (RData bs, es1)"
      "recv_header (br + int (length bs)) (blit (nat br) bs m) es1 = Inr ((rc, br', m'), es')"
  | (stop) "rc = Some 0 \<or> rc = Some (- 1)" "m' = m"
  | (interrupted) i es1 where "0 \<le> br" "nat br < 5" "sys_read (5 - nat br) es = Inr (RErr EINTR i, es1)"
      "i < 0" "recv_header (br + i) m es1 = Inr ((rc, br', m'), es')"
proof (cases "0 \<le> br \<and> nat br < 5")
  case False
  with assms show thesis by (intro finished) (auto simp: recv_header_done)
next
  case True
  with assms obtain r es1 where r: "sys_read (5 - nat br) es = Inr (r, es1)"
    by (auto simp: recv_header.simps [of br] split: sum.splits)
  note unf = assms [unfolded recv_header.simps [of br m es], simplified r sizeof_simps]
  show thesis
  proof (cases r)
    case (RData bs)
    with True r unf show thesis by (intro data) auto
  next
    case REof
    with True unf show thesis by (intro stop) (auto split: if_splits)
  next
    case (RErr e i)
    show thesis
    proof (cases "e = EINTR")
      case True
      with \<open>0 \<le> br \<and> nat br < 5\<close> r RErr unf sys_read_negative show thesis by (intro interrupted) auto
    next
      case False
      with True unf RErr show thesis by (intro stop) auto
    qed
  qed
qed

lemma recv_header_range:
  "recv_header br m es = Inr ((rc, br', m'), es') \<Longrightarrow> br \<le> 5 \<Longrightarrow>
    (\<forall>i \<ge> 5. m' i = m i) \<and> (rc = None \<longrightarrow> br' = 5 \<or> br' < 0) \<and>
    (rc = None \<or> rc = Some 0 \<or> rc = Some (- 1))"
proof (induction es arbitrary: br m rule: measure_induct_rule [of script_size])
  case (less es)
  from less.prems(1) show ?case
  proof (cases rule: recv_header_cases)
    case finished
    with less.prems show ?thesis by auto
  next
    case (data bs es1)
    have "script_size es1 < script_size es"
      using data(2,3) by (auto intro: sys_read_smaller)
    moreover have bs: "length bs \<le> 5 - nat br"
      using data(3) by (rule sys_read_length)
    ultimately have "(\<forall>i \<ge> 5. m' i = blit (nat br) bs m i) \<and> (rc = None \<longrightarrow> br' = 5 \<or> br' < 0) \<and>
        (rc = None \<or> rc = Some 0 \<or> rc = Some (- 1))"
      using data(1,2,4) by (intro less.IH) auto
    with data(1,2) bs show ?thesis by (simp add: blit_out)
  next
    case stop
    then show ?thesis by auto
  next
    case (interrupted i es1)
    have "script_size es1 < script_size es"
      using interrupted(2,3) by (auto intro: sys_read_smaller)
    then show ?thesis
      using less.IH [OF _ interrupted(5)] interrupted(4) less.prems(2) by simp
  qed
qed

lemma recv_payload_cases:
  assumes "recv_payload br m es = Inr ((rc, m'), es')"
  obtains (finished) "br < 0 \<or> unat (msg_len m) \<le> nat br" "rc = br" "m' = m" "es' = es"
  | (data) bs es1 where "0 \<le> br" "nat br < unat (msg_len m)"
      "sys_read (unat (msg_len m) - nat br) es = Inr (RData bs, es1)"
      "recv_payload (br + int (length bs)) (blit (nat br) bs m) es1 = Inr ((rc, m'), es')"
  | (stop) "rc = - 1" "m' = m"
proof (cases "0 \<le> br \<and> nat br < unat (msg_len m)")
  case False
  with assms show thesis by (intro finished) (auto simp: recv_payload_done)
next
  case True
  with assms obtain r es1 where r: "sys_read (unat (msg_len m) - nat br) es = Inr (r, es1)"
    by (auto simp: recv_payload.simps [of br] split: sum.splits)
  note unf = assms [unfolded recv_payload.simps [of br m es], simplified r]
  show thesis
  proof (cases r)
    case (RData bs)
    with True r unf show thesis by (intro data) auto
  next
    case REof
    with True unf show thesis by (intro stop) auto
  next
    case (RErr e i)
    with True unf show thesis by (intro stop) auto
  qed
qed

lemma recv_payload_range:
  "recv_payload br m es = Inr ((rc, m'), es') \<Longrightarrow> br < 0 \<or> 5 \<le> br \<Longrightarrow>
    (\<forall>i. i < 5 \<or> unat (msg_len m) \<le> i \<longrightarrow> m' i = m i) \<and>
    (rc < 0 \<or> 5 \<le> rc \<and> (rc = br \<or> rc \<le> int (unat (msg_len m))))"
proof (induction es arbitrary: br m rule: measure_induct_rule [of script_size])
  case (less es)
  from less.prems(1) show ?case
  proof (cases rule: recv_payload_cases)
    case finished
    with less.prems show ?thesis by auto
  next
    case (data bs es1)
    let ?m = "blit (nat br) bs m"
    have "script_size es1 < script_size es"
      using data(2,3) by (auto intro: sys_read_smaller)
    moreover have bs: "length bs \<le> unat (msg_len m) - nat br"
      using data(3) by (rule sys_read_length)
    moreover have len: "msg_len ?m = msg_len m"
      using data(1) less.prems(2) by (simp add: msg_simps)
    ultimately have "(\<forall>i. i < 5 \<or> unat (msg_len m) \<le> i \<longrightarrow> m' i = ?m i) \<and>
        (rc < 0 \<or> 5 \<le> rc \<and> (rc = br + int (length bs) \<or> rc \<le> int (unat (msg_len m))))"
      using less.IH [OF _ data(4)] data(1) less.prems(2) by auto
    moreover have "\<forall>i. i < 5 \<or> unat (msg_len m) \<le> i \<longrightarrow> ?m i = m i"
      using data(1,2) bs less.prems(2) by (auto intro!: blit_out)
    moreover have "br + int (length bs) \<le> int (unat (msg_len m))"
      using data(1,2) bs by auto
    ultimately show ?thesis by auto
  next
    case stop
    then show ?thesis by auto
  qed
qed

lemma recv_message_safe:
  assumes "recv_message m es = Inr ((rc, m'), es')"
  shows "(\<forall>i \<ge> PP_MAX_MESSAGE_LEN. m' i = m i) \<and>
    (rc \<le> 0 \<or> 5 \<le> rc \<and> rc < int PP_MAX_MESSAGE_LEN)"
proof -
  from assms obtain rc1 br m1 es1 where h: "recv_header 0 m es = Inr ((rc1, br, m1), es1)"
    by (auto simp: recv_message_def split: sum.splits)
  have h': "(\<forall>i \<ge> 5. m1 i = m i)" "rc1 = None \<longrightarrow> br = 5 \<or> br < 0"
    "rc1 = None \<or> rc1 = Some 0 \<or> rc1 = Some (- 1)"
    using recv_header_range [OF h] by auto
  show ?thesis
  proof (cases "rc1 = None \<and> unat (msg_len m1) < PP_MAX_MESSAGE_LEN")
    case True
    with assms h have "recv_payload br m1 es1 = Inr ((rc, m'), es')"
      by (simp add: recv_message_def)
    then have "(\<forall>i. i < 5 \<or> unat (msg_len m1) \<le> i \<longrightarrow> m' i = m1 i) \<and>
      (rc < 0 \<or> 5 \<le> rc \<and> (rc = br \<or> rc \<le> int (unat (msg_len m1))))"
      by (rule recv_payload_range) (use True h' in auto)
    with True h' show ?thesis by auto
  next
    case False
    with assms h h' show ?thesis by (auto simp: recv_message_def split: if_splits)
  qed
qed

text \<open>
  A failure with \<open>EINTR\<close> of the first read ends the receive: the code falls through to
  \<open>bytesRead+=i\<close>, the loop conditions fail for the negative count, and the count is returned.
\<close>

lemma recv_message_interrupted:
  assumes "i < 0"
  shows "\<exists>rc. recv_message m (ReadFail EINTR i # es) = Inr ((rc, m), es) \<and>
    rc = (if PP_MAX_MESSAGE_LEN \<le> unat (msg_len m) then -1 else i)"
  using assms
  by (simp add: recv_message_def recv_header.simps [of 0] recv_header_done recv_payload_done)

section \<open>Sending under any script\<close>

lemma send_loop_simps:
  "send_loop pos 0 m ws out = Inr (0, ws, out)"
  "left < 0 \<or> int PP_MAX_MESSAGE_LEN < int pos + left \<Longrightarrow> left \<noteq> 0 \<Longrightarrow>
    send_loop pos left m ws out = Inl OutOfBounds"
  "0 < n \<Longrightarrow> pos + n \<le> PP_MAX_MESSAGE_LEN \<Longrightarrow> send_loop pos (int n) m [] out = Inl Blocked"
  "0 < n \<Longrightarrow> pos + n \<le> PP_MAX_MESSAGE_LEN \<Longrightarrow> send_loop pos (int n) m (WriteFail e # ws) out =
    (if e \<noteq> EINTR then Inr (- 1, ws, out) else send_loop pos (int n) m ws out)"
  "0 < n \<Longrightarrow> pos + n \<le> PP_MAX_MESSAGE_LEN \<Longrightarrow> send_loop pos (int n) m (Accept k # ws) out =
    send_loop (pos + min k n) (int (n - min k n)) m ws (out @ bytes pos (min k n) m)"
  by (subst send_loop.simps; auto simp: Let_def of_nat_diff)+

lemma send_loop_result:
  "send_loop pos (int n) m ws out = Inr (rc, ws', out') \<Longrightarrow>
    rc = 0 \<and> out' = out @ bytes pos n m \<or> rc = - 1 \<and> (\<exists>k < n. out' = out @ bytes pos k m)"
proof (induction ws arbitrary: pos n out)
  case Nil
  then show ?case by (auto simp: send_loop.simps [of pos] split: if_splits)
next
  case (Cons w ws)
  consider "n = 0" | "0 < n" "pos + n \<le> PP_MAX_MESSAGE_LEN"
    using Cons.prems by (auto simp: send_loop.simps [of pos] split: if_splits)
  then show ?case
  proof cases
    case 1
    with Cons.prems show ?thesis by (simp add: send_loop_simps)
  next
    case 2
    show ?thesis
    proof (cases w)
      case (WriteFail e)
      with 2 Cons show ?thesis
        by (auto simp del: limit_defs simp: send_loop_simps split: if_splits
            intro: exI [of _ 0])
    next
      case (Accept k)
      let ?i = "min k n"
      have "send_loop (pos + ?i) (int (n - ?i)) m ws (out @ bytes pos ?i m) = Inr (rc, ws', out')"
        using Cons.prems 2 Accept by (simp add: send_loop_simps)
      from Cons.IH [OF this] consider
          "rc = 0" "out' = out @ bytes pos (?i + (n - ?i)) m"
        | k' where "rc = - 1" "k' < n - ?i" "out' = out @ bytes pos (?i + k') m"
        unfolding bytes_add by (metis append.assoc)
      then show ?thesis
      proof cases
        case 1
        then show ?thesis by simp
      next
        case (2 k')
        then show ?thesis by (intro disjI2) (auto intro!: exI [of _ "?i + k'"])
      qed
    qed
  qed
qed

fun room :: "write_event list \<Rightarrow> nat" where
  "room [] = 0"
| "room (Accept k # ws) = k + room ws"
| "room (WriteFail e # ws) = (if e = EINTR then room ws else 0)"

lemma send_loop_room:
  "n \<le> room ws \<Longrightarrow> pos + n \<le> PP_MAX_MESSAGE_LEN \<Longrightarrow>
    \<exists>ws'. send_loop pos (int n) m ws out = Inr (0, ws', out @ bytes pos n m)"
proof (induction ws arbitrary: pos n out)
  case Nil
  then show ?case by (simp add: send_loop_simps)
next
  case (Cons w ws)
  show ?case
  proof (cases "n = 0")
    case True
    then show ?thesis by (simp add: send_loop_simps)
  next
    case False
    show ?thesis
    proof (cases w)
      case (WriteFail e)
      with Cons False show ?thesis
        by (simp add: send_loop_simps split: if_splits)
    next
      case (Accept k)
      let ?i = "min k n"
      have "n - ?i \<le> room ws" "pos + ?i + (n - ?i) \<le> PP_MAX_MESSAGE_LEN"
        using Cons.prems Accept by auto
      then obtain ws' where "send_loop (pos + ?i) (int (n - ?i)) m ws (out @ bytes pos ?i m) =
          Inr (0, ws', (out @ bytes pos ?i m) @ bytes (pos + ?i) (n - ?i) m)"
        using Cons.IH by blast
      with Accept False Cons.prems show ?thesis
        by (auto simp: send_loop_simps simp flip: bytes_add)
    qed
  qed
qed

lemma sint_msg_len:
  assumes "unat (msg_len m) \<le> PP_MAX_MESSAGE_LEN"
  shows "sint (msg_len m) = int (unat (msg_len m))"
proof -
  have "uint (msg_len m) = int (unat (msg_len m))"
    by (rule of_nat_unat [symmetric])
  then show ?thesis
    using assms by (simp only: sint_uint) (rule signed_take_bit_int_eq_self; simp)
qed

lemma send_message_result:
  assumes "send_message m ws out = Inr (rc, ws', out')" "unat (msg_len m) \<le> PP_MAX_MESSAGE_LEN"
  shows "rc = 0 \<and> out' = out @ frame m \<or>
    rc = - 1 \<and> (\<exists>k < unat (msg_len m). out' = out @ take k (frame m))"
proof -
  have t: "take k (bytes 0 n m) = bytes 0 k m" if "k \<le> n" for k n
    using that bytes_add [of 0 k "n - k" m] by simp
  from assms send_loop_result [of 0 "unat (msg_len m)" m ws out rc ws' out'] show ?thesis
    by (auto simp: send_message_def sint_msg_len frame_def t)
qed

lemma send_message_room:
  "unat (msg_len m) \<le> room ws \<Longrightarrow> unat (msg_len m) \<le> PP_MAX_MESSAGE_LEN \<Longrightarrow>
    \<exists>ws'. send_message m ws out = Inr (0, ws', out @ frame m)"
  using send_loop_room [of "unat (msg_len m)" ws 0 m out]
  by (simp add: send_message_def sint_msg_len frame_def)

end
