(* ===== verification/Channels.thy ===== *)
theory Channels
  imports Transport
begin

text \<open>
  The streams of a process and the operation tables over them: the world \<open>net\<close> of sockets,
  TLS streams and heap cells, \<open>pp_recv\<close> and \<open>pp_send\<close> of \<open>network.c\<close>, the null encryption of
  \<open>nullenc.c\<close>, the receive and send operations of \<open>openssl.c\<close> and \<open>tls.c\<close>, and the choice of
  a table by \<open>pp_tlsopts_init_any\<close> and \<open>pp_netopts_init\<close>.

  The locale \<open>message_channel\<close> is the contract of a pair of receive and send operations:
  what the client and the server rely on.  Each pair of the code interprets it.
\<close>

section \<open>The world of a process\<close>

record channel =
  rx :: "read_event list"
  wx :: "write_event list"
  sent :: "u8 list"

datatype stream = Sock int | Tls nat

text \<open>
  \<open>heap\<close> holds the allocated context and session structures; of their fields the \<open>socket\<close> is
  kept (the handles of the TLS libraries are the library's own state).  \<open>heap_left\<close> is the
  number of allocations \<open>malloc\<close> will still satisfy.
\<close>

record net =
  chan :: "stream \<Rightarrow> channel"
  heap :: "nat \<Rightarrow> int option"
  heap_next :: nat
  heap_left :: nat

type_synonym ptr = "nat option"

definition malloc :: "net \<Rightarrow> ptr \<times> net" where
  "malloc w =
     (if heap_left w = 0 then (None, w)
      else (Some (heap_next w),
        w\<lparr>heap := (heap w)(heap_next w := Some 0), heap_next := Suc (heap_next w),
          heap_left := heap_left w - 1\<rparr>))"

text \<open>\<open>malloc\<close> followed by \<open>memset\<close> of the new object, and the store of its \<open>socket\<close>.\<close>

definition new_object :: "int \<Rightarrow> net \<Rightarrow> (nat \<times> net) outcome" where
  "new_object sock w =
     (case malloc w of
        (None, _) \<Rightarrow> Inl NullPointer
      | (Some p, w') \<Rightarrow> Inr (p, w'\<lparr>heap := (heap w')(p := Some sock)\<rparr>))"

definition free_object :: "ptr \<Rightarrow> net \<Rightarrow> net outcome" where
  "free_object q w =
     (case q of
        None \<Rightarrow> Inr w
      | Some p \<Rightarrow>
          if heap w p = None then Inl OutOfBounds else Inr (w\<lparr>heap := (heap w)(p := None)\<rparr>))"

definition deref :: "ptr \<Rightarrow> net \<Rightarrow> int outcome" where
  "deref q w =
     (case q of
        None \<Rightarrow> Inl NullPointer
      | Some p \<Rightarrow> (case heap w p of None \<Rightarrow> Inl OutOfBounds | Some s \<Rightarrow> Inr s))"

section \<open>One stream of the world\<close>

definition recv_on :: "stream \<Rightarrow> buffer \<Rightarrow> net \<Rightarrow> (int \<times> buffer \<times> net) outcome" where
  "recv_on st msg w =
     bindo (recv_message msg (rx (chan w st)))
       (\<lambda>((rc, msg'), es). Inr (rc, msg', w\<lparr>chan := (chan w)(st := (chan w st)\<lparr>rx := es\<rparr>)\<rparr>))"

definition send_on :: "stream \<Rightarrow> buffer \<Rightarrow> net \<Rightarrow> (int \<times> net) outcome" where
  "send_on st msg w =
     bindo (send_message msg (wx (chan w st)) (sent (chan w st)))
       (\<lambda>(rc, ws, out). Inr (rc, w\<lparr>chan := (chan w)(st := (chan w st)\<lparr>wx := ws, sent := out\<rparr>)\<rparr>))"

text \<open>\<open>network.c\<close>: \<open>read\<close> and \<open>send\<close> on the socket.\<close>

definition pp_recv :: "int \<Rightarrow> buffer \<Rightarrow> net \<Rightarrow> (int \<times> buffer \<times> net) outcome" where
  "pp_recv sk msg w = recv_on (Sock sk) msg w"

definition pp_send :: "int \<Rightarrow> buffer \<Rightarrow> net \<Rightarrow> (int \<times> net) outcome" where
  "pp_send sk msg w = send_on (Sock sk) msg w"

text \<open>\<open>nullenc.c\<close>: \<open>recv\<close> and \<open>send\<close> on the socket of the session.\<close>

definition nullenc_tls_recv :: "ptr \<Rightarrow> buffer \<Rightarrow> net \<Rightarrow> (int \<times> buffer \<times> net) outcome" where
  "nullenc_tls_recv session msg w = bindo (deref session w) (\<lambda>sk. recv_on (Sock sk) msg w)"

definition nullenc_tls_send :: "ptr \<Rightarrow> buffer \<Rightarrow> net \<Rightarrow> (int \<times> net) outcome" where
  "nullenc_tls_send session msg w = bindo (deref session w) (\<lambda>sk. send_on (Sock sk) msg w)"

definition nullenc_tls_get_socket :: "ptr \<Rightarrow> net \<Rightarrow> int outcome" where
  "nullenc_tls_get_socket session w = deref session w"

text \<open>\<open>openssl.c\<close>: \<open>SSL_read\<close> and \<open>SSL_write\<close> on the TLS stream of the session.\<close>

definition ossl_tls_recv :: "ptr \<Rightarrow> buffer \<Rightarrow> net \<Rightarrow> (int \<times> buffer \<times> net) outcome" where
  "ossl_tls_recv session msg w =
     bindo (deref session w) (\<lambda>_. recv_on (Tls (the session)) msg w)"

definition ossl_tls_send :: "ptr \<Rightarrow> buffer \<Rightarrow> net \<Rightarrow> (int \<times> net) outcome" where
  "ossl_tls_send session msg w =
     bindo (deref session w) (\<lambda>_. send_on (Tls (the session)) msg w)"

definition ossl_tls_get_socket :: "ptr \<Rightarrow> net \<Rightarrow> int outcome" where
  "ossl_tls_get_socket session w = deref session w"

text \<open>\<open>tls.c\<close>: \<open>gnutls_record_recv\<close> and \<open>gnutls_record_send\<close> on the stream of the session.\<close>

definition pp_tls_recv :: "ptr \<Rightarrow> buffer \<Rightarrow> net \<Rightarrow> (int \<times> buffer \<times> net) outcome" where
  "pp_tls_recv session msg w =
     bindo (deref session w) (\<lambda>_. recv_on (Tls (the session)) msg w)"

definition pp_tls_send :: "ptr \<Rightarrow> buffer \<Rightarrow> net \<Rightarrow> (int \<times> net) outcome" where
  "pp_tls_send session msg w =
     bindo (deref session w) (\<lambda>_. send_on (Tls (the session)) msg w)"

definition pp_tls_get_socket :: "ptr \<Rightarrow> net \<Rightarrow> int outcome" where
  "pp_tls_get_socket session w = deref session w"

section \<open>The contract of a message channel\<close>

text \<open>
  \<open>incoming\<close> is what the peer's bytes are before anything goes wrong, \<open>outgoing\<close> what has
  been handed to the network, \<open>capacity\<close> how much it will still take.
\<close>

locale message_channel =
  fixes recv :: "buffer \<Rightarrow> 'c \<Rightarrow> (int \<times> buffer \<times> 'c) outcome"
    and send :: "buffer \<Rightarrow> 'c \<Rightarrow> (int \<times> 'c) outcome"
    and usable :: "'c \<Rightarrow> bool"
    and incoming :: "'c \<Rightarrow> u8 list"
    and outgoing :: "'c \<Rightarrow> u8 list"
    and capacity :: "'c \<Rightarrow> nat"
  assumes recv_frame:
    "usable c \<Longrightarrow> incoming c = frame q @ rest \<Longrightarrow> 5 \<le> unat (msg_len q) \<Longrightarrow>
      unat (msg_len q) < PP_MAX_MESSAGE_LEN \<Longrightarrow>
      \<exists>c'. recv m c = Inr (int (unat (msg_len q)), blit 0 (frame q) m, c') \<and> usable c' \<and>
        incoming c' = rest \<and> outgoing c' = outgoing c \<and> capacity c' = capacity c"
  and recv_safe:
    "usable c \<Longrightarrow> recv m c = Inr (rc, m', c') \<Longrightarrow>
      (\<forall>i \<ge> PP_MAX_MESSAGE_LEN. m' i = m i) \<and>
      (rc \<le> 0 \<or> 5 \<le> rc \<and> rc < int PP_MAX_MESSAGE_LEN) \<and>
      outgoing c' = outgoing c \<and> usable c'"
  and send_frame:
    "usable c \<Longrightarrow> unat (msg_len m) \<le> capacity c \<Longrightarrow> unat (msg_len m) \<le> PP_MAX_MESSAGE_LEN \<Longrightarrow>
      \<exists>c'. send m c = Inr (0, c') \<and> usable c' \<and> outgoing c' = outgoing c @ frame m \<and>
        incoming c' = incoming c"
  and send_result:
    "usable c \<Longrightarrow> send m c = Inr (rc, c') \<Longrightarrow> unat (msg_len m) \<le> PP_MAX_MESSAGE_LEN \<Longrightarrow>
      usable c' \<and> incoming c' = incoming c \<and>
      (rc = 0 \<and> outgoing c' = outgoing c @ frame m \<or>
       rc = - 1 \<and> (\<exists>k < unat (msg_len m). outgoing c' = outgoing c @ take k (frame m)))"
begin

text \<open>A request sent and its answer received, and a request received and its answer sent.\<close>

lemma ask_answer:
  assumes "usable c" "unat (msg_len q) \<le> capacity c" "unat (msg_len q) \<le> PP_MAX_MESSAGE_LEN"
    and "incoming c = frame a @ rest" "5 \<le> unat (msg_len a)" "unat (msg_len a) < PP_MAX_MESSAGE_LEN"
  shows "\<exists>c1 c2. send q c = Inr (0, c1) \<and> outgoing c1 = outgoing c @ frame q \<and>
    recv m c1 = Inr (int (unat (msg_len a)), blit 0 (frame a) m, c2) \<and> usable c2 \<and>
    incoming c2 = rest \<and> outgoing c2 = outgoing c @ frame q"
  using send_frame [OF assms(1-3)] recv_frame assms(4-6) by (metis (no_types, lifting))

end

section \<open>Every pair of operations keeps the contract\<close>

abbreviation stream_in :: "stream \<Rightarrow> net \<Rightarrow> u8 list" where
  "stream_in st w \<equiv> pending_of (rx (chan w st))"

abbreviation stream_out :: "stream \<Rightarrow> net \<Rightarrow> u8 list" where
  "stream_out st w \<equiv> sent (chan w st)"

abbreviation stream_room :: "stream \<Rightarrow> net \<Rightarrow> nat" where
  "stream_room st w \<equiv> room (wx (chan w st))"

lemma recv_on_frame:
  assumes "stream_in st w = frame q @ rest" "5 \<le> unat (msg_len q)"
    "unat (msg_len q) < PP_MAX_MESSAGE_LEN"
  shows "\<exists>w'. recv_on st m w = Inr (int (unat (msg_len q)), blit 0 (frame q) m, w') \<and>
    heap w' = heap w \<and> stream_in st w' = rest \<and> stream_out st w' = stream_out st w \<and>
    stream_room st w' = stream_room st w"
  using recv_message_frame [OF assms, of m] by (auto simp: recv_on_def)

lemma recv_on_Inr:
  "recv_on st m w = Inr (rc, m', w') \<longleftrightarrow>
    (\<exists>es. recv_message m (rx (chan w st)) = Inr ((rc, m'), es) \<and>
      w' = w\<lparr>chan := (chan w)(st := (chan w st)\<lparr>rx := es\<rparr>)\<rparr>)"
  by (auto simp: recv_on_def outcome_simps)

lemma send_on_Inr:
  "send_on st m w = Inr (rc, w') \<longleftrightarrow>
    (\<exists>ws out. send_message m (wx (chan w st)) (sent (chan w st)) = Inr (rc, ws, out) \<and>
      w' = w\<lparr>chan := (chan w)(st := (chan w st)\<lparr>wx := ws, sent := out\<rparr>)\<rparr>)"
  by (auto simp: send_on_def outcome_simps)

lemma recv_on_safe:
  assumes "recv_on st m w = Inr (rc, m', w')"
  shows "(\<forall>i \<ge> PP_MAX_MESSAGE_LEN. m' i = m i) \<and>
    (rc \<le> 0 \<or> 5 \<le> rc \<and> rc < int PP_MAX_MESSAGE_LEN) \<and>
    stream_out st w' = stream_out st w \<and> heap w' = heap w"
proof -
  from assms obtain es where r: "recv_message m (rx (chan w st)) = Inr ((rc, m'), es)"
    and w': "w' = w\<lparr>chan := (chan w)(st := (chan w st)\<lparr>rx := es\<rparr>)\<rparr>"
    unfolding recv_on_Inr by blast
  from recv_message_safe [OF r] w' show ?thesis by simp
qed

lemma send_on_frame:
  "unat (msg_len m) \<le> stream_room st w \<Longrightarrow> unat (msg_len m) \<le> PP_MAX_MESSAGE_LEN \<Longrightarrow>
    \<exists>w'. send_on st m w = Inr (0, w') \<and> heap w' = heap w \<and>
      stream_out st w' = stream_out st w @ frame m \<and> stream_in st w' = stream_in st w"
  using send_message_room [of m "wx (chan w st)" "sent (chan w st)"] by (auto simp: send_on_def)

lemma send_on_result:
  assumes "send_on st m w = Inr (rc, w')" "unat (msg_len m) \<le> PP_MAX_MESSAGE_LEN"
  shows "stream_in st w' = stream_in st w \<and> heap w' = heap w \<and>
    (rc = 0 \<and> stream_out st w' = stream_out st w @ frame m \<or>
     rc = - 1 \<and> (\<exists>k < unat (msg_len m). stream_out st w' = stream_out st w @ take k (frame m)))"
proof -
  from assms(1) obtain ws out where
    r: "send_message m (wx (chan w st)) (sent (chan w st)) = Inr (rc, ws, out)"
    and w': "w' = w\<lparr>chan := (chan w)(st := (chan w st)\<lparr>wx := ws, sent := out\<rparr>)\<rparr>"
    unfolding send_on_Inr by blast
  from send_message_result [OF r assms(2)] w' show ?thesis by simp
qed

lemma deref_Inr: "deref q w = Inr s \<longleftrightarrow> (\<exists>p. q = Some p \<and> heap w p = Some s)"
  by (auto simp: deref_def split: option.splits)

lemma stream_channel:
  assumes "\<And>m w. ok w \<Longrightarrow> recv m w = recv_on st m w" "\<And>m w. ok w \<Longrightarrow> send m w = send_on st m w"
    and "\<And>w w'. ok w \<Longrightarrow> heap w' = heap w \<Longrightarrow> ok w'"
  shows "message_channel recv send ok (stream_in st) (stream_out st) (stream_room st)"
proof (unfold_locales, goal_cases)
  case (1 w q rest m)
  then show ?case using recv_on_frame [of w st q rest m] assms(1,3) by fastforce
next
  case (2 w m rc m' w')
  then show ?case using recv_on_safe [of st m w rc m' w'] assms(1,3) by auto
next
  case (3 w m)
  then show ?case using send_on_frame [of m w st] assms(2,3) by fastforce
next
  case (4 w m rc w')
  then show ?case using send_on_result [of st m w rc w'] assms(2,3) by auto
qed

text \<open>
  The four pairs: the sockets of \<open>network.c\<close>, and the sessions of \<open>nullenc.c\<close>, \<open>openssl.c\<close>
  and \<open>tls.c\<close>, which work as long as the session structure is allocated.
\<close>

interpretation net: message_channel "pp_recv sk" "pp_send sk" "\<lambda>_. True"
    "stream_in (Sock sk)" "stream_out (Sock sk)" "stream_room (Sock sk)" for sk
  by (rule stream_channel) (simp_all add: pp_recv_def pp_send_def)

interpretation nullenc: message_channel "nullenc_tls_recv (Some p)" "nullenc_tls_send (Some p)"
    "\<lambda>w. heap w p = Some sk"
    "stream_in (Sock sk)" "stream_out (Sock sk)" "stream_room (Sock sk)" for p sk
  by (rule stream_channel) (simp_all add: nullenc_tls_recv_def nullenc_tls_send_def deref_def)

interpretation ossl: message_channel "ossl_tls_recv (Some p)" "ossl_tls_send (Some p)"
    "\<lambda>w. heap w p = Some sk"
    "stream_in (Tls p)" "stream_out (Tls p)" "stream_room (Tls p)" for p sk
  by (rule stream_channel) (simp_all add: ossl_tls_recv_def ossl_tls_send_def deref_def)

interpretation gnutls: message_channel "pp_tls_recv (Some p)" "pp_tls_send (Some p)"
    "\<lambda>w. heap w p = Some sk"
    "stream_in (Tls p)" "stream_out (Tls p)" "stream_room (Tls p)" for p sk
  by (rule stream_channel) (simp_all add: pp_tls_recv_def pp_tls_send_def deref_def)

text \<open>Sending leaves the input of the session alone.\<close>

lemma nullenc_send_rx:
  assumes "heap w p = Some sk" "nullenc_tls_send (Some p) m w = Inr (rc, w')"
  shows "rx (chan w' (Sock sk)) = rx (chan w (Sock sk))" "heap w' = heap w"
  using assms by (auto simp: nullenc_tls_send_def deref_def send_on_Inr)

end
