(* ===== verification/Wire.thy ===== *)
theory Wire
  imports Channels
begin

text \<open>
  Properties of the wire: the layout of the messages and the four pairs of receive and send
  operations, stated over the interpretations of \<open>message_channel\<close>.
\<close>

section \<open>Layout\<close>

text \<open>In every structure a message can carry, two different fields lie side by side: a store to
  one leaves the other alone, and each lies inside the structure.\<close>

theorem payload_layout:
  assumes "st \<in> set payload_structs" "(f, k) \<in> set st" "(g, l) \<in> set st" "f \<noteq> g"
  shows "field_off f st + k \<le> sizeof st \<and>
    (field_off f st + k \<le> field_off g st \<or> field_off g st + l \<le> field_off f st)"
  using field_off_bound field_off_disjoint payload_structs_distinct assms by metis

lemma payload_layout_witness:
  "field_off F_rv s_status + 4 \<le> sizeof s_status \<and>
    (field_off F_rv s_status + 4 \<le> field_off F_pbAtr s_status \<or>
     field_off F_pbAtr s_status + 33 \<le> field_off F_rv s_status)"
  using payload_layout [of s_status F_rv 4 F_pbAtr 33]
  by (simp add: payload_structs_def s_status_def)

text \<open>The command numbers: each command has a number of its own in one byte, which the switch of
  the server leads back to it, and every other number is unknown; the numbers grow in the order
  of the declaration.\<close>

theorem command_numbers:
  "command_of (unat (command_code c)) = Some c \<and>
    (command_of n = Some c \<longleftrightarrow> n = unat (command_code c)) \<and>
    (command_of n = None \<longleftrightarrow> 19 \<le> n) \<and>
    (command_code c < command_code d \<longleftrightarrow> c < d) \<and> sorted_wrt (<) all_commands"
proof -
  have "unat (command_code c) = command_index c"
    by (cases c) (simp_all add: command_code_def)
  moreover have "command_of n = None \<longleftrightarrow> 19 \<le> n"
    by (simp add: command_of_def all_commands_def)
  moreover have "command_of n = Some c \<Longrightarrow> n = command_index c" by (rule command_of_Some)
  ultimately show ?thesis by (metis command_of_code command_code_less sorted_all_commands)
qed

section \<open>Messages on a stream\<close>

text \<open>A message of exactly the size of the buffer is refused after its header.\<close>

lemma recv_refuses_largest:
  assumes "stream_in (Sock b) v = frame m @ rest" "unat (msg_len m) = PP_MAX_MESSAGE_LEN"
  shows "\<exists>buf' v'. pp_recv b buf v = Inr (- 1, buf', v')"
proof -
  have split: "frame m = bytes 0 5 m @ bytes 5 (unat (msg_len m) - 5) m"
    using bytes_add [of 0 5 "unat (msg_len m) - 5" m] assms(2) by (simp add: frame_def)
  from assms(1) have "pending_of (rx (chan v (Sock b))) = bytes 0 5 m @ bytes 5 (unat (msg_len m) - 5) m @ rest"
    by (simp add: split)
  from recv_header_pending [OF this, of 0 buf] obtain es where
    h: "recv_header 0 buf (rx (chan v (Sock b))) = Inr ((None, 5, blit 0 (bytes 0 5 m) buf), es)" by auto
  have "msg_len (blit 0 (bytes 0 5 m) buf) = msg_len m"
    unfolding msg_len_def by (rule get32_cong) (simp add: blit_def nth_bytes)
  with h assms(2) show ?thesis by (simp add: pp_recv_def recv_on_def recv_message_def)
qed

text \<open>C10 What \<open>pp_send\<close> puts on a socket, however the bytes are cut on their way: a message that is
  shorter than \<open>PP_MAX_MESSAGE_LEN\<close> is read back by \<open>pp_recv\<close>, the whole message and not a byte more;
  one of exactly that length is sent too, and refused by \<open>pp_recv\<close>.\<close>

theorem pp_send_recv_roundtrip:
  assumes "pp_send a m w = Inr (0, w')" "stream_out (Sock a) w = []"
    and "5 \<le> unat (msg_len m)" "unat (msg_len m) \<le> PP_MAX_MESSAGE_LEN"
    and "stream_in (Sock b) v = stream_out (Sock a) w' @ rest"
  shows "if unat (msg_len m) < PP_MAX_MESSAGE_LEN
    then \<exists>v'. pp_recv b buf v = Inr (int (unat (msg_len m)), blit 0 (frame m) buf, v') \<and>
      stream_in (Sock b) v' = rest
    else \<exists>buf' v'. pp_recv b buf v = Inr (- 1, buf', v')"
proof -
  from net.send_result [OF _ assms(1)] assms(2,4) have "stream_out (Sock a) w' = frame m" by auto
  with assms(5) have v: "stream_in (Sock b) v = frame m @ rest" by simp
  show ?thesis
  proof (cases "unat (msg_len m) < PP_MAX_MESSAGE_LEN")
    case True
    with net.recv_frame [OF _ v assms(3)] show ?thesis by auto
  next
    case False
    with recv_refuses_largest [OF v] assms(4) show ?thesis by auto
  qed
qed

text \<open>A world with one script on every stream.\<close>

definition plain_net :: "read_event list \<Rightarrow> write_event list \<Rightarrow> net" where
  "plain_net es ws = \<lparr>chan = (\<lambda>_. \<lparr>rx = es, wx = ws, sent = []\<rparr>),
     heap = (\<lambda>p. if p = 0 then Some 3 else None), heap_next = 1, heap_left = 0\<rparr>"

definition sample_msg :: buffer where
  "sample_msg = set_msg_len 6 (set_msg_type 2 (zeros(5 := 0xAB)))"

lemma sample_msg_len: "msg_len sample_msg = 6"
  by (simp add: sample_msg_def msg_simps)

lemma sample_sent:
  "\<exists>w'. pp_send 1 sample_msg (plain_net [] [Accept 2, WriteFail EINTR, Accept 9]) = Inr (0, w') \<and>
    stream_out (Sock 1) w' = frame sample_msg"
  using net.send_frame [where c = "plain_net [] [Accept 2, WriteFail EINTR, Accept 9]" and m = sample_msg
    and sk = 1]
  by (auto simp: plain_net_def sample_msg_len)

lemma pp_send_recv_roundtrip_witness:
  "\<exists>v'. pp_recv 2 zeros (plain_net [Arrive (take 3 (frame sample_msg)), Arrive (drop 3 (frame sample_msg) @ [1])]
      []) = Inr (6, blit 0 (frame sample_msg) zeros, v') \<and> stream_in (Sock 2) v' = [1]"
proof -
  obtain w' where w': "pp_send 1 sample_msg (plain_net [] [Accept 2, WriteFail EINTR, Accept 9]) = Inr (0, w')"
    "stream_out (Sock 1) w' = frame sample_msg" using sample_sent by blast
  from pp_send_recv_roundtrip [OF w'(1), where b = 2 and rest = "[1]" and buf = zeros
      and v = "plain_net [Arrive (take 3 (frame sample_msg)), Arrive (drop 3 (frame sample_msg) @ [1])] []"] w'(2)
  show ?thesis by (simp add: plain_net_def sample_msg_len)
qed

text \<open>C13 No receive operation, over any stream and whatever the peer does, stores outside the message
  buffer; the code it returns is negative, for an error (-1, or after an interrupted read a count
  with the library's error code in it), 0 at the end of the stream, or the length of a message
  shorter than the buffer.\<close>

theorem receive_in_bounds:
  assumes "pp_recv sk m w = Inr (rc, m', w') \<or> nullenc_tls_recv (Some p) m w = Inr (rc, m', w') \<or>
    ossl_tls_recv (Some p) m w = Inr (rc, m', w') \<or> pp_tls_recv (Some p) m w = Inr (rc, m', w')"
  shows "(\<forall>i \<ge> PP_MAX_MESSAGE_LEN. m' i = m i) \<and> (rc \<le> 0 \<or> 5 \<le> rc \<and> rc < int PP_MAX_MESSAGE_LEN)"
proof -
  have "\<exists>st. recv_on st m w = Inr (rc, m', w')"
    using assms
    by (auto simp: pp_recv_def nullenc_tls_recv_def ossl_tls_recv_def pp_tls_recv_def bindo_Inr_iff)
  then show ?thesis using recv_on_safe by blast
qed

lemma receive_in_bounds_witness:
  "\<exists>rc m' w'. pp_recv 1 zeros (plain_net [Closed] []) = Inr (rc, m', w') \<and>
    m' PP_MAX_MESSAGE_LEN = zeros PP_MAX_MESSAGE_LEN"
proof -
  have "pp_recv 1 zeros (plain_net [Closed] []) = Inr (0, zeros, plain_net [Closed] [])"
    by (simp add: pp_recv_def recv_on_def plain_net_def recv_message_def recv_header.simps [of 0] fun_eq_iff)
  from receive_in_bounds [of 1 zeros _ 0 zeros, OF disjI1, OF this] this show ?thesis by blast
qed

text \<open>C27 A send of a message whose length fits the buffer, whatever pieces the socket takes and whatever
  calls fail: one that reports success has written the message exactly; one that reports a failure,
  always with -1, has written a proper prefix of it.\<close>

theorem pp_send_exact:
  assumes "pp_send sk m w = Inr (rc, w')" "unat (msg_len m) \<le> PP_MAX_MESSAGE_LEN"
  shows "rc = 0 \<and> stream_out (Sock sk) w' = stream_out (Sock sk) w @ frame m \<or>
    rc = - 1 \<and> (\<exists>k < unat (msg_len m). stream_out (Sock sk) w' = stream_out (Sock sk) w @ take k (frame m))"
  using net.send_result [OF TrueI assms] by blast

lemma pp_send_exact_witness:
  "\<exists>rc w'. pp_send 1 sample_msg (plain_net [] [Accept 2, WriteFail EINTR, Accept 9]) = Inr (rc, w') \<and>
    (rc = 0 \<and> stream_out (Sock 1) w' = frame sample_msg \<or> rc = - 1)"
proof -
  obtain w' where w': "pp_send 1 sample_msg (plain_net [] [Accept 2, WriteFail EINTR, Accept 9]) = Inr (0, w')"
    using sample_sent by blast
  from pp_send_exact [OF this] w' show ?thesis by (auto simp: sample_msg_len plain_net_def)
qed

text \<open>C34 A first read that fails with \<open>EINTR\<close> makes the receive fail, on each of the streams: the code
  means to try again, but adds the negative value of the failed call to the count of bytes, leaves its
  loops and returns that count (-1 on a socket, the error code of the library under TLS), unless the
  old contents of the buffer make it return -1; the message is left as it was and no byte is read.\<close>

theorem interrupted_receive_fails:
  assumes "rx (chan w st) = ReadFail EINTR i # es" "i < 0" "heap w p = Some sk"
    and "rc = (if PP_MAX_MESSAGE_LEN \<le> unat (msg_len m) then -1 else i)"
  defines "w' \<equiv> w\<lparr>chan := (chan w)(st := (chan w st)\<lparr>rx := es\<rparr>)\<rparr>"
  shows "(st = Sock fd \<longrightarrow> pp_recv fd m w = Inr (rc, m, w')) \<and>
    (st = Sock sk \<longrightarrow> nullenc_tls_recv (Some p) m w = Inr (rc, m, w')) \<and>
    (st = Tls p \<longrightarrow> ossl_tls_recv (Some p) m w = Inr (rc, m, w') \<and> pp_tls_recv (Some p) m w = Inr (rc, m, w'))"
proof -
  have "recv_on st m w = Inr (rc, m, w')"
    using recv_message_interrupted [OF assms(2), of m es] assms(1,4) by (simp add: recv_on_def w'_def)
  with assms(3) show ?thesis
    by (auto simp: pp_recv_def nullenc_tls_recv_def ossl_tls_recv_def pp_tls_recv_def deref_def)
qed

lemma interrupted_receive_fails_witness:
  "(\<exists>w'. pp_recv 3 sample_msg (plain_net [ReadFail EINTR (-1), Arrive [2, 5, 0, 0, 0]] []) = Inr (- 1, sample_msg, w')) \<and>
   (\<exists>w'. pp_tls_recv (Some 0) sample_msg (plain_net [ReadFail EINTR (-52), Arrive [2, 5, 0, 0, 0]] []) =
      Inr (- 52, sample_msg, w'))"
  using interrupted_receive_fails [where w = "plain_net [ReadFail EINTR (-1), Arrive [2, 5, 0, 0, 0]] []"
      and st = "Sock 3" and es = "[Arrive [2, 5, 0, 0, 0]]" and p = 0 and sk = 3 and fd = 3 and i = "-1" and m = sample_msg]
    interrupted_receive_fails [where w = "plain_net [ReadFail EINTR (-52), Arrive [2, 5, 0, 0, 0]] []"
      and st = "Tls 0" and es = "[Arrive [2, 5, 0, 0, 0]]" and p = 0 and sk = 3 and i = "-52" and m = sample_msg]
  by (simp add: plain_net_def sample_msg_len)

text \<open>A message of exactly the size of the buffer can be sent, and is refused by the receiver after
  its header.\<close>

theorem largest_message_refused:
  assumes "unat (msg_len m) = PP_MAX_MESSAGE_LEN" "PP_MAX_MESSAGE_LEN \<le> stream_room (Sock a) w"
    "stream_out (Sock a) w = []"
  shows "\<exists>w'. pp_send a m w = Inr (0, w') \<and> stream_out (Sock a) w' = frame m \<and>
    (\<forall>b buf v rest. stream_in (Sock b) v = frame m @ rest \<longrightarrow>
       (\<exists>buf' v'. pp_recv b buf v = Inr (- 1, buf', v')))"
proof -
  have "\<exists>w'. pp_send a m w = Inr (0, w') \<and> stream_out (Sock a) w' = frame m"
    using net.send_frame [where c = w and m = m and sk = a] assms by auto
  with recv_refuses_largest [OF _ assms(1)] show ?thesis by blast
qed

lemma largest_message_refused_witness:
  "\<exists>w'. pp_send 1 (set_msg_len 66560 zeros) (plain_net [] [Accept 70000]) = Inr (0, w')"
  using largest_message_refused [where m = "set_msg_len 66560 zeros" and a = 1
    and w = "plain_net [] [Accept 70000]"]
  by (simp add: plain_net_def msg_simps) blast

end
