(* ===== verification/Opts.thy ===== *)
theory Opts
  imports Channels
begin

text \<open>
  The operation tables: \<open>struct tlsopts\<close> of \<open>tlsopts.h\<close>, its null-encryption instance
  \<open>pp_nullenc_opts\<close> of \<open>nullenc.c\<close>, and the selection of a table by build options
  (\<open>tlsopts.c\<close>, \<open>netopts.c\<close>).
\<close>

section \<open>The table of TLS operations\<close>

text \<open>
  An \<open>init\<close> operation stores through its \<open>_p\<close> argument on success only; the second component
  of its result is the pointer it stores, \<open>None\<close> when it stores nothing.
\<close>

record 'w tlsopts =
  init_server :: "'w \<Rightarrow> (int \<times> ptr \<times> 'w) outcome"
  fini_server :: "ptr \<Rightarrow> 'w \<Rightarrow> (int \<times> 'w) outcome"
  init_server_session :: "ptr \<Rightarrow> int \<Rightarrow> 'w \<Rightarrow> (int \<times> ptr \<times> 'w) outcome"
  fini_server_session :: "ptr \<Rightarrow> ptr \<Rightarrow> 'w \<Rightarrow> (int \<times> 'w) outcome"
  init_client :: "'w \<Rightarrow> (int \<times> ptr \<times> 'w) outcome"
  fini_client :: "ptr \<Rightarrow> 'w \<Rightarrow> (int \<times> 'w) outcome"
  client_set_srp_auth :: "ptr \<Rightarrow> string \<Rightarrow> string \<Rightarrow> 'w \<Rightarrow> (int \<times> 'w) outcome"
  init_client_session :: "ptr \<Rightarrow> int \<Rightarrow> 'w \<Rightarrow> (int \<times> ptr \<times> 'w) outcome"
  fini_client_session :: "ptr \<Rightarrow> ptr \<Rightarrow> 'w \<Rightarrow> (int \<times> 'w) outcome"
  tls_recv :: "ptr \<Rightarrow> buffer \<Rightarrow> 'w \<Rightarrow> (int \<times> buffer \<times> 'w) outcome"
  tls_send :: "ptr \<Rightarrow> buffer \<Rightarrow> 'w \<Rightarrow> (int \<times> 'w) outcome"
  get_socket :: "ptr \<Rightarrow> 'w \<Rightarrow> int outcome"

section \<open>Null encryption\<close>

definition nullenc_init_server :: "net \<Rightarrow> (int \<times> ptr \<times> net) outcome" where
  "nullenc_init_server w = bindo (new_object 0 w) (\<lambda>(ctx, w'). Inr (0, Some ctx, w'))"

definition nullenc_fini_server :: "ptr \<Rightarrow> net \<Rightarrow> (int \<times> net) outcome" where
  "nullenc_fini_server ctx w = bindo (free_object ctx w) (\<lambda>w'. Inr (0, w'))"

definition nullenc_init_server_session :: "ptr \<Rightarrow> int \<Rightarrow> net \<Rightarrow> (int \<times> ptr \<times> net) outcome" where
  "nullenc_init_server_session ctx sock w =
     bindo (new_object sock w) (\<lambda>(session, w'). Inr (0, Some session, w'))"

definition nullenc_fini_server_session :: "ptr \<Rightarrow> ptr \<Rightarrow> net \<Rightarrow> (int \<times> net) outcome" where
  "nullenc_fini_server_session ctx session w =
     bindo (free_object session w) (\<lambda>w'. Inr (0, w'))"

definition nullenc_init_client :: "net \<Rightarrow> (int \<times> ptr \<times> net) outcome" where
  "nullenc_init_client w = bindo (new_object 0 w) (\<lambda>(ctx, w'). Inr (0, Some ctx, w'))"

definition nullenc_fini_client :: "ptr \<Rightarrow> net \<Rightarrow> (int \<times> net) outcome" where
  "nullenc_fini_client ctx w = bindo (free_object ctx w) (\<lambda>w'. Inr (0, w'))"

definition nullenc_client_set_srp_auth ::
    "ptr \<Rightarrow> string \<Rightarrow> string \<Rightarrow> net \<Rightarrow> (int \<times> net) outcome" where
  "nullenc_client_set_srp_auth ctx name password w = Inr (0, w)"

definition nullenc_init_client_session :: "ptr \<Rightarrow> int \<Rightarrow> net \<Rightarrow> (int \<times> ptr \<times> net) outcome" where
  "nullenc_init_client_session ctx sock w =
     bindo (new_object sock w) (\<lambda>(session, w'). Inr (0, Some session, w'))"

definition nullenc_fini_client_session :: "ptr \<Rightarrow> ptr \<Rightarrow> net \<Rightarrow> (int \<times> net) outcome" where
  "nullenc_fini_client_session ctx session w =
     bindo (free_object session w) (\<lambda>w'. Inr (0, w'))"

definition pp_nullenc_opts :: "net tlsopts" where
  "pp_nullenc_opts =
     \<lparr>init_server = nullenc_init_server, fini_server = nullenc_fini_server,
      init_server_session = nullenc_init_server_session,
      fini_server_session = nullenc_fini_server_session,
      init_client = nullenc_init_client, fini_client = nullenc_fini_client,
      client_set_srp_auth = nullenc_client_set_srp_auth,
      init_client_session = nullenc_init_client_session,
      fini_client_session = nullenc_fini_client_session,
      tls_recv = nullenc_tls_recv, tls_send = nullenc_tls_send,
      get_socket = nullenc_tls_get_socket\<rparr>"

lemma pp_nullenc_opts_simps [simp]:
  "init_server pp_nullenc_opts = nullenc_init_server"
  "fini_server pp_nullenc_opts = nullenc_fini_server"
  "init_server_session pp_nullenc_opts = nullenc_init_server_session"
  "fini_server_session pp_nullenc_opts = nullenc_fini_server_session"
  "init_client pp_nullenc_opts = nullenc_init_client"
  "fini_client pp_nullenc_opts = nullenc_fini_client"
  "client_set_srp_auth pp_nullenc_opts = nullenc_client_set_srp_auth"
  "init_client_session pp_nullenc_opts = nullenc_init_client_session"
  "fini_client_session pp_nullenc_opts = nullenc_fini_client_session"
  "tls_recv pp_nullenc_opts = nullenc_tls_recv"
  "tls_send pp_nullenc_opts = nullenc_tls_send"
  "get_socket pp_nullenc_opts = nullenc_tls_get_socket"
  by (simp_all add: pp_nullenc_opts_def)

lemmas nullenc_defs =
  nullenc_init_server_def nullenc_fini_server_def nullenc_init_server_session_def
  nullenc_fini_server_session_def nullenc_init_client_def nullenc_fini_client_def
  nullenc_client_set_srp_auth_def nullenc_init_client_session_def
  nullenc_fini_client_session_def nullenc_tls_recv_def nullenc_tls_send_def
  nullenc_tls_get_socket_def

section \<open>Selection of a table\<close>

record build =
  ENABLE_NULLENC :: bool
  USE_OPENSSL :: bool
  USE_BLUETOOTH :: bool

datatype tls_kind = Nullenc | Openssl

datatype net_kind = Network | Unix | Bluetooth

datatype family = AF_INET | AF_INET6 | AF_UNIX | AF_BLUETOOTH

text \<open>The result code and the table stored through \<open>opts\<close>, if any.\<close>

definition pp_tlsopts_init_any :: "build \<Rightarrow> bool \<Rightarrow> int \<times> tls_kind option" where
  "pp_tlsopts_init_any b unenc =
     (if unenc then (if ENABLE_NULLENC b then (0, Some Nullenc) else (-1, None))
      else if USE_OPENSSL b then (0, Some Openssl) else (-1, None))"

definition pp_netopts_init :: "build \<Rightarrow> family \<Rightarrow> int \<times> net_kind option" where
  "pp_netopts_init b f =
     (case f of
        AF_INET \<Rightarrow> (0, Some Network)
      | AF_INET6 \<Rightarrow> (0, Some Network)
      | AF_BLUETOOTH \<Rightarrow> if USE_BLUETOOTH b then (0, Some Bluetooth) else (-1, None)
      | AF_UNIX \<Rightarrow> (0, Some Unix))"

section \<open>The life of a session\<close>

lemma new_object_Inr:
  "new_object s w = Inr (p, w') \<longleftrightarrow>
    heap_left w \<noteq> 0 \<and> p = heap_next w \<and>
    w' = w\<lparr>heap := (heap w)(heap_next w \<mapsto> s), heap_next := Suc (heap_next w),
           heap_left := heap_left w - 1\<rparr>"
  by (auto simp: new_object_def malloc_def)

lemma nullenc_session_socket:
  "nullenc_init_client_session ctx sock w = Inr (rv, session, w') \<Longrightarrow>
    rv = 0 \<and> nullenc_tls_get_socket session w' = Inr sock \<and> chan w' = chan w"
  by (auto simp: nullenc_defs outcome_simps new_object_Inr deref_def)

lemma nullenc_fini_session_invalidates:
  "nullenc_fini_client_session ctx (Some p) w = Inr (rv, w') \<Longrightarrow>
    nullenc_tls_get_socket (Some p) w' = Inl OutOfBounds"
  by (auto simp: nullenc_defs outcome_simps free_object_def deref_def split: if_splits)

end
