(* ===== verification/Pcsc.thy ===== *)
theory Pcsc
  imports Message
begin

text \<open>
  The PC/SC library the server is linked with (\<open>winscard.h\<close>, \<open>pcsclite.h\<close>): its data types as
  the headers in \<open>src/jni\<close> declare them, and its functions as a parameter, one field of the
  record \<open>pcsc\<close> each, over a state \<open>'s\<close> of the library's own.

  A pointer argument is passed as the value it points to and returned as the value left there
  (a library function that fails may leave it untouched); a result buffer is returned as the
  bytes the library stores through the pointer.
\<close>

section \<open>Types and return codes\<close>

text \<open>\<open>SCARD_READERSTATE\<close>; the user data pointer is not used by the proxy.\<close>

record SCARD_READERSTATE =
  szReader :: "u8 list option"
  dwCurrentState :: u64
  dwEventState :: u64
  cbAtr :: u64
  rgbAtr :: "u8 list"

text \<open>Its size on LP64, two pointers, three \<open>DWORD\<close>s and 33 bytes, padded to 8.\<close>

definition sizeof_SCARD_READERSTATE :: nat where
  "sizeof_SCARD_READERSTATE = 80"

record SCARD_IO_REQUEST =
  dwProtocol :: u64
  cbPciLength :: u64

definition SCARD_S_SUCCESS :: u64 where "SCARD_S_SUCCESS = 0"
definition SCARD_F_INTERNAL_ERROR :: u64 where "SCARD_F_INTERNAL_ERROR = 0x80100001"
definition SCARD_E_INVALID_VALUE :: u64 where "SCARD_E_INVALID_VALUE = 0x80100011"
definition SCARD_AUTOALLOCATE :: u64 where "SCARD_AUTOALLOCATE = - 1"
definition SCARD_PROTOCOL_T0 :: u64 where "SCARD_PROTOCOL_T0 = 1"
definition SCARD_PROTOCOL_T1 :: u64 where "SCARD_PROTOCOL_T1 = 2"
definition SCARD_PROTOCOL_RAW :: u64 where "SCARD_PROTOCOL_RAW = 4"

section \<open>The functions of the library\<close>

record 's pcsc =
  lib_EstablishContext :: "u64 \<Rightarrow> u64 \<Rightarrow> 's \<Rightarrow> u64 \<times> u64 \<times> 's"
  lib_ReleaseContext :: "u64 \<Rightarrow> 's \<Rightarrow> u64 \<times> 's"
  lib_IsValidContext :: "u64 \<Rightarrow> 's \<Rightarrow> u64 \<times> 's"
  lib_Connect :: "u64 \<Rightarrow> u8 list \<Rightarrow> u64 \<Rightarrow> u64 \<Rightarrow> u64 \<times> u64 \<Rightarrow> 's \<Rightarrow> u64 \<times> (u64 \<times> u64) \<times> 's"
  lib_Reconnect :: "u64 \<Rightarrow> u64 \<Rightarrow> u64 \<Rightarrow> u64 \<Rightarrow> u64 \<Rightarrow> 's \<Rightarrow> u64 \<times> u64 \<times> 's"
  lib_Disconnect :: "u64 \<Rightarrow> u64 \<Rightarrow> 's \<Rightarrow> u64 \<times> 's"
  lib_BeginTransaction :: "u64 \<Rightarrow> 's \<Rightarrow> u64 \<times> 's"
  lib_EndTransaction :: "u64 \<Rightarrow> u64 \<Rightarrow> 's \<Rightarrow> u64 \<times> 's"
  lib_Cancel :: "u64 \<Rightarrow> 's \<Rightarrow> u64 \<times> 's"
  lib_Status :: "u64 \<Rightarrow> u64 \<Rightarrow> u64 \<Rightarrow> u64 \<times> u64 \<Rightarrow> 's \<Rightarrow>
    u64 \<times> (u8 list \<times> u64) \<times> (u64 \<times> u64) \<times> (u8 list \<times> u64) \<times> 's"
  lib_GetStatusChange :: "u64 \<Rightarrow> u64 \<Rightarrow> SCARD_READERSTATE list \<Rightarrow> 's \<Rightarrow>
    u64 \<times> SCARD_READERSTATE list \<times> 's"
  lib_Control :: "u64 \<Rightarrow> u64 \<Rightarrow> u8 list \<Rightarrow> u64 \<Rightarrow> u64 \<Rightarrow> 's \<Rightarrow> u64 \<times> u8 list \<times> u64 \<times> 's"
  lib_Transmit :: "u64 \<Rightarrow> SCARD_IO_REQUEST \<Rightarrow> u8 list \<Rightarrow> SCARD_IO_REQUEST \<Rightarrow> u64 \<Rightarrow> 's \<Rightarrow>
    u64 \<times> SCARD_IO_REQUEST \<times> (u8 list \<times> u64) \<times> 's"
  lib_GetAttrib :: "u64 \<Rightarrow> u64 \<Rightarrow> u64 \<Rightarrow> 's \<Rightarrow> u64 \<times> (u8 list \<times> u64) \<times> 's"
  lib_SetAttrib :: "u64 \<Rightarrow> u64 \<Rightarrow> u8 list \<Rightarrow> 's \<Rightarrow> u64 \<times> 's"
  lib_ListReaders :: "u64 \<Rightarrow> bool \<Rightarrow> u64 \<Rightarrow> 's \<Rightarrow> u64 \<times> (u8 list \<times> u64) \<times> 's"
  lib_ListReaderGroups :: "u64 \<Rightarrow> bool \<Rightarrow> u64 \<Rightarrow> 's \<Rightarrow> u64 \<times> (u8 list \<times> u64) \<times> 's"

text \<open>
  What the documentation of PC/SC promises of the result buffers: no function stores more
  bytes than the length it is given, and the reader states keep their number.
\<close>

definition within_capacity :: "'s pcsc \<Rightarrow> bool" where
  "within_capacity lib \<longleftrightarrow>
     (\<forall>h n a z s. case lib_Status lib h n a z s of (_, (name, _), _, (atr, _), _) \<Rightarrow>
        length name \<le> unat n \<and> length atr \<le> unat a) \<and>
     (\<forall>h t rs s. case lib_GetStatusChange lib h t rs s of (_, rs', _) \<Rightarrow>
        length rs' = length rs \<and>
        ((\<forall>r. r \<in> set rs \<longrightarrow> length (rgbAtr r) = MAX_ATR_SIZE) \<longrightarrow>
         (\<forall>r. r \<in> set rs' \<longrightarrow> length (rgbAtr r) = MAX_ATR_SIZE))) \<and>
     (\<forall>h c b n z s. case lib_Control lib h c b n z s of (_, out, _, _) \<Rightarrow> length out \<le> unat n) \<and>
     (\<forall>h p b q n s. case lib_Transmit lib h p b q n s of (_, _, (out, _), _) \<Rightarrow>
        length out \<le> unat n) \<and>
     (\<forall>h i n s. case lib_GetAttrib lib h i n s of (_, (out, _), _) \<Rightarrow> length out \<le> unat n) \<and>
     (\<forall>h n s. case lib_ListReaders lib h True n s of (_, (out, _), _) \<Rightarrow> length out \<le> unat n) \<and>
     (\<forall>h n s. case lib_ListReaderGroups lib h True n s of (_, (out, _), _) \<Rightarrow> length out \<le> unat n)"

end
