(* ===== verification/Tables.thy ===== *)
theory Tables
  imports Opts Pcsc
begin

text \<open>
  The state of the client library \<open>src/src/client/client.c\<close>: the two tables of 64 slots that
  map the handles given to the application to those of the server, their mutexes, and the six
  functions that search, allocate and free slots.  The locale \<open>slot_table\<close> states what such a
  table promises; both tables interpret it.
\<close>

section \<open>State\<close>

definition PP_MAX_CONTEXT :: nat where
  "PP_MAX_CONTEXT = 64"

definition PP_CONTEXT_MAGIC :: u32 where
  "PP_CONTEXT_MAGIC = 0x88345289"

definition PP_CARD_MAGIC :: u32 where
  "PP_CARD_MAGIC = 0x38345289"

record PP_CLIENT_CONTEXT =
  ctx_id :: u32
  pcScContext :: u32
  tlsContext :: ptr
  tlsSession :: ptr

text \<open>\<open>clientContext\<close> is a pointer into \<open>pp_context_array\<close>, kept as the index.\<close>

record PP_CARD_CONTEXT =
  card_id :: u32
  pcScHandle :: u32
  clientContext :: ptr

text \<open>The contents of an array after the \<open>memset\<close>.\<close>

definition zero_context :: PP_CLIENT_CONTEXT where
  "zero_context = \<lparr>ctx_id = 0, pcScContext = 0, tlsContext = None, tlsSession = None\<rparr>"

definition zero_card :: PP_CARD_CONTEXT where
  "zero_card = \<lparr>card_id = 0, pcScHandle = 0, clientContext = None\<rparr>"

text \<open>The static variables of \<open>client.c\<close>, and the world the process runs in.\<close>

record 'w client =
  pp_context_array :: "PP_CLIENT_CONTEXT list option"
  pp_card_array :: "PP_CARD_CONTEXT list option"
  pp_context_locked :: bool
  pp_card_locked :: bool
  g_opts :: "net_kind option"
  g_tlsopts :: "tls_kind option"
  world :: 'w

text \<open>
  What the process finds around it: the build options, the tables of the TLS and network
  modules, \<open>close\<close>, the environment variables, the terminals and the login records, what
  \<open>pthread_mutex_lock\<close> and the \<open>malloc\<close> of the two arrays answer, and the initial contents of
  the local array \<open>terminal\<close>.
\<close>

record utmp =
  ut_type :: int
  ut_line :: string
  ut_host :: string

record 'w platform =
  build_options :: build
  tls_table :: "tls_kind \<Rightarrow> 'w tlsopts"
  net_connect :: "net_kind \<Rightarrow> string \<Rightarrow> int \<Rightarrow> 'w \<Rightarrow> (int \<times> 'w) outcome"
  close_fd :: "int \<Rightarrow> 'w \<Rightarrow> 'w"
  getenv :: "string \<Rightarrow> string option"
  ttyname :: "nat \<Rightarrow> string option"
  utmp_records :: "utmp list"
  mutex_lock_rv :: int
  malloc_contexts :: bool
  malloc_cards :: bool
  u_terminal :: string

section \<open>Library functions on strings\<close>

definition tolower :: "char \<Rightarrow> nat" where
  "tolower c = (let n = of_char c in if 65 \<le> n \<and> n \<le> 90 then n + 32 else n)"

definition strcaseeq :: "string \<Rightarrow> string \<Rightarrow> bool" where
  "strcaseeq s t \<longleftrightarrow> map tolower s = map tolower t"

section \<open>Contexts\<close>

text \<open>
  The mutexes are plain ones: locking a held mutex never returns.  The search functions unlock
  on each of their paths and change nothing else, so they return only their result.
\<close>

definition pp_findContext :: "'w platform \<Rightarrow> u32 \<Rightarrow> 'w client \<Rightarrow> nat option outcome" where
  "pp_findContext pl hid c =
     (if pp_context_locked c then Inl Blocked
      else if mutex_lock_rv pl \<noteq> 0 then Inr None
      else
        (case pp_context_array c of
           None \<Rightarrow> Inr None
         | Some arr \<Rightarrow>
             let rid = unat (hid - PP_CONTEXT_MAGIC) in
             if PP_MAX_CONTEXT < rid then Inr None
             else if length arr \<le> rid then Inl OutOfBounds
             else if ctx_id (arr ! rid) = 0 then Inr None
             else Inr (Some rid)))"

text \<open>The loop over the slots: the index it stops at, \<open>PP_MAX_CONTEXT\<close> when none is free.\<close>

fun first_free_context :: "nat \<Rightarrow> PP_CLIENT_CONTEXT list \<Rightarrow> nat" where
  "first_free_context i [] = i"
| "first_free_context i (p # ps) = (if ctx_id p = 0 then i else first_free_context (Suc i) ps)"

definition set_context :: "nat \<Rightarrow> PP_CLIENT_CONTEXT \<Rightarrow> 'w client \<Rightarrow> 'w client" where
  "set_context i p c = c\<lparr>pp_context_array := map_option (\<lambda>arr. arr[i := p]) (pp_context_array c)\<rparr>"

text \<open>
  \<open>strcasecmp\<close> of the NULL that \<open>getenv\<close> returns for an unset \<open>PCSC_NULLENC\<close> is a fault; the
  failure of \<open>pp_tlsopts_init_any\<close> returns with the mutex held.  The first part of the function,
  up to the table of TLS operations: the client afterwards, and whether to go on.
\<close>

definition create_context_setup :: "'w platform \<Rightarrow> 'w client \<Rightarrow>
    ((PP_CLIENT_CONTEXT list \<times> tls_kind) option \<times> 'w client) outcome" where
  "create_context_setup pl c =
     (case (case pp_context_array c of
              Some arr \<Rightarrow> Some arr
            | None \<Rightarrow> if malloc_contexts pl then Some (replicate PP_MAX_CONTEXT zero_context)
                      else None) of
        None \<Rightarrow> Inr (None, c\<lparr>pp_context_locked := False\<rparr>)
      | Some arr \<Rightarrow>
          let c = c\<lparr>pp_context_array := Some arr\<rparr> in
          (case g_tlsopts c of
             Some k \<Rightarrow> Inr (Some (arr, k), c)
           | None \<Rightarrow>
               (case getenv pl ''PCSC_NULLENC'' of
                  None \<Rightarrow> Inl NullPointer
                | Some nullenc \<Rightarrow>
                    let unenc = (strcaseeq nullenc ''true'' \<or> strcaseeq nullenc ''1'');
                      (rv, k) = pp_tlsopts_init_any (build_options pl) unenc
                    in if rv < 0 then Inr (None, c)
                       else
                         (case k of
                            None \<Rightarrow> Inl NullPointer
                          | Some k \<Rightarrow> Inr (Some (arr, k), c\<lparr>g_tlsopts := Some k\<rparr>)))))"

text \<open>The rest of the function, for the slot \<open>i\<close> with the new \<open>id\<close> in \<open>p\<close>.\<close>

definition create_context_slot :: "'w platform \<Rightarrow> tls_kind \<Rightarrow> nat \<Rightarrow> PP_CLIENT_CONTEXT \<Rightarrow> 'w client \<Rightarrow>
    (nat option \<times> 'w client) outcome" where
  "create_context_slot pl k i p c =
     bindo (init_client (tls_table pl k) (world c)) (\<lambda>(rv, q, w).
       let p = (if q = None then p else p\<lparr>tlsContext := q\<rparr>);
         c = set_context i p (c\<lparr>world := w\<rparr>);
         failed = (\<lambda>c. (set_context i (p\<lparr>ctx_id := 0\<rparr>) c)\<lparr>pp_context_locked := False\<rparr>)
       in if rv < 0 then Inr (None, failed c)
          else
            (case (getenv pl ''PCSC_USER'', getenv pl ''PCSC_PASSWD'') of
               (Some user, Some passwd) \<Rightarrow>
                 if user = [] \<or> passwd = [] then Inr (None, failed c)
                 else
                   bindo (client_set_srp_auth (tls_table pl k) (tlsContext p) user passwd (world c))
                     (\<lambda>(rv, w).
                        let c = c\<lparr>world := w\<rparr> in
                        if rv < 0 then Inr (None, failed c)
                        else Inr (Some i, c\<lparr>pp_context_locked := False\<rparr>))
             | _ \<Rightarrow> Inr (None, failed c)))"

definition pp_createContext :: "'w platform \<Rightarrow> 'w client \<Rightarrow> (nat option \<times> 'w client) outcome" where
  "pp_createContext pl c =
     (if pp_context_locked c then Inl Blocked
      else if mutex_lock_rv pl \<noteq> 0 then Inr (None, c)
      else
        bindo (create_context_setup pl (c\<lparr>pp_context_locked := True\<rparr>)) (\<lambda>(r, c).
          case r of
            None \<Rightarrow> Inr (None, c)
          | Some (arr, k) \<Rightarrow>
              let i = first_free_context 0 arr in
              if PP_MAX_CONTEXT \<le> i then Inr (None, c\<lparr>pp_context_locked := False\<rparr>)
              else create_context_slot pl k i ((arr ! i)\<lparr>ctx_id := of_nat i + PP_CONTEXT_MAGIC\<rparr>) c))"

definition pp_releaseContext :: "'w platform \<Rightarrow> u32 \<Rightarrow> 'w client \<Rightarrow> 'w client outcome" where
  "pp_releaseContext pl hid c =
     (if pp_context_locked c then Inl Blocked
      else if mutex_lock_rv pl \<noteq> 0 then Inr c
      else
        (case pp_context_array c of
           None \<Rightarrow> Inr c
         | Some arr \<Rightarrow>
             let rid = unat (hid - PP_CONTEXT_MAGIC) in
             if PP_MAX_CONTEXT < rid then Inr c
             else if length arr \<le> rid then Inl OutOfBounds
             else Inr (set_context rid ((arr ! rid)\<lparr>ctx_id := 0\<rparr>) c)))"

section \<open>Cards\<close>

definition pp_findCard :: "'w platform \<Rightarrow> u32 \<Rightarrow> 'w client \<Rightarrow> nat option outcome" where
  "pp_findCard pl hid c =
     (if pp_card_locked c then Inl Blocked
      else if mutex_lock_rv pl \<noteq> 0 then Inr None
      else
        (case pp_card_array c of
           None \<Rightarrow> Inr None
         | Some arr \<Rightarrow>
             let rid = unat (hid - PP_CARD_MAGIC) in
             if PP_MAX_CONTEXT < rid then Inr None
             else if length arr \<le> rid then Inl OutOfBounds
             else if card_id (arr ! rid) = 0 then Inr None
             else Inr (Some rid)))"

fun first_free_card :: "nat \<Rightarrow> PP_CARD_CONTEXT list \<Rightarrow> nat" where
  "first_free_card i [] = i"
| "first_free_card i (p # ps) = (if card_id p = 0 then i else first_free_card (Suc i) ps)"

definition set_card :: "nat \<Rightarrow> PP_CARD_CONTEXT \<Rightarrow> 'w client \<Rightarrow> 'w client" where
  "set_card i p c = c\<lparr>pp_card_array := map_option (\<lambda>arr. arr[i := p]) (pp_card_array c)\<rparr>"

definition pp_createCard :: "'w platform \<Rightarrow> nat \<Rightarrow> 'w client \<Rightarrow> (nat option \<times> 'w client) outcome" where
  "pp_createCard pl ctx c =
     (if pp_card_locked c then Inl Blocked
      else if mutex_lock_rv pl \<noteq> 0 then Inr (None, c)
      else
        (case (case pp_card_array c of
                 Some arr \<Rightarrow> Some arr
               | None \<Rightarrow> if malloc_cards pl then Some (replicate PP_MAX_CONTEXT zero_card)
                         else None) of
           None \<Rightarrow> Inr (None, c)
         | Some arr \<Rightarrow>
             let c = c\<lparr>pp_card_array := Some arr\<rparr>;
               i = first_free_card 0 arr
             in if PP_MAX_CONTEXT \<le> i then Inr (None, c)
                else
                  let p = (arr ! i)\<lparr>card_id := of_nat i + PP_CARD_MAGIC,
                             clientContext := Some ctx\<rparr>
                  in Inr (Some i, set_card i p c)))"

definition pp_releaseCard :: "'w platform \<Rightarrow> u32 \<Rightarrow> 'w client \<Rightarrow> 'w client outcome" where
  "pp_releaseCard pl hid c =
     (if pp_card_locked c then Inl Blocked
      else if mutex_lock_rv pl \<noteq> 0 then Inr c
      else
        (case pp_card_array c of
           None \<Rightarrow> Inr c
         | Some arr \<Rightarrow>
             let rid = unat (hid - PP_CARD_MAGIC) in
             if PP_MAX_CONTEXT < rid then Inr c
             else if length arr \<le> rid then Inl OutOfBounds
             else Inr (set_card rid ((arr ! rid)\<lparr>card_id := 0\<rparr>) c)))"

section \<open>The contract of a table of slots\<close>

locale slot_table =
  fixes find :: "u32 \<Rightarrow> 's \<Rightarrow> nat option outcome"
    and create :: "'a \<Rightarrow> 's \<Rightarrow> (nat option \<times> 's) outcome"
    and release :: "u32 \<Rightarrow> 's \<Rightarrow> 's outcome"
    and ok :: "'s \<Rightarrow> bool"
    and used :: "'s \<Rightarrow> nat \<Rightarrow> bool"
    and handle :: "nat \<Rightarrow> u32"
  assumes used_bound: "ok s \<Longrightarrow> used s i \<Longrightarrow> i < PP_MAX_CONTEXT"
  and find_handle:
    "ok s \<Longrightarrow> i < PP_MAX_CONTEXT \<Longrightarrow> find (handle i) s = Inr (if used s i then Some i else None)"
  and find_foreign: "ok s \<Longrightarrow> find h s = Inr (Some i) \<Longrightarrow> h = handle i \<and> used s i"
  and create_slot:
    "ok s \<Longrightarrow> create a s = Inr (Some i, s') \<Longrightarrow>
      ok s' \<and> i < PP_MAX_CONTEXT \<and> \<not> used s i \<and> used s' = (used s)(i := True) \<and> (\<forall>j < i. used s j)"
  and create_none:
    "ok s \<Longrightarrow> create a s = Inr (None, s') \<Longrightarrow> ok s' \<and> used s' = used s"
  and create_full:
    "ok s \<Longrightarrow> (\<forall>i < PP_MAX_CONTEXT. used s i) \<Longrightarrow> create a s = Inr (r, s') \<Longrightarrow> r = None"
  and release_handle:
    "ok s \<Longrightarrow> i < PP_MAX_CONTEXT \<Longrightarrow>
      \<exists>s'. release (handle i) s = Inr s' \<and> ok s' \<and> used s' = (used s)(i := False)"
begin

lemma find_iff:
  "ok s \<Longrightarrow> find h s = Inr (Some i) \<longleftrightarrow> h = handle i \<and> used s i"
  using find_foreign [of s h i] find_handle [of s i] used_bound [of s i] by auto

lemma created_found: "ok s \<Longrightarrow> create a s = Inr (Some i, s') \<Longrightarrow> find (handle i) s' = Inr (Some i)"
  by (simp add: create_slot find_iff)

lemma created_fresh:
  "ok s \<Longrightarrow> create a s = Inr (Some i, s') \<Longrightarrow> find h s = Inr (Some j) \<Longrightarrow>
    h \<noteq> handle i \<and> find h s' = Inr (Some j)"
  using find_handle [of s i] create_slot [of s a i s'] find_iff [of s h j] find_iff [of s' h j]
  by auto

lemma released:
  assumes "ok s" "i < PP_MAX_CONTEXT"
  obtains s' where "release (handle i) s = Inr s'" "ok s'" "find (handle i) s' = Inr None"
    "\<And>h j. find h s = Inr (Some j) \<Longrightarrow> j \<noteq> i \<Longrightarrow> find h s' = Inr (Some j)"
proof -
  from release_handle [OF assms] obtain s' where s': "release (handle i) s = Inr s'" "ok s'"
    and u: "used s' = (used s)(i := False)" by blast
  moreover have "find (handle i) s' = Inr None"
    using find_handle [of s' i] s' u assms by simp
  ultimately show thesis
    using assms by (intro that [of s']) (auto simp: find_iff)
qed

text \<open>A freed slot is the next one handed out, when every slot below it is in use.\<close>

lemma slot_reused:
  assumes "ok s" "i < PP_MAX_CONTEXT" "\<forall>j < i. used s j" "release (handle i) s = Inr s1"
    and "create a s1 = Inr (Some k, s2)"
  shows "k = i"
proof -
  have s1: "ok s1" "used s1 = (used s)(i := False)"
    using release_handle [OF assms(1,2)] assms(4) by auto
  from create_slot [OF s1(1) assms(5)] have "\<not> used s1 k" "\<forall>j < k. used s1 j" by auto
  with s1(2) assms(3) show ?thesis by (cases k i rule: linorder_cases) auto
qed

definition in_use :: "'s \<Rightarrow> nat" where
  "in_use s = card {i. used s i}"

lemma finite_used: "ok s \<Longrightarrow> finite {i. used s i}"
  by (rule finite_subset [of _ "{..<PP_MAX_CONTEXT}"]) (auto dest: used_bound)

lemma in_use_bound: "ok s \<Longrightarrow> in_use s \<le> PP_MAX_CONTEXT"
proof -
  assume "ok s"
  then have "{i. used s i} \<subseteq> {..<PP_MAX_CONTEXT}" by (auto dest: used_bound)
  then show ?thesis unfolding in_use_def using card_mono [of "{..<PP_MAX_CONTEXT}"] by fastforce
qed

lemma in_use_create:
  assumes "ok s" "create a s = Inr (Some i, s')"
  shows "in_use s' = Suc (in_use s)"
proof -
  from create_slot [OF assms] have u: "\<not> used s i" "used s' = (used s)(i := True)" by auto
  then have "{j. used s' j} = insert i {j. used s j}" by auto
  with u(1) finite_used [OF assms(1)] show ?thesis by (simp add: in_use_def)
qed

lemma in_use_full: "ok s \<Longrightarrow> in_use s = PP_MAX_CONTEXT \<Longrightarrow> create a s = Inr (r, s') \<Longrightarrow> r = None"
proof (rule create_full)
  assume "ok s" "in_use s = PP_MAX_CONTEXT"
  then have "{i. used s i} = {..<PP_MAX_CONTEXT}"
    using card_subset_eq [of "{..<PP_MAX_CONTEXT}" "{i. used s i}"] used_bound [of s]
    by (auto simp: in_use_def)
  then show "\<forall>i < PP_MAX_CONTEXT. used s i" by auto
qed

end

section \<open>Both tables keep the contract\<close>

lemma magic_offset:
  assumes "i < 65"
  shows "unat (of_nat i + m - (m :: u32)) = i"
  using assms by (simp add: unat_of_nat)

lemma magic_handle: "unat (h - m) = i \<longleftrightarrow> h = of_nat i + m \<and> i < 2 ^ 32" for h m :: u32
proof
  assume "unat (h - m) = i"
  then have "h - m = of_nat i" and "i < 2 ^ 32"
    using unsigned_less [of "h - m", where 'a = nat] by (auto simp: of_nat_unat)
  then show "h = of_nat i + m \<and> i < 2 ^ 32" by (simp add: algebra_simps)
qed (simp add: unat_of_nat)

lemma magic_nonzero:
  assumes "i < 64"
  shows "of_nat i + PP_CONTEXT_MAGIC \<noteq> 0" "of_nat i + PP_CARD_MAGIC \<noteq> 0"
proof -
  have "of_nat i + m \<noteq> (0 :: u32)" if "i < 64" "unat (- m) \<ge> 64" for m
  proof
    assume "of_nat i + m = 0"
    then have "of_nat i = - m" by (simp add: eq_neg_iff_add_eq_0)
    then have "unat (of_nat i :: u32) = unat (- m)" by simp
    with that show False by (simp add: unat_of_nat)
  qed
  then show "of_nat i + PP_CONTEXT_MAGIC \<noteq> 0" "of_nat i + PP_CARD_MAGIC \<noteq> 0"
    using assms by (simp_all add: PP_CONTEXT_MAGIC_def PP_CARD_MAGIC_def)
qed

lemma first_free_context_spec:
  "first_free_context k ps = k + i \<Longrightarrow>
    i \<le> length ps \<and> (\<forall>j < i. ctx_id (ps ! j) \<noteq> 0) \<and> (i < length ps \<longrightarrow> ctx_id (ps ! i) = 0)"
proof (induction ps arbitrary: k i)
  case (Cons p ps)
  have le: "Suc k \<le> first_free_context (Suc k) ps"
    by (induction ps arbitrary: k) (auto intro: Suc_leD)
  show ?case
  proof (cases "ctx_id p = 0")
    case False
    with Cons.prems le obtain i' where i: "i = Suc i'" by (cases i) auto
    with Cons.prems False Cons.IH [of "Suc k" i'] show ?thesis
      by (auto simp: less_Suc_eq_0_disj)
  qed (use Cons.prems in auto)
qed simp

lemma first_free_card_spec:
  "first_free_card k ps = k + i \<Longrightarrow>
    i \<le> length ps \<and> (\<forall>j < i. card_id (ps ! j) \<noteq> 0) \<and> (i < length ps \<longrightarrow> card_id (ps ! i) = 0)"
proof (induction ps arbitrary: k i)
  case (Cons p ps)
  have le: "Suc k \<le> first_free_card (Suc k) ps"
    by (induction ps arbitrary: k) (auto intro: Suc_leD)
  show ?case
  proof (cases "card_id p = 0")
    case False
    with Cons.prems le obtain i' where i: "i = Suc i'" by (cases i) auto
    with Cons.prems False Cons.IH [of "Suc k" i'] show ?thesis
      by (auto simp: less_Suc_eq_0_disj)
  qed (use Cons.prems in auto)
qed simp

text \<open>The well-formed states of the two tables, and which of their slots are in use.\<close>

definition tls_available :: "'w platform \<Rightarrow> 'w client \<Rightarrow> bool" where
  "tls_available pl c \<longleftrightarrow>
     g_tlsopts c \<noteq> None \<or>
     (case getenv pl ''PCSC_NULLENC'' of
        None \<Rightarrow> False
      | Some e \<Rightarrow> 0 \<le> fst (pp_tlsopts_init_any (build_options pl)
                        (strcaseeq e ''true'' \<or> strcaseeq e ''1'')))"

definition contexts_ok :: "'w platform \<Rightarrow> 'w client \<Rightarrow> bool" where
  "contexts_ok pl c \<longleftrightarrow>
     \<not> pp_context_locked c \<and> mutex_lock_rv pl = 0 \<and> tls_available pl c \<and>
     (case pp_context_array c of
        None \<Rightarrow> malloc_contexts pl
      | Some arr \<Rightarrow> length arr = PP_MAX_CONTEXT \<and>
          (\<forall>i < PP_MAX_CONTEXT. ctx_id (arr ! i) = 0 \<or> ctx_id (arr ! i) = of_nat i + PP_CONTEXT_MAGIC))"

definition context_used :: "'w client \<Rightarrow> nat \<Rightarrow> bool" where
  "context_used c i =
     (case pp_context_array c of
        None \<Rightarrow> False | Some arr \<Rightarrow> i < PP_MAX_CONTEXT \<and> ctx_id (arr ! i) \<noteq> 0)"

definition cards_ok :: "'w platform \<Rightarrow> 'w client \<Rightarrow> bool" where
  "cards_ok pl c \<longleftrightarrow>
     \<not> pp_card_locked c \<and> mutex_lock_rv pl = 0 \<and>
     (case pp_card_array c of
        None \<Rightarrow> malloc_cards pl
      | Some arr \<Rightarrow> length arr = PP_MAX_CONTEXT \<and>
          (\<forall>i < PP_MAX_CONTEXT. card_id (arr ! i) = 0 \<or> card_id (arr ! i) = of_nat i + PP_CARD_MAGIC))"

definition card_used :: "'w client \<Rightarrow> nat \<Rightarrow> bool" where
  "card_used c i =
     (case pp_card_array c of
        None \<Rightarrow> False | Some arr \<Rightarrow> i < PP_MAX_CONTEXT \<and> card_id (arr ! i) \<noteq> 0)"

lemma PP_MAX_CONTEXT_simp [simp]: "PP_MAX_CONTEXT = 64"
  by (simp add: PP_MAX_CONTEXT_def)

lemma find_context_Inr:
  "contexts_ok pl c \<Longrightarrow> pp_findContext pl h c = Inr r \<longleftrightarrow>
    (\<exists>arr. pp_context_array c = Some arr \<and> unat (h - PP_CONTEXT_MAGIC) < 64 \<and>
       ctx_id (arr ! unat (h - PP_CONTEXT_MAGIC)) \<noteq> 0 \<and> r = Some (unat (h - PP_CONTEXT_MAGIC))) \<or>
    (pp_context_array c = None \<or> unat (h - PP_CONTEXT_MAGIC) \<noteq> 64) \<and>
      \<not> context_used c (unat (h - PP_CONTEXT_MAGIC)) \<and> r = None"
  by (auto simp: pp_findContext_def contexts_ok_def context_used_def Let_def split: option.splits)

lemma find_card_Inr:
  "cards_ok pl c \<Longrightarrow> pp_findCard pl h c = Inr r \<longleftrightarrow>
    (\<exists>arr. pp_card_array c = Some arr \<and> unat (h - PP_CARD_MAGIC) < 64 \<and>
       card_id (arr ! unat (h - PP_CARD_MAGIC)) \<noteq> 0 \<and> r = Some (unat (h - PP_CARD_MAGIC))) \<or>
    (pp_card_array c = None \<or> unat (h - PP_CARD_MAGIC) \<noteq> 64) \<and>
      \<not> card_used c (unat (h - PP_CARD_MAGIC)) \<and> r = None"
  by (auto simp: pp_findCard_def cards_ok_def card_used_def Let_def split: option.splits)

lemma cards_ok_array: "cards_ok pl c \<Longrightarrow> pp_card_array c = Some arr \<Longrightarrow> length arr = 64"
  by (simp add: cards_ok_def)

text \<open>What the array is taken to be by a search for a free slot.\<close>

definition card_slots :: "'w client \<Rightarrow> PP_CARD_CONTEXT list" where
  "card_slots c = (case pp_card_array c of Some arr \<Rightarrow> arr | None \<Rightarrow> replicate PP_MAX_CONTEXT zero_card)"

lemma card_slots_ok:
  "cards_ok pl c \<Longrightarrow> length (card_slots c) = 64 \<and>
    (\<forall>i < 64. card_id (card_slots c ! i) = 0 \<or> card_id (card_slots c ! i) = of_nat i + PP_CARD_MAGIC)"
  by (auto simp: cards_ok_def card_slots_def zero_card_def split: option.splits)

lemma card_used_slots: "card_used c i \<longleftrightarrow> i < 64 \<and> card_id (card_slots c ! i) \<noteq> 0"
  by (auto simp: card_used_def card_slots_def zero_card_def split: option.splits)

lemma createCard_Inr:
  assumes "cards_ok pl c"
  shows "pp_createCard pl ctx c = Inr (r, c') \<longleftrightarrow>
    (let i = first_free_card 0 (card_slots c); c1 = c\<lparr>pp_card_array := Some (card_slots c)\<rparr>;
       p = (card_slots c ! i)\<lparr>card_id := of_nat i + PP_CARD_MAGIC, clientContext := Some ctx\<rparr>
     in if 64 \<le> i then r = None \<and> c' = c1
        else r = Some i \<and> c' = c1\<lparr>pp_card_array := Some ((card_slots c)[i := p])\<rparr>)"
  using assms
  by (auto simp: pp_createCard_def cards_ok_def card_slots_def set_card_def Let_def
      split: option.splits)

lemma createCard_some:
  assumes "cards_ok pl c" "pp_createCard pl ctx c = Inr (Some i, c')"
  shows "cards_ok pl c' \<and> i < PP_MAX_CONTEXT \<and> \<not> card_used c i \<and>
    card_used c' = (card_used c)(i := True) \<and> (\<forall>j < i. card_used c j)"
proof -
  let ?p = "(card_slots c ! i)\<lparr>card_id := of_nat i + PP_CARD_MAGIC, clientContext := Some ctx\<rparr>"
  have i: "i = first_free_card 0 (card_slots c)" "i < 64"
    and c': "c' = c\<lparr>pp_card_array := Some ((card_slots c)[i := ?p])\<rparr>"
    using assms by (auto simp: createCard_Inr Let_def split: if_splits)
  note ok = card_slots_ok [OF assms(1)]
  have free: "card_id (card_slots c ! i) = 0" "\<forall>j < i. card_id (card_slots c ! j) \<noteq> 0"
    using first_free_card_spec [of 0 "card_slots c" i] i ok by auto
  have "card_used c' j = ((card_used c)(i := True)) j" for j
    using i ok magic_nonzero(2) [of i] by (auto simp: c' card_used_slots card_slots_def nth_list_update)
  moreover have "cards_ok pl c'"
    using assms(1) ok i(2) by (auto simp: c' cards_ok_def nth_list_update)
  ultimately show ?thesis using free i by (auto simp: card_used_slots)
qed

lemma release_card:
  assumes "cards_ok pl c" "i < 64"
  shows "\<exists>c'. pp_releaseCard pl (of_nat i + PP_CARD_MAGIC) c = Inr c' \<and> cards_ok pl c' \<and>
    card_used c' = (card_used c)(i := False)"
proof (cases "pp_card_array c")
  case None
  with assms show ?thesis by (auto simp: pp_releaseCard_def cards_ok_def card_used_def fun_eq_iff)
next
  case (Some arr)
  then have len: "length arr = 64" using assms by (simp add: cards_ok_def)
  let ?c = "set_card i ((arr ! i)\<lparr>card_id := 0\<rparr>) c"
  have "pp_releaseCard pl (of_nat i + PP_CARD_MAGIC) c = Inr ?c"
    using assms Some len by (simp add: pp_releaseCard_def cards_ok_def unat_of_nat)
  moreover have "cards_ok pl ?c"
    using assms Some len by (auto simp: cards_ok_def set_card_def nth_list_update)
  moreover have "card_used ?c = (card_used c)(i := False)"
    using assms(2) Some len by (auto simp: card_used_def set_card_def nth_list_update fun_eq_iff)
  ultimately show ?thesis by blast
qed

interpretation cards: slot_table "pp_findCard pl" "pp_createCard pl" "pp_releaseCard pl"
    "cards_ok pl" card_used "\<lambda>i. of_nat i + PP_CARD_MAGIC"
proof (unfold_locales, goal_cases)
  case (1 c i)
  then show ?case by (simp add: card_used_slots)
next
  case (2 c i)
  then show ?case
    by (auto simp: pp_findCard_def cards_ok_def card_used_def unat_of_nat Let_def split: option.splits)
next
  case (3 c h i)
  then show ?case using magic_handle [of h PP_CARD_MAGIC i] by (auto simp: find_card_Inr card_used_def)
next
  case (4 c a i c')
  then show ?case by (rule createCard_some)
next
  case (5 c a c')
  then show ?case
    using card_slots_ok [of pl c]
    by (auto simp: createCard_Inr Let_def card_used_slots cards_ok_def card_slots_def
        split: if_splits)
next
  case (6 c a r c')
  then show ?case
    using createCard_some [of pl c a _ c'] by (cases r) auto
next
  case (7 c i)
  then show ?case by (simp add: release_card)
qed

definition context_slots :: "'w client \<Rightarrow> PP_CLIENT_CONTEXT list" where
  "context_slots c =
     (case pp_context_array c of Some arr \<Rightarrow> arr | None \<Rightarrow> replicate PP_MAX_CONTEXT zero_context)"

lemma context_slots_ok:
  "contexts_ok pl c \<Longrightarrow> length (context_slots c) = 64 \<and>
    (\<forall>i < 64. ctx_id (context_slots c ! i) = 0 \<or>
       ctx_id (context_slots c ! i) = of_nat i + PP_CONTEXT_MAGIC)"
  by (auto simp: contexts_ok_def context_slots_def zero_context_def split: option.splits)

lemma context_used_slots: "context_used c i \<longleftrightarrow> i < 64 \<and> ctx_id (context_slots c ! i) \<noteq> 0"
  by (auto simp: context_used_def context_slots_def zero_context_def split: option.splits)

lemma setup_Inr:
  assumes "contexts_ok pl c" "create_context_setup pl (c\<lparr>pp_context_locked := True\<rparr>) = Inr (r, c1)"
  shows "\<exists>k. r = Some (context_slots c, k) \<and>
    c1 = c\<lparr>pp_context_locked := True, pp_context_array := Some (context_slots c),
           g_tlsopts := Some k\<rparr> \<and> (g_tlsopts c = None \<or> g_tlsopts c = Some k)"
proof -
  have m: "(case pp_context_array c of None \<Rightarrow>
      if malloc_contexts pl then Some (replicate PP_MAX_CONTEXT zero_context) else None
      | Some arr \<Rightarrow> Some arr) = Some (context_slots c)"
    using assms(1) by (auto simp: contexts_ok_def context_slots_def split: option.splits)
  show ?thesis
  proof (cases "g_tlsopts c")
    case None
    with assms m show ?thesis
      by (auto simp: create_context_setup_def contexts_ok_def tls_available_def Let_def
          split: option.splits prod.splits if_splits)
  next
    case (Some k)
    with assms m show ?thesis by (auto simp: create_context_setup_def Let_def)
  qed
qed

lemma context_slot_Inr:
  assumes "create_context_slot pl k i p c = Inr (r, c')" "pp_context_array c = Some arr"
  shows "\<not> pp_context_locked c' \<and> g_tlsopts c' = g_tlsopts c \<and>
    (\<exists>q. pp_context_array c' = Some (arr[i := q]) \<and>
       (r = None \<and> ctx_id q = 0 \<or> r = Some i \<and> ctx_id q = ctx_id p))"
proof -
  from assms(1) obtain rv q w where i: "init_client (tls_table pl k) (world c) = Inr (rv, q, w)"
    by (auto simp: create_context_slot_def outcome_simps)
  define p' where "p' = (if q = None then p else p\<lparr>tlsContext := q\<rparr>)"
  have id: "ctx_id p' = ctx_id p" by (simp add: p'_def)
  show ?thesis
    using assms(1) unfolding create_context_slot_def i
    by (auto simp: assms(2) outcome_simps set_context_def id Let_def simp flip: p'_def
        split: if_splits option.splits)
qed

lemma createContext_Inr:
  assumes "contexts_ok pl c" "pp_createContext pl c = Inr (r, c')"
  shows "\<exists>i arr. i = first_free_context 0 (context_slots c) \<and> pp_context_array c' = Some arr \<and>
    \<not> pp_context_locked c' \<and> g_tlsopts c' \<noteq> None \<and>
    (if 64 \<le> i then r = None \<and> arr = context_slots c
     else (\<exists>p. arr = (context_slots c)[i := p] \<and>
             (r = None \<and> ctx_id p = 0 \<or> r = Some i \<and> ctx_id p = of_nat i + PP_CONTEXT_MAGIC)))"
proof -
  have nb: "\<not> pp_context_locked c" "mutex_lock_rv pl = 0"
    using assms(1) by (simp_all add: contexts_ok_def)
  with assms(2) obtain r0 c0 where s0: "create_context_setup pl (c\<lparr>pp_context_locked := True\<rparr>) = Inr (r0, c0)"
    by (auto simp: pp_createContext_def outcome_simps)
  from setup_Inr [OF assms(1) this] obtain k where k: "r0 = Some (context_slots c, k)"
    "c0 = c\<lparr>pp_context_locked := True, pp_context_array := Some (context_slots c),
            g_tlsopts := Some k\<rparr>" by blast
  let ?i = "first_free_context 0 (context_slots c)"
  show ?thesis
  proof (cases "64 \<le> ?i")
    case True
    with assms(2) nb s0 k show ?thesis by (auto simp: pp_createContext_def)
  next
    case False
    with assms(2) nb s0 k
    have "create_context_slot pl k ?i
        ((context_slots c ! ?i)\<lparr>ctx_id := of_nat ?i + PP_CONTEXT_MAGIC\<rparr>) c0 = Inr (r, c')"
      by (simp add: pp_createContext_def Let_def)
    from context_slot_Inr [OF this, of "context_slots c"] k False show ?thesis by auto
  qed
qed

lemma createContext_slots:
  assumes "contexts_ok pl c" "pp_createContext pl c = Inr (r, c')"
  shows "contexts_ok pl c' \<and>
    (case r of
       None \<Rightarrow> context_used c' = context_used c
     | Some i \<Rightarrow> i < PP_MAX_CONTEXT \<and> \<not> context_used c i \<and>
         context_used c' = (context_used c)(i := True) \<and> (\<forall>j < i. context_used c j))"
proof -
  note ok = context_slots_ok [OF assms(1)]
  from createContext_Inr [OF assms] obtain i arr where
    i: "i = first_free_context 0 (context_slots c)"
    and c': "pp_context_array c' = Some arr" "\<not> pp_context_locked c'" "g_tlsopts c' \<noteq> None"
    and r: "if 64 \<le> i then r = None \<and> arr = context_slots c
     else (\<exists>p. arr = (context_slots c)[i := p] \<and>
             (r = None \<and> ctx_id p = 0 \<or> r = Some i \<and> ctx_id p = of_nat i + PP_CONTEXT_MAGIC))"
    by blast
  have s': "context_slots c' = arr" using c' by (simp add: context_slots_def)
  have lk: "mutex_lock_rv pl = 0" using assms(1) by (simp add: contexts_ok_def)
  show ?thesis
  proof (cases "64 \<le> i")
    case True
    with r ok c' s' lk show ?thesis
      by (auto simp: contexts_ok_def tls_available_def context_used_slots)
  next
    case False
    with r obtain p where p: "arr = (context_slots c)[i := p]"
      "r = None \<and> ctx_id p = 0 \<or> r = Some i \<and> ctx_id p = of_nat i + PP_CONTEXT_MAGIC" by auto
    have free: "ctx_id (context_slots c ! i) = 0" "\<forall>j < i. ctx_id (context_slots c ! j) \<noteq> 0"
      using first_free_context_spec [of 0 "context_slots c" i] i False ok by auto
    have "contexts_ok pl c'"
      using c' lk p ok False by (auto simp: contexts_ok_def tls_available_def nth_list_update)
    moreover have "context_used c' = (context_used c)(i := (r \<noteq> None))"
      using p ok False magic_nonzero(1) [of i]
      by (auto simp: fun_eq_iff context_used_slots s' nth_list_update)
    moreover have "\<not> context_used c i" "\<forall>j < i. context_used c j"
      using free False by (simp_all add: context_used_slots)
    ultimately show ?thesis using p(2) False by (auto simp: fun_eq_iff)
  qed
qed

lemma release_context:
  assumes "contexts_ok pl c" "i < 64"
  shows "\<exists>c'. pp_releaseContext pl (of_nat i + PP_CONTEXT_MAGIC) c = Inr c' \<and> contexts_ok pl c' \<and>
    context_used c' = (context_used c)(i := False)"
proof (cases "pp_context_array c")
  case None
  with assms show ?thesis by (auto simp: pp_releaseContext_def contexts_ok_def context_used_def fun_eq_iff)
next
  case (Some arr)
  then have len: "length arr = 64" using assms by (simp add: contexts_ok_def)
  let ?c = "set_context i ((arr ! i)\<lparr>ctx_id := 0\<rparr>) c"
  have "pp_releaseContext pl (of_nat i + PP_CONTEXT_MAGIC) c = Inr ?c"
    using assms Some len by (simp add: pp_releaseContext_def contexts_ok_def unat_of_nat)
  moreover have "contexts_ok pl ?c"
    using assms Some len by (auto simp: contexts_ok_def set_context_def nth_list_update tls_available_def)
  moreover have "context_used ?c = (context_used c)(i := False)"
    using assms(2) Some len by (auto simp: context_used_def set_context_def nth_list_update fun_eq_iff)
  ultimately show ?thesis by blast
qed

interpretation contexts: slot_table "pp_findContext pl" "\<lambda>_ :: unit. pp_createContext pl"
    "pp_releaseContext pl" "contexts_ok pl" context_used "\<lambda>i. of_nat i + PP_CONTEXT_MAGIC"
proof (unfold_locales, goal_cases)
  case (1 c i)
  then show ?case by (simp add: context_used_slots)
next
  case (2 c i)
  then show ?case
    by (auto simp: pp_findContext_def contexts_ok_def context_used_def unat_of_nat Let_def
        split: option.splits)
next
  case (3 c h i)
  then show ?case
    using magic_handle [of h PP_CONTEXT_MAGIC i] by (auto simp: find_context_Inr context_used_def)
next
  case (4 c a i c')
  then show ?case using createContext_slots [of pl c "Some i" c'] by simp
next
  case (5 c a c')
  then show ?case using createContext_slots [of pl c None c'] by simp
next
  case (6 c a r c')
  then show ?case using createContext_slots [of pl c r c'] by (cases r) auto
next
  case (7 c i)
  then show ?case by (simp add: release_context)
qed

end
