(* ===== verification/Exchange.thy ===== *)
theory Exchange
  imports Tables
begin

text \<open>
  \<open>pp_exchangeMsg\<close> of \<open>src/src/client/client.c\<close>: the choice of the server's address from the
  environment or the login records, the connection and its TLS session on the first message of
  a context, and the exchange of one request for one answer.
\<close>

section \<open>Library functions\<close>

definition isspace :: "char \<Rightarrow> bool" where
  "isspace ch \<longleftrightarrow> (let n = of_char ch :: nat in n = 32 \<or> 9 \<le> n \<and> n \<le> 13)"

definition isdigit :: "char \<Rightarrow> bool" where
  "isdigit ch \<longleftrightarrow> (let n = of_char ch :: nat in 48 \<le> n \<and> n \<le> 57)"

definition digits_value :: "string \<Rightarrow> int" where
  "digits_value s = foldl (\<lambda>v d. 10 * v + (of_char d - 48)) 0 s"

text \<open>\<open>atoi\<close>: the value of \<open>strtol\<close>, clipped to a \<open>long\<close>, converted to \<open>int\<close>.\<close>

definition atoi :: "string \<Rightarrow> int" where
  "atoi s =
     (let s = dropWhile isspace s;
        (neg, s) = (case s of
            [] \<Rightarrow> (False, s)
          | ch # t \<Rightarrow> if ch = CHR ''-'' then (True, t) else if ch = CHR ''+'' then (False, t)
                     else (False, s));
        v = digits_value (takeWhile isdigit s);
        l = (if neg then max (- v) (- (2 ^ 63)) else min v (2 ^ 63 - 1))
      in signed_take_bit 31 l)"

section \<open>The address of the server\<close>

definition PP_TCP_PORT :: int where
  "PP_TCP_PORT = 3030"

definition USER_PROCESS :: int where
  "USER_PROCESS = 7"

definition set_env :: "string option \<Rightarrow> string option" where
  "set_env s = (case s of Some (ch # t) \<Rightarrow> Some (ch # t) | _ \<Rightarrow> None)"

text \<open>\<open>strncpy\<close> into an array of 256 characters that is then closed with a zero.\<close>

definition copy256 :: "string \<Rightarrow> string" where
  "copy256 s = take 255 s"

definition controlling_terminal :: "'w platform \<Rightarrow> string option" where
  "controlling_terminal pl =
     (case ttyname pl 0 of Some t \<Rightarrow> Some t
      | None \<Rightarrow> (case ttyname pl 1 of Some t \<Rightarrow> Some t | None \<Rightarrow> ttyname pl 2))"

text \<open>The host of the login on this terminal; a short terminal name leaves \<open>terminal\<close> unset.\<close>

definition login_host :: "'w platform \<Rightarrow> string option" where
  "login_host pl =
     (case controlling_terminal pl of
        None \<Rightarrow> None
      | Some tty \<Rightarrow>
          let terminal = (if 4 < length tty then copy256 (drop 5 tty) else copy256 (u_terminal pl))
          in (case List.find (\<lambda>u. ut_type u = USER_PROCESS \<and> ut_line u \<noteq> [] \<and>
                     strcaseeq (ut_line u) terminal) (utmp_records pl) of
                None \<Rightarrow> None
              | Some u \<Rightarrow> if ut_host u = [] then None else Some (copy256 (ut_host u))))"

definition server_address :: "'w platform \<Rightarrow> (string \<times> int) option" where
  "server_address pl =
     (case set_env (getenv pl ''PCSC_SERVER'') of
        Some s \<Rightarrow>
          Some (copy256 s,
            case set_env (getenv pl ''PCSC_PORT'') of Some p \<Rightarrow> atoi p | None \<Rightarrow> PP_TCP_PORT)
      | None \<Rightarrow> (case login_host pl of None \<Rightarrow> None | Some h \<Rightarrow> Some (h, PP_TCP_PORT)))"

definition server_family :: "'w platform \<Rightarrow> family" where
  "server_family pl =
     (case set_env (getenv pl ''PCSC_FAMILY'') of
        None \<Rightarrow> AF_INET
      | Some s \<Rightarrow>
          if hd s = CHR ''4'' then AF_INET
          else if hd s = CHR ''6'' then AF_INET6
          else if hd s = CHR ''b'' then AF_BLUETOOTH
          else if hd s = CHR ''u'' then AF_UNIX
          else AF_INET)"

section \<open>The exchange\<close>

text \<open>The slots the pointers \<open>ctx\<close> and \<open>card\<close> of the code point to.\<close>

definition get_context :: "nat \<Rightarrow> 'w client \<Rightarrow> PP_CLIENT_CONTEXT outcome" where
  "get_context i c =
     (case pp_context_array c of
        None \<Rightarrow> Inl NullPointer
      | Some arr \<Rightarrow> if i < length arr then Inr (arr ! i) else Inl OutOfBounds)"

definition get_card :: "nat \<Rightarrow> 'w client \<Rightarrow> PP_CARD_CONTEXT outcome" where
  "get_card i c =
     (case pp_card_array c of
        None \<Rightarrow> Inl NullPointer
      | Some arr \<Rightarrow> if i < length arr then Inr (arr ! i) else Inl OutOfBounds)"

definition tls_ops :: "'w platform \<Rightarrow> 'w client \<Rightarrow> 'w tlsopts outcome" where
  "tls_ops pl c =
     (case g_tlsopts c of None \<Rightarrow> Inl NullPointer | Some k \<Rightarrow> Inr (tls_table pl k))"

text \<open>
  The connection: the result code, and the client with the session in the slot.  The result of
  \<open>pp_netopts_init\<close> is not looked at, so that an unsupported family uses the table of the last
  call, or NULL.
\<close>

definition connect_context :: "'w platform \<Rightarrow> nat \<Rightarrow> 'w client \<Rightarrow> (int \<times> 'w client) outcome" where
  "connect_context pl i c =
     (case server_address pl of
        None \<Rightarrow> Inr (-1, c)
      | Some (hostname, port) \<Rightarrow>
          let (_, k) = pp_netopts_init (build_options pl) (server_family pl);
            c = (case k of None \<Rightarrow> c | Some k \<Rightarrow> c\<lparr>g_opts := Some k\<rparr>)
          in (case g_opts c of
                None \<Rightarrow> Inl NullPointer
              | Some k \<Rightarrow>
                  bindo (net_connect pl k hostname port (world c)) (\<lambda>(rv, w).
                    let c = c\<lparr>world := w\<rparr> in
                    if rv < 0 then Inr (rv, c)
                    else
                      let sock = rv in
                      bindo (tls_ops pl c) (\<lambda>ops.
                      bindo (get_context i c) (\<lambda>p.
                      bindo (init_client_session ops (tlsContext p) sock (world c)) (\<lambda>(rv, q, w).
                        let c = c\<lparr>world := w\<rparr>;
                          c = (if q = None then c else set_context i (p\<lparr>tlsSession := q\<rparr>) c)
                        in if rv < 0 then Inr (rv, c\<lparr>world := close_fd pl sock (world c)\<rparr>)
                           else Inr (0, c)))))))"

definition exchange_on :: "'w platform \<Rightarrow> ptr \<Rightarrow> buffer \<Rightarrow> 'w client \<Rightarrow>
    (int \<times> buffer \<times> 'w client) outcome" where
  "exchange_on pl session msg c =
     bindo (tls_ops pl c) (\<lambda>ops.
     bindo (tls_send ops session msg (world c)) (\<lambda>(rv, w).
       if rv < 0 then Inr (rv, msg, c\<lparr>world := w\<rparr>)
       else
         bindo (tls_recv ops session msg w) (\<lambda>(rv, msg, w).
           if rv < 0 then Inr (rv, msg, c\<lparr>world := w\<rparr>) else Inr (0, msg, c\<lparr>world := w\<rparr>))))"

definition pp_exchangeMsg :: "'w platform \<Rightarrow> nat \<Rightarrow> buffer \<Rightarrow> 'w client \<Rightarrow>
    (int \<times> buffer \<times> 'w client) outcome" where
  "pp_exchangeMsg pl i msg c =
     bindo (get_context i c) (\<lambda>p.
       if tlsSession p \<noteq> None then exchange_on pl (tlsSession p) msg c
       else if msg_type msg \<noteq> command_code SCARD_ESTABLISH_CONTEXT then Inr (-1, msg, c)
       else
         bindo (connect_context pl i c) (\<lambda>(rv, c).
           if rv < 0 then Inr (rv, msg, c)
           else bindo (get_context i c) (\<lambda>p. exchange_on pl (tlsSession p) msg c)))"

end
