(* ===== verification/Client.thy ===== *)
theory Client
  imports Exchange
begin

text \<open>
  The PC/SC functions the client library \<open>src/src/client/client.c\<close> exports.  A pointer argument
  is the value or the buffer it points to, \<open>None\<close> for NULL, and is returned as it is left;
  pointers given in one call are taken not to overlap.  A buffer of the application is a list of
  bytes whose length is its capacity: a \<open>memmove\<close> that does not fit is a fault.  A string is
  the list of its bytes before the terminating zero.
\<close>

section \<open>Common steps\<close>

text \<open>A zeroed message buffer with its header filled in.\<close>

definition request :: "message_commands \<Rightarrow> nat \<Rightarrow> buffer" where
  "request cmd n = set_msg_len (of_nat n) (set_msg_type (command_code cmd) zeros)"

definition strncpy :: "nat \<Rightarrow> u8 list \<Rightarrow> nat \<Rightarrow> buffer \<Rightarrow> buffer" where
  "strncpy off s n m = blit off (take n s @ replicate (n - length s) 0) m"

text \<open>\<open>memmove\<close> to and from a buffer of the application.\<close>

definition copy_to_app :: "u8 list \<Rightarrow> u8 list option \<Rightarrow> u8 list option outcome" where
  "copy_to_app bs dst =
     (if bs = [] then Inr dst
      else
        (case dst of
           None \<Rightarrow> Inl NullPointer
         | Some d \<Rightarrow>
             if length bs \<le> length d then Inr (Some (bs @ drop (length bs) d)) else Inl OutOfBounds))"

definition app_bytes :: "nat \<Rightarrow> u8 list option \<Rightarrow> u8 list outcome" where
  "app_bytes n src =
     (if n = 0 then Inr []
      else
        (case src of
           None \<Rightarrow> Inl NullPointer
         | Some bs \<Rightarrow> if n \<le> length bs then Inr (take n bs) else Inl OutOfBounds))"

text \<open>\<open>pp_exchangeMsg(card->clientContext, msg)\<close>.\<close>

definition card_exchange :: "'w platform \<Rightarrow> PP_CARD_CONTEXT \<Rightarrow> buffer \<Rightarrow> 'w client \<Rightarrow>
    (int \<times> buffer \<times> 'w client) outcome" where
  "card_exchange pl cd m c =
     (case clientContext cd of None \<Rightarrow> Inl NullPointer | Some i \<Rightarrow> pp_exchangeMsg pl i m c)"

section \<open>Contexts\<close>

definition SCardEstablishContext :: "'w platform \<Rightarrow> u64 \<Rightarrow> 'w client \<Rightarrow>
    (u64 \<times> u64 option \<times> 'w client) outcome" where
  "SCardEstablishContext pl dwScope c =
     bindo (pp_createContext pl c) (\<lambda>(ctx, c).
       case ctx of
         None \<Rightarrow> Inr (SCARD_F_INTERNAL_ERROR, None, c)
       | Some i \<Rightarrow>
           let m = request SCARD_ESTABLISH_CONTEXT (PP_MSG_SIZE s_establish);
             m = putf s_establish F_dwScope (ucast dwScope) m
           in bindo (pp_exchangeMsg pl i m c) (\<lambda>(rv, m, c).
              bindo (get_context i c) (\<lambda>p.
                if rv < 0 then
                  bindo (pp_releaseContext pl (ctx_id p) c)
                    (\<lambda>c. Inr (SCARD_F_INTERNAL_ERROR, None, c))
                else if ucast (getf s_establish F_rv m) = SCARD_S_SUCCESS then
                  let c = set_context i (p\<lparr>pcScContext := getf s_establish F_hContext m\<rparr>) c
                  in Inr (ucast (getf s_establish F_rv m), Some (ucast (ctx_id p)), c)
                else
                  bindo (pp_releaseContext pl (ctx_id p) c)
                    (\<lambda>c. Inr (ucast (getf s_establish F_rv m), None, c)))))"

definition SCardReleaseContext :: "'w platform \<Rightarrow> u64 \<Rightarrow> 'w client \<Rightarrow> (u64 \<times> 'w client) outcome" where
  "SCardReleaseContext pl hContext c =
     bindo (pp_findContext pl (ucast hContext) c) (\<lambda>ctx.
       case ctx of
         None \<Rightarrow> Inr (SCARD_F_INTERNAL_ERROR, c)
       | Some i \<Rightarrow>
           bindo (get_context i c) (\<lambda>p.
           let m = request SCARD_RELEASE_CONTEXT (PP_MSG_SIZE s_release);
             m = putf s_release F_hContext (pcScContext p) m
           in bindo (pp_exchangeMsg pl i m c) (\<lambda>(rv, m, c).
              bindo (tls_ops pl c) (\<lambda>ops.
              bindo (get_context i c) (\<lambda>p.
              bindo (get_socket ops (tlsSession p) (world c)) (\<lambda>sock.
              bindo (fini_client_session ops (tlsContext p) (tlsSession p) (world c)) (\<lambda>(_, w).
              let p = p\<lparr>tlsSession := None\<rparr>;
                w = close_fd pl sock w
              in bindo (fini_client ops (tlsContext p) w) (\<lambda>(_, w).
                 let p = p\<lparr>tlsContext := None\<rparr>;
                   c = set_context i p (c\<lparr>world := w\<rparr>)
                 in bindo (pp_releaseContext pl (ctx_id p) c) (\<lambda>c.
                    if rv < 0 then Inr (SCARD_F_INTERNAL_ERROR, c)
                    else Inr (ucast (getf s_release F_rv m), c))))))))))"

definition SCardIsValidContext :: "'w platform \<Rightarrow> u64 \<Rightarrow> 'w client \<Rightarrow> (u64 \<times> 'w client) outcome" where
  "SCardIsValidContext pl hContext c =
     bindo (pp_findContext pl (ucast hContext) c) (\<lambda>ctx.
       case ctx of
         None \<Rightarrow> Inr (SCARD_F_INTERNAL_ERROR, c)
       | Some i \<Rightarrow>
           bindo (get_context i c) (\<lambda>p.
           let m = request SCARD_ISVALIDCONTEXT (PP_MSG_SIZE s_isvalid);
             m = putf s_isvalid F_hContext (pcScContext p) m
           in bindo (pp_exchangeMsg pl i m c) (\<lambda>(rv, m, c).
              if rv < 0 then Inr (SCARD_F_INTERNAL_ERROR, c)
              else Inr (ucast (getf s_isvalid F_rv m), c))))"

definition SCardSetTimeout :: "'w platform \<Rightarrow> u64 \<Rightarrow> u64 \<Rightarrow> 'w client \<Rightarrow> (u64 \<times> 'w client) outcome" where
  "SCardSetTimeout pl hContext dwTimeout c =
     bindo (pp_findContext pl (ucast hContext) c) (\<lambda>ctx.
       case ctx of
         None \<Rightarrow> Inr (SCARD_F_INTERNAL_ERROR, c)
       | Some i \<Rightarrow>
           bindo (get_context i c) (\<lambda>p.
           let m = request SCARD_SETTIMEOUT (PP_MSG_SIZE s_settimeout);
             m = putf s_settimeout F_hContext (pcScContext p) m;
             m = putf s_settimeout F_dwTimeout (ucast dwTimeout) m
           in bindo (pp_exchangeMsg pl i m c) (\<lambda>(rv, m, c).
              if rv < 0 then Inr (SCARD_F_INTERNAL_ERROR, c)
              else Inr (ucast (getf s_settimeout F_rv m), c))))"

section \<open>Cards\<close>

text \<open>The second component: the values stored through \<open>phCard\<close> and \<open>pdwActiveProtocol\<close>.\<close>

definition SCardConnect :: "'w platform \<Rightarrow> u64 \<Rightarrow> u8 list option \<Rightarrow> u64 \<Rightarrow> u64 \<Rightarrow> 'w client \<Rightarrow>
    (u64 \<times> (u64 \<times> u64) option \<times> 'w client) outcome" where
  "SCardConnect pl hContext readerName dwShareMode dwPreferredProtocols c =
     (case readerName of
        None \<Rightarrow> Inl NullPointer
      | Some reader \<Rightarrow>
          if MAX_READERNAME \<le> length reader then Inr (SCARD_E_INVALID_VALUE, None, c)
          else
            bindo (pp_findContext pl (ucast hContext) c) (\<lambda>ctx.
              case ctx of
                None \<Rightarrow> Inr (SCARD_F_INTERNAL_ERROR, None, c)
              | Some i \<Rightarrow>
                  bindo (pp_createCard pl i c) (\<lambda>(card, c).
                    case card of
                      None \<Rightarrow> Inr (SCARD_F_INTERNAL_ERROR, None, c)
                    | Some k \<Rightarrow>
                        bindo (get_context i c) (\<lambda>p.
                        let m = request SCARD_CONNECT (PP_MSG_SIZE s_connect);
                          m = putf s_connect F_hContext (pcScContext p) m;
                          m = strncpy (fld s_connect F_szReader) reader (MAX_READERNAME - 1) m;
                          m = m(fld s_connect F_szReader + (MAX_READERNAME - 1) := 0);
                          m = putf s_connect F_dwShareMode (ucast dwShareMode) m;
                          m = putf s_connect F_dwPreferredProtocols (ucast dwPreferredProtocols) m
                        in bindo (pp_exchangeMsg pl i m c) (\<lambda>(rv, m, c).
                           bindo (get_card k c) (\<lambda>cd.
                             if rv < 0 then
                               bindo (pp_releaseCard pl (card_id cd) c)
                                 (\<lambda>c. Inr (SCARD_F_INTERNAL_ERROR, None, c))
                             else if ucast (getf s_connect F_rv m) = SCARD_S_SUCCESS then
                               let c = set_card k (cd\<lparr>pcScHandle := getf s_connect F_hCard m\<rparr>) c
                               in Inr (ucast (getf s_connect F_rv m),
                                    Some (ucast (card_id cd),
                                          ucast (getf s_connect F_dwActiveProtocol m)), c)
                             else
                               bindo (pp_releaseCard pl (card_id cd) c)
                                 (\<lambda>c. Inr (ucast (getf s_connect F_rv m), None, c))))))))"

definition SCardReconnect :: "'w platform \<Rightarrow> u64 \<Rightarrow> u64 \<Rightarrow> u64 \<Rightarrow> u64 \<Rightarrow> 'w client \<Rightarrow>
    (u64 \<times> u64 option \<times> 'w client) outcome" where
  "SCardReconnect pl hCard dwShareMode dwPreferredProtocols dwInitialization c =
     bindo (pp_findCard pl (ucast hCard) c) (\<lambda>card.
       case card of
         None \<Rightarrow> Inr (SCARD_E_INVALID_VALUE, None, c)
       | Some k \<Rightarrow>
           bindo (get_card k c) (\<lambda>cd.
           let m = request SCARD_RECONNECT (PP_MSG_SIZE s_reconnect);
             m = putf s_reconnect F_hCard (pcScHandle cd) m;
             m = putf s_reconnect F_dwShareMode (ucast dwShareMode) m;
             m = putf s_reconnect F_dwPreferredProtocols (ucast dwPreferredProtocols) m;
             m = putf s_reconnect F_dwInitialization (ucast dwInitialization) m
           in bindo (card_exchange pl cd m c) (\<lambda>(rv, m, c).
              if rv < 0 then Inr (SCARD_F_INTERNAL_ERROR, None, c)
              else Inr (ucast (getf s_reconnect F_rv m),
                        Some (ucast (getf s_reconnect F_dwActiveProtocol m)), c))))"

definition SCardDisconnect :: "'w platform \<Rightarrow> u64 \<Rightarrow> u64 \<Rightarrow> 'w client \<Rightarrow> (u64 \<times> 'w client) outcome" where
  "SCardDisconnect pl hCard dwDisposition c =
     bindo (pp_findCard pl (ucast hCard) c) (\<lambda>card.
       case card of
         None \<Rightarrow> Inr (SCARD_E_INVALID_VALUE, c)
       | Some k \<Rightarrow>
           bindo (get_card k c) (\<lambda>cd.
           let m = request SCARD_DISCONNECT (PP_MSG_SIZE s_disconnect);
             m = putf s_disconnect F_hCard (pcScHandle cd) m;
             m = putf s_disconnect F_dwDisposition (ucast dwDisposition) m
           in bindo (card_exchange pl cd m c) (\<lambda>(rv, m, c).
              if rv < 0 then Inr (SCARD_F_INTERNAL_ERROR, c)
              else Inr (ucast (getf s_disconnect F_rv m), c))))"

definition SCardBeginTransaction :: "'w platform \<Rightarrow> u64 \<Rightarrow> 'w client \<Rightarrow> (u64 \<times> 'w client) outcome" where
  "SCardBeginTransaction pl hCard c =
     bindo (pp_findCard pl (ucast hCard) c) (\<lambda>card.
       case card of
         None \<Rightarrow> Inr (SCARD_E_INVALID_VALUE, c)
       | Some k \<Rightarrow>
           bindo (get_card k c) (\<lambda>cd.
           let m = request SCARD_BEGIN_TRANSACTION (PP_MSG_SIZE s_begin);
             m = putf s_begin F_hCard (pcScHandle cd) m
           in bindo (card_exchange pl cd m c) (\<lambda>(rv, m, c).
              if rv < 0 then Inr (SCARD_F_INTERNAL_ERROR, c)
              else Inr (ucast (getf s_begin F_rv m), c))))"

definition SCardEndTransaction :: "'w platform \<Rightarrow> u64 \<Rightarrow> u64 \<Rightarrow> 'w client \<Rightarrow> (u64 \<times> 'w client) outcome" where
  "SCardEndTransaction pl hCard dwDisposition c =
     bindo (pp_findCard pl (ucast hCard) c) (\<lambda>card.
       case card of
         None \<Rightarrow> Inr (SCARD_E_INVALID_VALUE, c)
       | Some k \<Rightarrow>
           bindo (get_card k c) (\<lambda>cd.
           let m = request SCARD_END_TRANSACTION (PP_MSG_SIZE s_end);
             m = putf s_end F_hCard (pcScHandle cd) m;
             m = putf s_end F_dwDisposition (ucast dwDisposition) m
           in bindo (card_exchange pl cd m c) (\<lambda>(rv, m, c).
              if rv < 0 then Inr (SCARD_F_INTERNAL_ERROR, c)
              else Inr (ucast (getf s_end F_rv m), c))))"

definition SCardCancelTransaction :: "'w platform \<Rightarrow> u64 \<Rightarrow> 'w client \<Rightarrow> (u64 \<times> 'w client) outcome" where
  "SCardCancelTransaction pl hCard c =
     bindo (pp_findCard pl (ucast hCard) c) (\<lambda>card.
       case card of
         None \<Rightarrow> Inr (SCARD_E_INVALID_VALUE, c)
       | Some k \<Rightarrow>
           bindo (get_card k c) (\<lambda>cd.
           let m = request SCARD_CANCEL_TRANSACTION (PP_MSG_SIZE s_cancel);
             m = putf s_cancel F_hCard (pcScHandle cd) m
           in bindo (card_exchange pl cd m c) (\<lambda>(rv, m, c).
              if rv < 0 then Inr (SCARD_F_INTERNAL_ERROR, c)
              else Inr (ucast (getf s_cancel F_rv m), c))))"

text \<open>The handle sent is the application's own, not the server's.\<close>

definition SCardCancel :: "'w platform \<Rightarrow> u64 \<Rightarrow> 'w client \<Rightarrow> (u64 \<times> 'w client) outcome" where
  "SCardCancel pl hCard c =
     bindo (pp_findCard pl (ucast hCard) c) (\<lambda>card.
       case card of
         None \<Rightarrow> Inr (SCARD_E_INVALID_VALUE, c)
       | Some k \<Rightarrow>
           bindo (get_card k c) (\<lambda>cd.
           let m = request SCARD_CANCEL (PP_MSG_SIZE s_cancel);
             m = putf s_cancel F_hCard (ucast hCard) m
           in bindo (card_exchange pl cd m c) (\<lambda>(rv, m, c).
              if rv < 0 then Inr (SCARD_F_INTERNAL_ERROR, c)
              else Inr (ucast (getf s_cancel F_rv m), c))))"

section \<open>Status and status changes\<close>

record status_args =
  a_mszReaderName :: "u8 list option"
  a_pcchReaderLen :: "u64 option"
  a_pdwState :: "u64 option"
  a_pdwProtocol :: "u64 option"
  a_pbAtr :: "u8 list option"
  a_pcbAtrLen :: "u64 option"

text \<open>
  The stores after the exchange.  The reader length is checked against the message's array, the
  name is copied when it fits, then the same for the ATR.
\<close>

definition status_reply :: "buffer \<Rightarrow> u64 \<Rightarrow> u64 \<Rightarrow> status_args \<Rightarrow> (u64 \<times> status_args) outcome" where
  "status_reply m readerLen atrLen a =
     (let a = a\<lparr>a_pdwState := map_option (\<lambda>_. ucast (getf s_status F_dwState m)) (a_pdwState a),
               a_pdwProtocol := map_option (\<lambda>_. ucast (getf s_status F_dwProtocol m)) (a_pdwProtocol a)\<rparr>;
        n = getf s_status F_pcchReaderLen m
      in if MAX_READERNAME < unat n then Inr (SCARD_F_INTERNAL_ERROR, a)
         else
           bindo (if n \<noteq> 0 \<and> ucast n \<le> readerLen
                  then copy_to_app (bytes (fld s_status F_mszReaderName) (unat n) m) (a_mszReaderName a)
                  else Inr (a_mszReaderName a)) (\<lambda>name.
           let a = a\<lparr>a_mszReaderName := name, a_pcchReaderLen := Some (ucast n)\<rparr>;
             k = getf s_status F_pcbAtrLen m
           in if MAX_ATR_SIZE < unat k then Inr (SCARD_F_INTERNAL_ERROR, a)
              else
                bindo (if k \<noteq> 0 \<and> ucast k \<le> atrLen
                       then copy_to_app (bytes (fld s_status F_pbAtr) (unat k) m) (a_pbAtr a)
                       else Inr (a_pbAtr a)) (\<lambda>atr.
                Inr (ucast (getf s_status F_rv m),
                     a\<lparr>a_pbAtr := atr, a_pcbAtrLen := Some (ucast k)\<rparr>))))"

definition SCardStatus :: "'w platform \<Rightarrow> u64 \<Rightarrow> status_args \<Rightarrow> 'w client \<Rightarrow>
    (u64 \<times> status_args \<times> 'w client) outcome" where
  "SCardStatus pl hCard a c =
     bindo (pp_findCard pl (ucast hCard) c) (\<lambda>card.
       case card of
         None \<Rightarrow> Inr (SCARD_E_INVALID_VALUE, a, c)
       | Some k \<Rightarrow>
           (case a_pcchReaderLen a of
              None \<Rightarrow> Inr (SCARD_E_INVALID_VALUE, a, c)
            | Some readerLen \<Rightarrow>
                if readerLen = SCARD_AUTOALLOCATE then Inr (SCARD_F_INTERNAL_ERROR, a, c)
                else
                  (case a_pcbAtrLen a of
                     None \<Rightarrow> Inr (SCARD_E_INVALID_VALUE, a, c)
                   | Some atrLen \<Rightarrow>
                       if atrLen = SCARD_AUTOALLOCATE then Inr (SCARD_F_INTERNAL_ERROR, a, c)
                       else
                         bindo (get_card k c) (\<lambda>cd.
                         let m = request SCARD_STATUS (PP_MSG_SIZE s_status);
                           m = putf s_status F_hCard (pcScHandle cd) m;
                           n = ucast readerLen :: u32;
                           n = (if of_nat MAX_READERNAME < n then of_nat MAX_READERNAME else n);
                           m = putf s_status F_pcchReaderLen n m;
                           l = ucast atrLen :: u32;
                           l = (if of_nat MAX_ATR_SIZE < l then of_nat MAX_ATR_SIZE else l);
                           m = putf s_status F_pcbAtrLen l m
                         in bindo (card_exchange pl cd m c) (\<lambda>(rv, m, c).
                            if rv < 0 then Inr (SCARD_F_INTERNAL_ERROR, a, c)
                            else
                              bindo (status_reply m readerLen atrLen a)
                                (\<lambda>(res, a). Inr (res, a, c)))))))"

text \<open>One reader state of the application copied to the message, at offset \<open>base\<close>.\<close>

definition pack_readerstate :: "nat \<Rightarrow> SCARD_READERSTATE \<Rightarrow> buffer \<Rightarrow> buffer outcome" where
  "pack_readerstate base r m =
     (if PP_MAX_MESSAGE_LEN < base + sizeof s_readerstate then Inl OutOfBounds
      else
        let m = (case szReader r of
                   None \<Rightarrow> m | Some name \<Rightarrow> strncpy base name (MAX_READERNAME - 1) m);
          m = put32 (base + field_off F_dwCurrentState s_readerstate) (ucast (dwCurrentState r)) m;
          m = put32 (base + field_off F_dwEventState s_readerstate) (ucast (dwEventState r)) m;
          cb = ucast (cbAtr r) :: u32;
          cb = (if of_nat MAX_ATR_SIZE < cb then of_nat MAX_ATR_SIZE else cb);
          m = put32 (base + field_off F_cbAtrLen s_readerstate) cb m
        in Inr (blit (base + field_off F_pbAtr s_readerstate) (take (unat cb) (rgbAtr r)) m))"

fun pack_readerstates :: "nat \<Rightarrow> nat \<Rightarrow> SCARD_READERSTATE list \<Rightarrow> buffer \<Rightarrow> buffer outcome" where
  "pack_readerstates 0 base rs m = Inr m"
| "pack_readerstates (Suc n) base [] m = Inl OutOfBounds"
| "pack_readerstates (Suc n) base (r # rs) m =
     bindo (pack_readerstate base r m) (\<lambda>m.
       pack_readerstates n (base + sizeof s_readerstate) rs
         (set_msg_len (msg_len m + of_nat (sizeof s_readerstate)) m))"

definition unpack_readerstate :: "nat \<Rightarrow> buffer \<Rightarrow> SCARD_READERSTATE \<Rightarrow> SCARD_READERSTATE" where
  "unpack_readerstate base m r =
     (let cb = ucast (get32 (base + field_off F_cbAtrLen s_readerstate) m) :: u64;
        cb = (if of_nat MAX_ATR_SIZE < cb then of_nat MAX_ATR_SIZE else cb)
      in r\<lparr>dwCurrentState := ucast (get32 (base + field_off F_dwCurrentState s_readerstate) m),
           dwEventState := ucast (get32 (base + field_off F_dwEventState s_readerstate) m),
           cbAtr := cb,
           rgbAtr := bytes (base + field_off F_pbAtr s_readerstate) (unat cb) m @
             drop (unat cb) (rgbAtr r)\<rparr>)"

fun unpack_readerstates :: "nat \<Rightarrow> nat \<Rightarrow> buffer \<Rightarrow> SCARD_READERSTATE list \<Rightarrow>
    SCARD_READERSTATE list" where
  "unpack_readerstates (Suc n) base m (r # rs) =
     unpack_readerstate base m r # unpack_readerstates n (base + sizeof s_readerstate) m rs"
| "unpack_readerstates _ base m rs = rs"

text \<open>Only room for the first reader state is checked for.\<close>

definition SCardGetStatusChange :: "'w platform \<Rightarrow> u64 \<Rightarrow> u64 \<Rightarrow> SCARD_READERSTATE list option \<Rightarrow> u64 \<Rightarrow>
    'w client \<Rightarrow> (u64 \<times> SCARD_READERSTATE list option \<times> 'w client) outcome" where
  "SCardGetStatusChange pl hContext dwTimeout rgReaderStates cReaders c =
     bindo (pp_findContext pl (ucast hContext) c) (\<lambda>ctx.
       case ctx of
         None \<Rightarrow> Inr (SCARD_F_INTERNAL_ERROR, rgReaderStates, c)
       | Some i \<Rightarrow>
           bindo (get_context i c) (\<lambda>p.
           let base = fld s_getstatuschange F_readerStates;
             m = request SCARD_GET_STATUS_CHANGE
                   (PP_MSG_SIZE s_getstatuschange - sizeof s_readerstate);
             m = putf s_getstatuschange F_hContext (pcScContext p) m;
             m = putf s_getstatuschange F_dwTimeout (ucast dwTimeout) m;
             m = putf s_getstatuschange F_cReaders (ucast cReaders) m
           in if cReaders \<noteq> 0 \<and> PP_MAX_MESSAGE_LEN < unat (msg_len m) + sizeof s_readerstate
              then Inr (SCARD_F_INTERNAL_ERROR, rgReaderStates, c)
              else
                bindo (if cReaders = 0 then Inr m
                       else
                         (case rgReaderStates of
                            None \<Rightarrow> Inl NullPointer
                          | Some rs \<Rightarrow> pack_readerstates (unat cReaders) base rs m)) (\<lambda>m.
                bindo (pp_exchangeMsg pl i m c) (\<lambda>(rv, m, c).
                  if rv < 0 then Inr (SCARD_F_INTERNAL_ERROR, rgReaderStates, c)
                  else
                    Inr (ucast (getf s_getstatuschange F_rv m),
                      map_option (unpack_readerstates (unat cReaders) base m) rgReaderStates, c)))))"

section \<open>Control, transmission and attributes\<close>

text \<open>The second component: the receive buffer and the number stored through the last pointer.\<close>

definition SCardControl :: "'w platform \<Rightarrow> u64 \<Rightarrow> u64 \<Rightarrow> u8 list option \<Rightarrow> u64 \<Rightarrow> u8 list option \<Rightarrow> u64 \<Rightarrow>
    u64 option \<Rightarrow> 'w client \<Rightarrow> (u64 \<times> (u8 list option \<times> u64 option) \<times> 'w client) outcome" where
  "SCardControl pl hCard dwControlCode pbSendBuffer cbSendLength pbRecvBuffer cbRecvLength
      lpBytesReturned c =
     bindo (pp_findCard pl (ucast hCard) c) (\<lambda>card.
       case card of
         None \<Rightarrow> Inr (SCARD_E_INVALID_VALUE, (pbRecvBuffer, lpBytesReturned), c)
       | Some k \<Rightarrow>
           if of_nat PP_MAX_BUFFER_LEN < cbSendLength
           then Inr (SCARD_E_INVALID_VALUE, (pbRecvBuffer, lpBytesReturned), c)
           else
             bindo (get_card k c) (\<lambda>cd.
             let cbRecvLength = (if of_nat PP_MAX_BUFFER_LEN < cbRecvLength
                                 then of_nat PP_MAX_BUFFER_LEN else cbRecvLength);
               m = request SCARD_CONTROL (PP_MSG_SIZE s_control);
               m = putf s_control F_hCard (pcScHandle cd) m;
               m = putf s_control F_dwControlCode (ucast dwControlCode) m;
               m = putf s_control F_cbSendLength (ucast cbSendLength) m;
               m = putf s_control F_cbRecvLength (ucast cbRecvLength) m
             in bindo (if pbSendBuffer = None then Inr [] else app_bytes (unat cbSendLength) pbSendBuffer)
                  (\<lambda>input.
                let m = blit (fld s_control F_pbSendBuffer) input m
                in bindo (card_exchange pl cd m c) (\<lambda>(rv, m, c).
                   if rv < 0 then Inr (SCARD_F_INTERNAL_ERROR, (pbRecvBuffer, lpBytesReturned), c)
                   else
                     let n = getf s_control F_dwBytesReturned m
                     in bindo (if n \<noteq> 0 then read_bytes (fld s_control F_pbRecvBuffer) (unat n) m
                               else Inr []) (\<lambda>out.
                        bindo (copy_to_app out pbRecvBuffer) (\<lambda>recvBuffer.
                        Inr (ucast (getf s_control F_rv m),
                             (recvBuffer, map_option (\<lambda>_. ucast n) lpBytesReturned), c)))))))"

record transmit_args =
  t_pioRecvPci :: "SCARD_IO_REQUEST option"
  t_pbRecvBuffer :: "u8 list option"
  t_pcbRecvLength :: "u64 option"

text \<open>The checks and stores after the exchange of a transmit message.\<close>

definition transmit_reply :: "buffer \<Rightarrow> u64 \<Rightarrow> transmit_args \<Rightarrow> (u64 \<times> transmit_args) outcome" where
  "transmit_reply m recvLength a =
     (let n = getf s_transmit F_cbBufferLength m in
      if max_transmit < unat n then Inr (SCARD_F_INTERNAL_ERROR, a)
      else if recvLength < ucast n then Inr (SCARD_F_INTERNAL_ERROR, a)
      else
        let a = a\<lparr>t_pioRecvPci := map_option (\<lambda>_.
                  \<lparr>dwProtocol = ucast (getf s_transmit F_ioRecvPciProtocol m),
                   cbPciLength = ucast (getf s_transmit F_ioRecvPciLength m)\<rparr>) (t_pioRecvPci a)\<rparr>
        in bindo (if t_pbRecvBuffer a = None then Inr None
                  else copy_to_app (bytes (fld s_transmit F_pcbBuffer) (unat n) m) (t_pbRecvBuffer a))
             (\<lambda>recvBuffer.
                Inr (ucast (getf s_transmit F_rv m),
                     a\<lparr>t_pbRecvBuffer := recvBuffer, t_pcbRecvLength := Some (ucast n)\<rparr>)))"

definition SCardTransmit :: "'w platform \<Rightarrow> u64 \<Rightarrow> SCARD_IO_REQUEST option \<Rightarrow> u8 list option \<Rightarrow> u64 \<Rightarrow>
    transmit_args \<Rightarrow> 'w client \<Rightarrow> (u64 \<times> transmit_args \<times> 'w client) outcome" where
  "SCardTransmit pl hCard pioSendPci pbSendBuffer cbSendLength a c =
     bindo (pp_findCard pl (ucast hCard) c) (\<lambda>card.
       case card of
         None \<Rightarrow> Inr (SCARD_E_INVALID_VALUE, a, c)
       | Some k \<Rightarrow>
           if of_nat max_transmit < cbSendLength \<or> cbSendLength < 4
           then Inr (SCARD_E_INVALID_VALUE, a, c)
           else
             (case t_pcbRecvLength a of
                None \<Rightarrow> Inr (SCARD_E_INVALID_VALUE, a, c)
              | Some recvLength \<Rightarrow>
                  bindo (app_bytes (unat cbSendLength) pbSendBuffer) (\<lambda>input.
                  bindo (get_card k c) (\<lambda>cd.
                    case pioSendPci of
                      None \<Rightarrow> Inl NullPointer
                    | Some sendPci \<Rightarrow>
                        let m = request SCARD_TRANSMIT (PP_MSG_SIZE s_transmit + unat cbSendLength - 1);
                          m = putf s_transmit F_hCard (pcScHandle cd) m;
                          m = putf s_transmit F_ioSendPciProtocol (ucast (dwProtocol sendPci)) m;
                          m = putf s_transmit F_ioSendPciLength (ucast (cbPciLength sendPci)) m;
                          m = putf s_transmit F_cbBufferLength (ucast cbSendLength) m;
                          m = blit (fld s_transmit F_pcbBuffer) input m;
                          m = (case t_pioRecvPci a of
                                 None \<Rightarrow> m
                               | Some pci \<Rightarrow>
                                   putf s_transmit F_ioRecvPciLength (ucast (cbPciLength pci))
                                     (putf s_transmit F_ioRecvPciProtocol (ucast (dwProtocol pci)) m));
                          m = putf s_transmit F_pcbRecvLength (ucast recvLength) m
                        in bindo (card_exchange pl cd m c) (\<lambda>(rv, m, c).
                           if rv < 0 then Inr (SCARD_F_INTERNAL_ERROR, a, c)
                           else
                             bindo (transmit_reply m recvLength a) (\<lambda>(res, a). Inr (res, a, c)))))))"

definition SCardGetAttrib :: "'w platform \<Rightarrow> u64 \<Rightarrow> u64 \<Rightarrow> u8 list option \<Rightarrow> u64 option \<Rightarrow> 'w client \<Rightarrow>
    (u64 \<times> (u8 list option \<times> u64 option) \<times> 'w client) outcome" where
  "SCardGetAttrib pl hCard dwAttrId pbAttr pcbAttrLen c =
     bindo (pp_findCard pl (ucast hCard) c) (\<lambda>card.
       case card of
         None \<Rightarrow> Inr (SCARD_E_INVALID_VALUE, (pbAttr, pcbAttrLen), c)
       | Some k \<Rightarrow>
           if pcbAttrLen = Some SCARD_AUTOALLOCATE
           then Inr (SCARD_F_INTERNAL_ERROR, (pbAttr, pcbAttrLen), c)
           else
             bindo (get_card k c) (\<lambda>cd.
             let m = request SCARD_GET_ATTRIB (PP_MSG_SIZE s_getset);
               m = putf s_getset F_hCard (pcScHandle cd) m;
               m = putf s_getset F_dwAttrId (ucast dwAttrId) m;
               m = (case (pcbAttrLen, pbAttr) of
                      (Some n, Some _) \<Rightarrow>
                        putf s_getset F_cbAttrLen
                          (if of_nat PP_MAX_BUFFER_LEN < n then of_nat PP_MAX_BUFFER_LEN else ucast n) m
                    | _ \<Rightarrow> m)
             in bindo (card_exchange pl cd m c) (\<lambda>(rv, m, c).
                if rv < 0 then Inr (SCARD_F_INTERNAL_ERROR, (pbAttr, pcbAttrLen), c)
                else
                  let pcbAttrLen = map_option (\<lambda>_. ucast (getf s_getset F_cbAttrLen m)) pcbAttrLen;
                    rv = ucast (getf s_getset F_rv m)
                  in (case (pbAttr, pcbAttrLen) of
                        (Some _, Some n) \<Rightarrow>
                          let l = getf s_getset F_cbAttrLen m;
                            l = (if n < ucast l then ucast n else l)
                          in bindo (read_bytes (fld s_getset F_pbAttr) (unat l) m) (\<lambda>out.
                             bindo (copy_to_app out pbAttr) (\<lambda>attr.
                             Inr (rv, (attr, pcbAttrLen), c)))
                      | _ \<Rightarrow> Inr (rv, (pbAttr, pcbAttrLen), c)))))"

definition SCardSetAttrib :: "'w platform \<Rightarrow> u64 \<Rightarrow> u64 \<Rightarrow> u8 list option \<Rightarrow> u64 \<Rightarrow> 'w client \<Rightarrow>
    (u64 \<times> 'w client) outcome" where
  "SCardSetAttrib pl hCard dwAttrId pbAttr cbAttrLen c =
     bindo (pp_findCard pl (ucast hCard) c) (\<lambda>card.
       case card of
         None \<Rightarrow> Inr (SCARD_E_INVALID_VALUE, c)
       | Some k \<Rightarrow>
           if of_nat PP_MAX_BUFFER_LEN < cbAttrLen then Inr (SCARD_E_INVALID_VALUE, c)
           else
             bindo (get_card k c) (\<lambda>cd.
             let m = request SCARD_SET_ATTRIB (PP_MSG_SIZE s_getset);
               m = putf s_getset F_hCard (pcScHandle cd) m;
               m = putf s_getset F_dwAttrId (ucast dwAttrId) m
             in bindo (if cbAttrLen \<noteq> 0 \<and> pbAttr \<noteq> None then
                         bindo (app_bytes (unat cbAttrLen) pbAttr) (\<lambda>input.
                         Inr (blit (fld s_getset F_pbAttr) input
                               (putf s_getset F_cbAttrLen (ucast cbAttrLen) m)))
                       else Inr m) (\<lambda>m.
                bindo (card_exchange pl cd m c) (\<lambda>(rv, m, c).
                  if rv < 0 then Inr (SCARD_F_INTERNAL_ERROR, c)
                  else Inr (ucast (getf s_getset F_rv m), c)))))"

section \<open>Lists of readers and groups\<close>

text \<open>The length sent: an \<open>int\<close>, clipped to what a message can hold.\<close>

definition list_length :: "u64 \<Rightarrow> int \<Rightarrow> int" where
  "list_length n maxDataLength =
     (let dataLength = sint (ucast n :: u32)
      in if maxDataLength < dataLength then maxDataLength else dataLength)"

text \<open>When the application gives a buffer, the length is not stored through \<open>pcchReaders\<close>.\<close>

definition SCardListReaders :: "'w platform \<Rightarrow> u64 \<Rightarrow> u8 list option \<Rightarrow> u64 option \<Rightarrow> 'w client \<Rightarrow>
    (u64 \<times> (u8 list option \<times> u64 option) \<times> 'w client) outcome" where
  "SCardListReaders pl hContext mszReaders pcchReaders c =
     bindo (pp_findContext pl (ucast hContext) c) (\<lambda>ctx.
       case ctx of
         None \<Rightarrow> Inr (SCARD_F_INTERNAL_ERROR, (mszReaders, pcchReaders), c)
       | Some i \<Rightarrow>
           (case pcchReaders of
              None \<Rightarrow> Inr (SCARD_E_INVALID_VALUE, (mszReaders, pcchReaders), c)
            | Some len \<Rightarrow>
                if len = SCARD_AUTOALLOCATE
                then Inr (SCARD_F_INTERNAL_ERROR, (mszReaders, pcchReaders), c)
                else
                  bindo (get_context i c) (\<lambda>p.
                  let maxDataLength = int (PP_MAX_MESSAGE_LEN - (PP_MSG_SIZE s_listreaders - 1));
                    dataLength = list_length len maxDataLength;
                    m = request SCARD_LIST_READERS (PP_MSG_SIZE s_listreaders - 1);
                    m = putf s_listreaders F_hContext (pcScContext p) m;
                    m = putf s_listreaders F_cchReaderLen (word_of_int dataLength) m;
                    m = putf s_listreaders F_isSizeQueryOnly (if mszReaders = None then 1 else 0) m
                  in bindo (pp_exchangeMsg pl i m c) (\<lambda>(rv, m, c).
                     if rv < 0 then Inr (SCARD_F_INTERNAL_ERROR, (mszReaders, pcchReaders), c)
                     else
                       let n = getf s_listreaders F_cchReaderLen m;
                         res = ucast (getf s_listreaders F_rv m)
                       in if mszReaders = None then Inr (res, (None, Some (ucast n)), c)
                          else if len < ucast n
                          then Inr (SCARD_F_INTERNAL_ERROR, (mszReaders, pcchReaders), c)
                          else
                            bindo (read_bytes (fld s_listreaders F_szReader) (unat n) m) (\<lambda>out.
                            bindo (copy_to_app out mszReaders) (\<lambda>readers.
                            Inr (res, (readers, pcchReaders), c)))))))"

definition SCardListReaderGroups :: "'w platform \<Rightarrow> u64 \<Rightarrow> u8 list option \<Rightarrow> u64 option \<Rightarrow> 'w client \<Rightarrow>
    (u64 \<times> (u8 list option \<times> u64 option) \<times> 'w client) outcome" where
  "SCardListReaderGroups pl hContext mszGroups pcchGroups c =
     bindo (pp_findContext pl (ucast hContext) c) (\<lambda>ctx.
       case ctx of
         None \<Rightarrow> Inr (SCARD_F_INTERNAL_ERROR, (mszGroups, pcchGroups), c)
       | Some i \<Rightarrow>
           (case pcchGroups of
              None \<Rightarrow> Inr (SCARD_E_INVALID_VALUE, (mszGroups, pcchGroups), c)
            | Some len \<Rightarrow>
                if len = SCARD_AUTOALLOCATE
                then Inr (SCARD_F_INTERNAL_ERROR, (mszGroups, pcchGroups), c)
                else
                  bindo (get_context i c) (\<lambda>p.
                  let maxDataLength = int (PP_MAX_MESSAGE_LEN - (PP_MSG_SIZE s_listgroups - 1));
                    dataLength = list_length len maxDataLength;
                    m = request SCARD_LIST_GROUPS (PP_MSG_SIZE s_listgroups - 1);
                    m = putf s_listgroups F_hContext (pcScContext p) m;
                    m = putf s_listgroups F_cchGroupLen (word_of_int dataLength) m;
                    m = putf s_listgroups F_isSizeQueryOnly (if mszGroups = None then 1 else 0) m
                  in bindo (pp_exchangeMsg pl i m c) (\<lambda>(rv, m, c).
                     if rv < 0 then Inr (SCARD_F_INTERNAL_ERROR, (mszGroups, pcchGroups), c)
                     else
                       let n = getf s_listgroups F_cchGroupLen m;
                         res = ucast (getf s_listgroups F_rv m)
                       in if mszGroups = None then Inr (res, (None, Some (ucast n)), c)
                          else if len < ucast n
                          then Inr (SCARD_F_INTERNAL_ERROR, (mszGroups, pcchGroups), c)
                          else
                            bindo (read_bytes (fld s_listgroups F_szGroup) (unat n) m) (\<lambda>out.
                            bindo (copy_to_app out mszGroups) (\<lambda>groups.
                            Inr (res, (groups, pcchGroups), c)))))))"

section \<open>Constants and memory\<close>

text \<open>The protocol control information of the three protocols; the structure has 16 bytes on LP64.\<close>

definition g_rgSCardT0Pci :: SCARD_IO_REQUEST where
  "g_rgSCardT0Pci = \<lparr>dwProtocol = SCARD_PROTOCOL_T0, cbPciLength = 16\<rparr>"

definition g_rgSCardT1Pci :: SCARD_IO_REQUEST where
  "g_rgSCardT1Pci = \<lparr>dwProtocol = SCARD_PROTOCOL_T1, cbPciLength = 16\<rparr>"

definition g_rgSCardRawPci :: SCARD_IO_REQUEST where
  "g_rgSCardRawPci = \<lparr>dwProtocol = SCARD_PROTOCOL_RAW, cbPciLength = 16\<rparr>"

text \<open>\<open>free\<close> on the blocks of \<open>malloc\<close> the process holds; another pointer is a fault.\<close>

definition SCardFreeMemory :: "u64 \<Rightarrow> ptr \<Rightarrow> nat set \<Rightarrow> (u64 \<times> nat set) outcome" where
  "SCardFreeMemory hContext pvMem blocks =
     (case pvMem of
        None \<Rightarrow> Inr (0, blocks)
      | Some p \<Rightarrow> if p \<in> blocks then Inr (0, blocks - {p}) else Inl OutOfBounds)"

section \<open>Access laws\<close>

lemma request_simps [msg_simps]:
  "msg_len (request cmd n) = of_nat n"
  "msg_type (request cmd n) = command_code cmd"
  "getf st f (request cmd n) = 0"
  "5 \<le> off \<Longrightarrow> bytes off k (request cmd n) = replicate k 0"
  by (simp_all add: request_def msg_simps bytes_zeros)

lemma get_context_Inr:
  "get_context i c = Inr p \<longleftrightarrow> (\<exists>arr. pp_context_array c = Some arr \<and> i < length arr \<and> p = arr ! i)"
  by (auto simp: get_context_def split: option.splits)

lemma get_card_Inr:
  "get_card i c = Inr p \<longleftrightarrow> (\<exists>arr. pp_card_array c = Some arr \<and> i < length arr \<and> p = arr ! i)"
  by (auto simp: get_card_def split: option.splits)

lemma world_simps [simp]:
  "get_context i (c\<lparr>world := w\<rparr>) = get_context i c" "get_card k (c\<lparr>world := w\<rparr>) = get_card k c"
  "tls_ops pl (c\<lparr>world := w\<rparr>) = tls_ops pl c"
  by (simp_all add: get_context_def get_card_def tls_ops_def)

lemma exchange_session:
  "get_context i c = Inr p \<Longrightarrow> tlsSession p \<noteq> None \<Longrightarrow>
    pp_exchangeMsg pl i m c = exchange_on pl (tlsSession p) m c"
  by (simp add: pp_exchangeMsg_def)

end
