(* ===== verification/Server.thy ===== *)
theory Server
  imports Opts Pcsc
begin

text \<open>
  The request handlers of \<open>src/src/server/server.c\<close>, the dispatch and reply of
  \<open>pp_nextMsg\<close> and the loop \<open>pp_handleConnection\<close>.  A handler changes the message buffer in
  place and the state of the PC/SC library; it always returns 0, so its result is the new
  buffer and the new library state, or the fault of an access outside the buffer.
\<close>

section \<open>Locals without an initial value, and the library's view of the buffer\<close>

record uninit =
  u_msg :: buffer
  u_hContext :: u64
  u_hCard :: u64
  u_dwActiveProtocol :: u64
  u_dwState :: u64
  u_dwProtocol :: u64
  u_malloc :: "nat \<Rightarrow> bool"

section \<open>Context and card handlers\<close>

definition handleEstablishContext :: "'s pcsc \<Rightarrow> uninit \<Rightarrow> buffer \<Rightarrow> 's \<Rightarrow> buffer \<times> 's" where
  "handleEstablishContext lib u msg s =
     (let (res, hContext, s') =
        lib_EstablishContext lib (ucast (getf s_establish F_dwScope msg)) (u_hContext u) s;
        msg = putf s_establish F_hContext (ucast hContext) msg;
        msg = putf s_establish F_rv (ucast res) msg
      in (msg, s'))"

text \<open>The result is stored through \<open>establishStruct\<close>, another member of the union.\<close>

definition handleReleaseContext :: "'s pcsc \<Rightarrow> buffer \<Rightarrow> 's \<Rightarrow> buffer \<times> 's" where
  "handleReleaseContext lib msg s =
     (let (res, s') = lib_ReleaseContext lib (ucast (getf s_release F_hContext msg)) s
      in (putf s_establish F_rv (ucast res) msg, s'))"

definition handleIsValidContext :: "'s pcsc \<Rightarrow> buffer \<Rightarrow> 's \<Rightarrow> buffer \<times> 's" where
  "handleIsValidContext lib msg s =
     (let (res, s') = lib_IsValidContext lib (ucast (getf s_isvalid F_hContext msg)) s
      in (putf s_isvalid F_rv (ucast res) msg, s'))"

definition handleConnect :: "'s pcsc \<Rightarrow> uninit \<Rightarrow> buffer \<Rightarrow> 's \<Rightarrow> (buffer \<times> 's) outcome" where
  "handleConnect lib u msg s =
     bindo (read_string (fld s_connect F_szReader) msg) (\<lambda>reader.
       let (res, (hCard, proto), s') =
         lib_Connect lib (ucast (getf s_connect F_hContext msg)) reader
           (ucast (getf s_connect F_dwShareMode msg))
           (ucast (getf s_connect F_dwPreferredProtocols msg))
           (u_hCard u, u_dwActiveProtocol u) s;
         msg = putf s_connect F_hCard (ucast hCard) msg;
         msg = putf s_connect F_dwActiveProtocol (ucast proto) msg;
         msg = putf s_connect F_rv (ucast res) msg
       in Inr (msg, s'))"

text \<open>An \<open>int32_t\<close> field passed as a 64-bit \<open>SCARDHANDLE\<close> is sign-extended.\<close>

definition handleReconnect :: "'s pcsc \<Rightarrow> uninit \<Rightarrow> buffer \<Rightarrow> 's \<Rightarrow> buffer \<times> 's" where
  "handleReconnect lib u msg s =
     (let (res, proto, s') =
        lib_Reconnect lib (scast (getf s_reconnect F_hCard msg))
          (ucast (getf s_reconnect F_dwShareMode msg))
          (ucast (getf s_reconnect F_dwPreferredProtocols msg))
          (ucast (getf s_reconnect F_dwInitialization msg)) (u_dwActiveProtocol u) s;
        msg = putf s_reconnect F_dwActiveProtocol (ucast proto) msg;
        msg = putf s_reconnect F_rv (ucast res) msg
      in (msg, s'))"

definition handleDisconnect :: "'s pcsc \<Rightarrow> buffer \<Rightarrow> 's \<Rightarrow> buffer \<times> 's" where
  "handleDisconnect lib msg s =
     (let (res, s') =
        lib_Disconnect lib (scast (getf s_disconnect F_hCard msg))
          (ucast (getf s_disconnect F_dwDisposition msg)) s
      in (putf s_disconnect F_rv (ucast res) msg, s'))"

definition handleBeginTransaction :: "'s pcsc \<Rightarrow> buffer \<Rightarrow> 's \<Rightarrow> buffer \<times> 's" where
  "handleBeginTransaction lib msg s =
     (let (res, s') = lib_BeginTransaction lib (scast (getf s_begin F_hCard msg)) s
      in (putf s_begin F_rv (ucast res) msg, s'))"

definition handleEndTransaction :: "'s pcsc \<Rightarrow> buffer \<Rightarrow> 's \<Rightarrow> buffer \<times> 's" where
  "handleEndTransaction lib msg s =
     (let (res, s') =
        lib_EndTransaction lib (scast (getf s_end F_hCard msg))
          (ucast (getf s_end F_dwDisposition msg)) s
      in (putf s_end F_rv (ucast res) msg, s'))"

definition handleCancelTransaction :: "'s pcsc \<Rightarrow> buffer \<Rightarrow> 's \<Rightarrow> buffer \<times> 's" where
  "handleCancelTransaction lib msg s =
     (let (res, s') = lib_Cancel lib (scast (getf s_cancel F_hCard msg)) s
      in (putf s_cancel F_rv (ucast res) msg, s'))"

definition handleCancel :: "'s pcsc \<Rightarrow> buffer \<Rightarrow> 's \<Rightarrow> buffer \<times> 's" where
  "handleCancel lib msg s =
     (let (res, s') = lib_Cancel lib (scast (getf s_cancel F_hCard msg)) s
      in (putf s_cancel F_rv (ucast res) msg, s'))"

section \<open>Status and status changes\<close>

definition handleStatus :: "'s pcsc \<Rightarrow> uninit \<Rightarrow> buffer \<Rightarrow> 's \<Rightarrow> (buffer \<times> 's) outcome" where
  "handleStatus lib u msg s =
     (let cchReaderLen = ucast (getf s_status F_pcchReaderLen msg) :: u64;
        cchReaderLen = (if of_nat MAX_READERNAME < cchReaderLen then of_nat MAX_READERNAME
                        else cchReaderLen);
        cbAtrLen = ucast (getf s_status F_pcbAtrLen msg) :: u64;
        cbAtrLen = (if of_nat MAX_ATR_SIZE < cbAtrLen then of_nat MAX_ATR_SIZE else cbAtrLen);
        (res, (name, cchReaderLen), (state, proto), (atr, cbAtrLen), s') =
          lib_Status lib (scast (getf s_status F_hCard msg)) cchReaderLen cbAtrLen
            (u_dwState u, u_dwProtocol u) s
      in bindo (store_bytes (fld s_status F_mszReaderName) name msg) (\<lambda>msg.
         bindo (store_bytes (fld s_status F_pbAtr) atr msg) (\<lambda>msg.
         let msg = putf s_status F_pcchReaderLen (ucast cchReaderLen) msg;
           msg = putf s_status F_dwState (ucast state) msg;
           msg = putf s_status F_dwProtocol (ucast proto) msg;
           msg = putf s_status F_pcbAtrLen (ucast cbAtrLen) msg;
           msg = putf s_status F_rv (ucast res) msg
         in Inr (msg, s'))))"

text \<open>
  One reader state of the message, at offset \<open>base\<close>, copied to the library's structure.  Its
  name is a pointer into the message, NULL for an empty name.
\<close>

definition read_readerstate :: "nat \<Rightarrow> buffer \<Rightarrow> SCARD_READERSTATE outcome" where
  "read_readerstate base msg =
     (if PP_MAX_MESSAGE_LEN < base + sizeof s_readerstate then Inl OutOfBounds
      else
        bindo (if msg base \<noteq> 0 then bindo (read_string base msg) (\<lambda>n. Inr (Some n)) else Inr None)
          (\<lambda>name.
             let cb = ucast (get32 (base + field_off F_cbAtrLen s_readerstate) msg) :: u64;
               cb = (if of_nat MAX_ATR_SIZE < cb then of_nat MAX_ATR_SIZE else cb)
             in Inr \<lparr>szReader = name,
                  dwCurrentState =
                    ucast (get32 (base + field_off F_dwCurrentState s_readerstate) msg),
                  dwEventState =
                    ucast (get32 (base + field_off F_dwEventState s_readerstate) msg),
                  cbAtr = cb,
                  rgbAtr = bytes (base + field_off F_pbAtr s_readerstate) (unat cb) msg @
                    replicate (MAX_ATR_SIZE - unat cb) 0\<rparr>))"

primrec read_readerstates :: "nat \<Rightarrow> nat \<Rightarrow> buffer \<Rightarrow> SCARD_READERSTATE list outcome" where
  "read_readerstates 0 base msg = Inr []"
| "read_readerstates (Suc n) base msg =
     bindo (read_readerstate base msg) (\<lambda>r.
     bindo (read_readerstates n (base + sizeof s_readerstate) msg) (\<lambda>rs. Inr (r # rs)))"

definition write_readerstate :: "nat \<Rightarrow> SCARD_READERSTATE \<Rightarrow> buffer \<Rightarrow> buffer outcome" where
  "write_readerstate base r msg =
     (if PP_MAX_MESSAGE_LEN < base + sizeof s_readerstate then Inl OutOfBounds
      else
        let msg = put32 (base + field_off F_dwCurrentState s_readerstate)
                    (ucast (dwCurrentState r)) msg;
          msg = put32 (base + field_off F_dwEventState s_readerstate)
                    (ucast (dwEventState r)) msg;
          cb = ucast (cbAtr r) :: u32;
          cb = (if of_nat MAX_ATR_SIZE < cb then of_nat MAX_ATR_SIZE else cb);
          msg = put32 (base + field_off F_cbAtrLen s_readerstate) cb msg
        in Inr (blit (base + field_off F_pbAtr s_readerstate) (take (unat cb) (rgbAtr r)) msg))"

primrec write_readerstates :: "nat \<Rightarrow> SCARD_READERSTATE list \<Rightarrow> buffer \<Rightarrow> buffer outcome" where
  "write_readerstates base [] msg = Inr msg"
| "write_readerstates base (r # rs) msg =
     bindo (write_readerstate base r msg)
       (\<lambda>msg. write_readerstates (base + sizeof s_readerstate) rs msg)"

text \<open>
  The array of library structures is allocated for whatever number of readers the message
  claims; a failed \<open>malloc\<close> is handed to \<open>memset\<close>.
\<close>

definition handleGetStatusChange ::
    "'s pcsc \<Rightarrow> uninit \<Rightarrow> buffer \<Rightarrow> 's \<Rightarrow> (buffer \<times> 's) outcome" where
  "handleGetStatusChange lib u msg s =
     (let n = unat (getf s_getstatuschange F_cReaders msg);
        base = fld s_getstatuschange F_readerStates
      in bindo (check (n = 0 \<or> u_malloc u (sizeof_SCARD_READERSTATE * n)) NullPointer) (\<lambda>_.
         bindo (read_readerstates n base msg) (\<lambda>rs.
         let (res, rs', s') =
           lib_GetStatusChange lib (ucast (getf s_getstatuschange F_hContext msg))
             (ucast (getf s_getstatuschange F_dwTimeout msg)) rs s
         in bindo (write_readerstates base rs' msg) (\<lambda>msg.
            Inr (putf s_getstatuschange F_rv (ucast res) msg, s')))))"

section \<open>Control, transmission and attributes\<close>

definition handleControl :: "'s pcsc \<Rightarrow> buffer \<Rightarrow> 's \<Rightarrow> (buffer \<times> 's) outcome" where
  "handleControl lib msg s =
     bindo (read_bytes (fld s_control F_pbSendBuffer)
         (unat (getf s_control F_cbSendLength msg)) msg) (\<lambda>input.
     let (res, out, bytesReturned, s') =
       lib_Control lib (scast (getf s_control F_hCard msg))
         (ucast (getf s_control F_dwControlCode msg)) input
         (ucast (getf s_control F_cbRecvLength msg)) 0 s
     in bindo (store_bytes (fld s_control F_pbRecvBuffer) out msg) (\<lambda>msg.
        let msg = putf s_control F_dwBytesReturned (ucast bytesReturned) msg;
          msg = putf s_control F_rv (ucast res) msg
        in Inr (msg, s')))"

definition handleTransmit :: "'s pcsc \<Rightarrow> buffer \<Rightarrow> 's \<Rightarrow> (buffer \<times> 's) outcome" where
  "handleTransmit lib msg s =
     (let n = unat (getf s_transmit F_cbBufferLength msg) in
      if max_transmit < n then
        let msg = set_msg_len (of_nat (PP_MSG_SIZE s_transmit - 1)) msg
        in Inr (putf s_transmit F_rv (ucast SCARD_F_INTERNAL_ERROR) msg, s)
      else
        let cbRecvLength = ucast (getf s_transmit F_pcbRecvLength msg) :: u64;
          cbRecvLength = (if of_nat max_transmit < cbRecvLength then of_nat max_transmit
                          else cbRecvLength);
          recvPci = \<lparr>dwProtocol = ucast (getf s_transmit F_ioRecvPciProtocol msg),
                     cbPciLength = ucast (getf s_transmit F_ioRecvPciLength msg)\<rparr>;
          sendPci = \<lparr>dwProtocol = ucast (getf s_transmit F_ioSendPciProtocol msg),
                     cbPciLength = ucast (getf s_transmit F_ioSendPciLength msg)\<rparr>;
          sendBuffer = bytes (fld s_transmit F_pcbBuffer) n msg;
          (res, recvPci, (out, cbRecvLength), s') =
            lib_Transmit lib (scast (getf s_transmit F_hCard msg)) sendPci sendBuffer recvPci
              cbRecvLength s
        in bindo (store_bytes (fld s_transmit F_pcbBuffer) out msg) (\<lambda>msg.
           let msg = putf s_transmit F_cbBufferLength (ucast cbRecvLength) msg;
             msg = putf s_transmit F_ioRecvPciProtocol (ucast (dwProtocol recvPci)) msg;
             msg = putf s_transmit F_ioRecvPciLength (ucast (cbPciLength recvPci)) msg;
             msg = set_msg_len (of_nat (PP_MSG_SIZE s_transmit) +
                     getf s_transmit F_cbBufferLength msg - 1) msg;
             msg = putf s_transmit F_rv (ucast res) msg
           in Inr (msg, s')))"

definition handleGetAttrib :: "'s pcsc \<Rightarrow> buffer \<Rightarrow> 's \<Rightarrow> (buffer \<times> 's) outcome" where
  "handleGetAttrib lib msg s =
     (let (res, (out, cbAttrLen), s') =
        lib_GetAttrib lib (scast (getf s_getset F_hCard msg))
          (ucast (getf s_getset F_dwAttrId msg)) (ucast (getf s_getset F_cbAttrLen msg)) s
      in bindo (store_bytes (fld s_getset F_pbAttr) out msg) (\<lambda>msg.
         let msg = putf s_getset F_cbAttrLen (ucast cbAttrLen) msg;
           msg = putf s_getset F_rv (ucast res) msg
         in Inr (msg, s')))"

definition handleSetAttrib :: "'s pcsc \<Rightarrow> buffer \<Rightarrow> 's \<Rightarrow> (buffer \<times> 's) outcome" where
  "handleSetAttrib lib msg s =
     bindo (read_bytes (fld s_getset F_pbAttr) (unat (getf s_getset F_cbAttrLen msg)) msg)
       (\<lambda>input.
          let (res, s') =
            lib_SetAttrib lib (scast (getf s_getset F_hCard msg))
              (ucast (getf s_getset F_dwAttrId msg)) input s
          in Inr (putf s_getset F_rv (ucast res) msg, s'))"

section \<open>Lists of readers and groups\<close>

definition handleListReaders :: "'s pcsc \<Rightarrow> buffer \<Rightarrow> 's \<Rightarrow> (buffer \<times> 's) outcome" where
  "handleListReaders lib msg s =
     (let cchReaderLen = ucast (getf s_listreaders F_cchReaderLen msg) :: u64;
        hContext = scast (getf s_listreaders F_hContext msg) :: u64
      in if getf s_listreaders F_isSizeQueryOnly msg \<noteq> 0 then
           let (res, (_, cchReaderLen), s') = lib_ListReaders lib hContext False cchReaderLen s;
             msg = putf s_listreaders F_cchReaderLen (ucast cchReaderLen) msg
           in Inr (putf s_listreaders F_rv (ucast res) msg, s')
         else
           let maxDataLength =
               of_nat (PP_MAX_MESSAGE_LEN - (PP_MSG_SIZE s_listreaders - 1)) :: u64;
             cchReaderLen = (if maxDataLength < cchReaderLen then maxDataLength
                             else cchReaderLen);
             (res, (out, cchReaderLen), s') =
               lib_ListReaders lib hContext True cchReaderLen s
           in bindo (store_bytes (fld s_listreaders F_szReader) out msg) (\<lambda>msg.
              let msg = putf s_listreaders F_cchReaderLen (ucast cchReaderLen) msg;
                msg = set_msg_len
                        (ucast (of_nat (PP_MSG_SIZE s_listreaders) + cchReaderLen - 1)) msg
              in Inr (putf s_listreaders F_rv (ucast res) msg, s')))"

definition handleListGroups :: "'s pcsc \<Rightarrow> buffer \<Rightarrow> 's \<Rightarrow> (buffer \<times> 's) outcome" where
  "handleListGroups lib msg s =
     (let cchGroupLen = ucast (getf s_listgroups F_cchGroupLen msg) :: u64;
        hContext = scast (getf s_listgroups F_hContext msg) :: u64
      in if getf s_listgroups F_isSizeQueryOnly msg \<noteq> 0 then
           let (res, (_, cchGroupLen), s') = lib_ListReaderGroups lib hContext False cchGroupLen s;
             msg = putf s_listgroups F_cchGroupLen (ucast cchGroupLen) msg
           in Inr (putf s_listgroups F_rv (ucast res) msg, s')
         else
           let maxDataLength =
               of_nat (PP_MAX_MESSAGE_LEN - (PP_MSG_SIZE s_listgroups - 1)) :: u64;
             cchGroupLen = (if maxDataLength < cchGroupLen then maxDataLength else cchGroupLen);
             (res, (out, cchGroupLen), s') =
               lib_ListReaderGroups lib hContext True cchGroupLen s
           in bindo (store_bytes (fld s_listgroups F_szGroup) out msg) (\<lambda>msg.
              let msg = putf s_listgroups F_cchGroupLen (ucast cchGroupLen) msg;
                msg = set_msg_len
                        (ucast (of_nat (PP_MSG_SIZE s_listgroups) + cchGroupLen - 1)) msg
              in Inr (putf s_listgroups F_rv (ucast res) msg, s')))"

section \<open>One message, and a connection\<close>

text \<open>The \<open>switch\<close>; a timeout request has no handler and is sent back as it came.\<close>

fun dispatch :: "'s pcsc \<Rightarrow> uninit \<Rightarrow> message_commands \<Rightarrow> buffer \<Rightarrow> 's \<Rightarrow>
    (buffer \<times> 's) outcome" where
  "dispatch lib u SCARD_ESTABLISH_CONTEXT msg s = Inr (handleEstablishContext lib u msg s)"
| "dispatch lib u SCARD_RELEASE_CONTEXT msg s = Inr (handleReleaseContext lib msg s)"
| "dispatch lib u SCARD_ISVALIDCONTEXT msg s = Inr (handleIsValidContext lib msg s)"
| "dispatch lib u SCARD_SETTIMEOUT msg s = Inr (msg, s)"
| "dispatch lib u SCARD_CONNECT msg s = handleConnect lib u msg s"
| "dispatch lib u SCARD_RECONNECT msg s = Inr (handleReconnect lib u msg s)"
| "dispatch lib u SCARD_DISCONNECT msg s = Inr (handleDisconnect lib msg s)"
| "dispatch lib u SCARD_BEGIN_TRANSACTION msg s = Inr (handleBeginTransaction lib msg s)"
| "dispatch lib u SCARD_END_TRANSACTION msg s = Inr (handleEndTransaction lib msg s)"
| "dispatch lib u SCARD_CANCEL_TRANSACTION msg s = Inr (handleCancelTransaction lib msg s)"
| "dispatch lib u SCARD_STATUS msg s = handleStatus lib u msg s"
| "dispatch lib u SCARD_GET_STATUS_CHANGE msg s = handleGetStatusChange lib u msg s"
| "dispatch lib u SCARD_CANCEL msg s = Inr (handleCancel lib msg s)"
| "dispatch lib u SCARD_CONTROL msg s = handleControl lib msg s"
| "dispatch lib u SCARD_TRANSMIT msg s = handleTransmit lib msg s"
| "dispatch lib u SCARD_GET_ATTRIB msg s = handleGetAttrib lib msg s"
| "dispatch lib u SCARD_SET_ATTRIB msg s = handleSetAttrib lib msg s"
| "dispatch lib u SCARD_LIST_READERS msg s = handleListReaders lib msg s"
| "dispatch lib u SCARD_LIST_GROUPS msg s = handleListGroups lib msg s"

definition pp_nextMsg :: "'w tlsopts \<Rightarrow> 's pcsc \<Rightarrow> uninit \<Rightarrow> ptr \<Rightarrow> 'w \<Rightarrow> 's \<Rightarrow>
    (int \<times> 'w \<times> 's) outcome" where
  "pp_nextMsg tlsopts lib u session w s =
     bindo (tls_recv tlsopts session (u_msg u) w) (\<lambda>(rv, msg, w).
       if rv = 0 then Inr (1, w, s)
       else if rv < 0 then Inr (rv, w, s)
       else
         (case command_of (unat (msg_type msg)) of
            None \<Rightarrow> Inl (Exited 4)
          | Some c \<Rightarrow>
              bindo (dispatch lib u c msg s) (\<lambda>(msg, s).
              bindo (tls_send tlsopts session msg w) (\<lambda>(rv, w).
                if rv < 0 then Inr (rv, w, s) else Inr (0, w, s)))))"

text \<open>
  The loop \<open>for (;;)\<close>: at most \<open>fuel\<close> rounds, \<open>None\<close> when they do not suffice; round \<open>n\<close> finds
  the stack as \<open>us n\<close>.
\<close>

fun pp_handleConnection :: "nat \<Rightarrow> 'w tlsopts \<Rightarrow> 's pcsc \<Rightarrow> (nat \<Rightarrow> uninit) \<Rightarrow> ptr \<Rightarrow> 'w \<Rightarrow> 's \<Rightarrow>
    (int \<times> 'w \<times> 's) outcome option" where
  "pp_handleConnection 0 tlsopts lib us session w s = None"
| "pp_handleConnection (Suc fuel) tlsopts lib us session w s =
     (case pp_nextMsg tlsopts lib (us fuel) session w s of
        Inl e \<Rightarrow> Some (Inl e)
      | Inr (rv, w', s') \<Rightarrow>
          if rv \<noteq> 0 then Some (Inr (rv, w', s'))
          else pp_handleConnection fuel tlsopts lib us session w' s')"

end
