(* ===== verification/Link.thy ===== *)
theory Link
  imports Client Server
begin

text \<open>
  Client and server joined: a table of TLS operations whose world is the server.  What the
  client sends goes through the sending loop, a network that may cut it into pieces of any
  size, and the server's \<open>pp_nextMsg\<close> over its own null-encryption session; the answer comes
  back the same way.  Over this table every function of the client library is compared with the
  call of the server's PC/SC library it stands for.
\<close>

section \<open>The network and the server behind it\<close>

record network =
  cutting :: "u8 list \<Rightarrow> read_event list"
  accepting :: "write_event list"

definition lossless :: "network \<Rightarrow> bool" where
  "lossless N \<longleftrightarrow>
     (\<forall>bs. pending_of (cutting N bs) = bs) \<and> PP_MAX_MESSAGE_LEN \<le> room (accepting N)"

record 's link =
  srv :: 's
  inbox :: "u8 list"

definition server_world :: "network \<Rightarrow> u8 list \<Rightarrow> net" where
  "server_world N bs =
     \<lparr>chan = (\<lambda>_. \<lparr>rx = cutting N bs, wx = accepting N, sent = []\<rparr>),
      heap = (\<lambda>p. if p = 0 then Some 0 else None), heap_next = 1, heap_left = 0\<rparr>"

definition link_send :: "'s pcsc \<Rightarrow> network \<Rightarrow> uninit \<Rightarrow> ptr \<Rightarrow> buffer \<Rightarrow> 's link \<Rightarrow>
    (int \<times> 's link) outcome" where
  "link_send lib N u session msg w =
     bindo (send_message msg (accepting N) []) (\<lambda>(rv, _, out).
       if rv < 0 then Inr (rv, w)
       else
         bindo (pp_nextMsg pp_nullenc_opts lib u (Some 0) (server_world N out) (srv w))
           (\<lambda>(_, w', s).
              Inr (rv, w\<lparr>srv := s, inbox := inbox w @ stream_out (Sock 0) w'\<rparr>)))"

definition link_recv :: "network \<Rightarrow> ptr \<Rightarrow> buffer \<Rightarrow> 's link \<Rightarrow>
    (int \<times> buffer \<times> 's link) outcome" where
  "link_recv N session msg w =
     bindo (recv_message msg (cutting N (inbox w)))
       (\<lambda>((rc, msg), es). Inr (rc, msg, w\<lparr>inbox := pending_of es\<rparr>))"

definition link_opts :: "'s pcsc \<Rightarrow> network \<Rightarrow> uninit \<Rightarrow> 's link tlsopts" where
  "link_opts lib N u =
     \<lparr>init_server = (\<lambda>w. Inr (0, Some 0, w)), fini_server = (\<lambda>_ w. Inr (0, w)),
      init_server_session = (\<lambda>_ _ w. Inr (0, Some 1, w)),
      fini_server_session = (\<lambda>_ _ w. Inr (0, w)),
      init_client = (\<lambda>w. Inr (0, Some 0, w)), fini_client = (\<lambda>_ w. Inr (0, w)),
      client_set_srp_auth = (\<lambda>_ _ _ w. Inr (0, w)),
      init_client_session = (\<lambda>_ _ w. Inr (0, Some 1, w)),
      fini_client_session = (\<lambda>_ _ w. Inr (0, w)),
      tls_recv = link_recv N, tls_send = link_send lib N u,
      get_socket = (\<lambda>_ _. Inr 0)\<rparr>"

lemma link_opts_simps [simp]:
  "init_client (link_opts lib N u) = (\<lambda>w. Inr (0, Some 0, w))"
  "fini_client (link_opts lib N u) = (\<lambda>_ w. Inr (0, w))"
  "client_set_srp_auth (link_opts lib N u) = (\<lambda>_ _ _ w. Inr (0, w))"
  "init_client_session (link_opts lib N u) = (\<lambda>_ _ w. Inr (0, Some 1, w))"
  "fini_client_session (link_opts lib N u) = (\<lambda>_ _ w. Inr (0, w))"
  "tls_recv (link_opts lib N u) = link_recv N"
  "tls_send (link_opts lib N u) = link_send lib N u"
  "get_socket (link_opts lib N u) = (\<lambda>_ _. Inr 0)"
  by (simp_all add: link_opts_def)

section \<open>One exchange\<close>

lemma nextMsg_answer:
  assumes "stream_in (Sock sk) w = frame m @ rest" "heap w p = Some sk"
    and "5 \<le> unat (msg_len m)" "unat (msg_len m) < PP_MAX_MESSAGE_LEN"
    and "command_of (unat (msg_type m)) = Some cmd"
    and "dispatch lib u cmd (blit 0 (frame m) (u_msg u)) s = Inr (m', s')"
    and "unat (msg_len m') \<le> stream_room (Sock sk) w" "unat (msg_len m') \<le> PP_MAX_MESSAGE_LEN"
  shows "\<exists>w'. pp_nextMsg pp_nullenc_opts lib u (Some p) w s = Inr (0, w', s') \<and>
    stream_out (Sock sk) w' = stream_out (Sock sk) w @ frame m' \<and> stream_in (Sock sk) w' = rest \<and>
    heap w' p = Some sk"
proof -
  from nullenc.recv_frame [OF assms(2,1,3,4), of "u_msg u"] obtain w1 where
    r: "nullenc_tls_recv (Some p) (u_msg u) w =
          Inr (int (unat (msg_len m)), blit 0 (frame m) (u_msg u), w1)"
    and w1: "heap w1 p = Some sk" "stream_in (Sock sk) w1 = rest"
      "stream_out (Sock sk) w1 = stream_out (Sock sk) w"
      "stream_room (Sock sk) w1 = stream_room (Sock sk) w"
    by blast
  from nullenc.send_frame [OF w1(1), of m'] w1 assms(7,8) obtain w2 where
    t: "nullenc_tls_send (Some p) m' w1 = Inr (0, w2)"
    and w2: "heap w2 p = Some sk" "stream_out (Sock sk) w2 = stream_out (Sock sk) w @ frame m'"
      "stream_in (Sock sk) w2 = rest"
    by auto
  have "\<not> int (unat (msg_len m)) \<le> 0" using assms(3) by simp
  with r t w2 assms(3,5,6) show ?thesis
    by (simp add: pp_nextMsg_def msg_simps)
qed

lemma link_send_answer:
  assumes "lossless N" "5 \<le> unat (msg_len m)" "unat (msg_len m) < PP_MAX_MESSAGE_LEN"
    and "msg_type m = command_code cmd"
    and "dispatch lib u cmd (blit 0 (frame m) (u_msg u)) (srv w) = Inr (m', s')"
    and "unat (msg_len m') \<le> PP_MAX_MESSAGE_LEN"
  shows "link_send lib N u q m w = Inr (0, w\<lparr>srv := s', inbox := inbox w @ frame m'\<rparr>)"
proof -
  have cut: "pending_of (cutting N bs) = bs" and acc: "PP_MAX_MESSAGE_LEN \<le> room (accepting N)" for bs
    using assms(1) by (auto simp: lossless_def)
  have room: "unat (msg_len m) \<le> room (accepting N)" "unat (msg_len m') \<le> room (accepting N)"
    using acc assms(3,6) by auto
  from send_message_room [OF room(1), of "[]"] assms(3) obtain ws' where
    snd: "send_message m (accepting N) [] = Inr (0, ws', frame m)" by auto
  let ?w = "server_world N (frame m)"
  have sw: "stream_in (Sock 0) ?w = frame m @ []" "heap ?w 0 = Some 0"
    "stream_room (Sock 0) ?w = room (accepting N)" "stream_out (Sock 0) ?w = []"
    by (simp_all add: server_world_def cut)
  from nextMsg_answer [OF sw(1,2) assms(2,3) _ assms(5)] assms(4,6) room(2) sw(3,4) obtain w' where
    "pp_nextMsg pp_nullenc_opts lib u (Some 0) ?w (srv w) = Inr (0, w', s')"
    "stream_out (Sock 0) w' = frame m'" by auto
  with snd show ?thesis by (simp add: link_send_def)
qed

lemma link_recv_answer:
  assumes "lossless N" "inbox w = frame m' @ rest"
    and "5 \<le> unat (msg_len m')" "unat (msg_len m') < PP_MAX_MESSAGE_LEN"
  shows "link_recv N q m w = Inr (int (unat (msg_len m')), blit 0 (frame m') m, w\<lparr>inbox := rest\<rparr>)"
proof -
  have "pending_of (cutting N (inbox w)) = frame m' @ rest"
    using assms(1,2) by (simp add: lossless_def)
  from recv_message_frame [OF this assms(3,4), of m] obtain es where
    "recv_message m (cutting N (inbox w)) = Inr ((int (unat (msg_len m')), blit 0 (frame m') m), es)"
    "pending_of es = rest" by auto
  then show ?thesis by (simp add: link_recv_def)
qed

lemma link_exchange:
  assumes "lossless N" "get_context i c = Inr p" "tlsSession p \<noteq> None"
    "tls_ops pl c = Inr (link_opts lib N u)" "inbox (world c) = []"
    and "5 \<le> unat (msg_len m)" "unat (msg_len m) < PP_MAX_MESSAGE_LEN"
    and "msg_type m = command_code cmd"
    and "dispatch lib u cmd (blit 0 (frame m) (u_msg u)) (srv (world c)) = Inr (m', s')"
    and "5 \<le> unat (msg_len m')" "unat (msg_len m') < PP_MAX_MESSAGE_LEN"
  shows "pp_exchangeMsg pl i m c =
    Inr (0, blit 0 (frame m') m, c\<lparr>world := (world c)\<lparr>srv := s'\<rparr>\<rparr>)"
proof -
  let ?w = "(world c)\<lparr>srv := s', inbox := frame m'\<rparr>"
  have "link_send lib N u (tlsSession p) m (world c) = Inr (0, ?w)"
    using link_send_answer [OF assms(1,6-9)] assms(5,11) by simp
  moreover have "link_recv N (tlsSession p) m ?w =
      Inr (int (unat (msg_len m')), blit 0 (frame m') m, ?w\<lparr>inbox := []\<rparr>)"
    by (rule link_recv_answer [OF assms(1) _ assms(10,11)]) simp
  moreover have "?w\<lparr>inbox := []\<rparr> = (world c)\<lparr>srv := s'\<rparr>" using assms(5) by (cases "world c") simp
  ultimately show ?thesis
    using assms(2-4) by (simp add: exchange_session exchange_on_def)
qed

section \<open>A client in a session\<close>

definition linked :: "'s pcsc \<Rightarrow> network \<Rightarrow> uninit \<Rightarrow> 's link platform \<Rightarrow> 's link client \<Rightarrow> bool" where
  "linked lib N u pl c \<longleftrightarrow>
     lossless N \<and> tls_ops pl c = Inr (link_opts lib N u) \<and> inbox (world c) = []"

definition context_session :: "'w platform \<Rightarrow> u64 \<Rightarrow> nat \<Rightarrow> PP_CLIENT_CONTEXT \<Rightarrow> 'w client \<Rightarrow> bool" where
  "context_session pl hContext i p c \<longleftrightarrow>
     pp_findContext pl (ucast hContext) c = Inr (Some i) \<and> get_context i c = Inr p \<and>
     tlsSession p \<noteq> None"

definition card_session :: "'w platform \<Rightarrow> u64 \<Rightarrow> PP_CARD_CONTEXT \<Rightarrow> 'w client \<Rightarrow> bool" where
  "card_session pl hCard cd c \<longleftrightarrow>
     (\<exists>k i p. pp_findCard pl (ucast hCard) c = Inr (Some k) \<and> get_card k c = Inr cd \<and>
        clientContext cd = Some i \<and> get_context i c = Inr p \<and> tlsSession p \<noteq> None)"

abbreviation after :: "'s \<Rightarrow> 's link client \<Rightarrow> 's link client" where
  "after s c \<equiv> c\<lparr>world := (world c)\<lparr>srv := s\<rparr>\<rparr>"

lemma link_context:
  assumes "linked lib N u pl c" "context_session pl h i p c" "msg_type m = command_code cmd"
    and "dispatch lib u cmd (blit 0 (frame m) (u_msg u)) (srv (world c)) = Inr (m', s')"
    and "5 \<le> unat (msg_len m)" "unat (msg_len m) < PP_MAX_MESSAGE_LEN"
    and "5 \<le> unat (msg_len m')" "unat (msg_len m') < PP_MAX_MESSAGE_LEN"
  shows "pp_exchangeMsg pl i m c = Inr (0, blit 0 (frame m') m, after s' c)"
  using assms link_exchange [of N i c p pl lib u m cmd m' s']
  by (simp add: linked_def context_session_def)

lemma link_card:
  assumes "linked lib N u pl c" "card_session pl h cd c" "msg_type m = command_code cmd"
    and "dispatch lib u cmd (blit 0 (frame m) (u_msg u)) (srv (world c)) = Inr (m', s')"
    and "5 \<le> unat (msg_len m)" "unat (msg_len m) < PP_MAX_MESSAGE_LEN"
    and "5 \<le> unat (msg_len m')" "unat (msg_len m') < PP_MAX_MESSAGE_LEN"
  shows "card_exchange pl cd m c = Inr (0, blit 0 (frame m') m, after s' c)"
  using assms link_exchange [of N _ c _ pl lib u m cmd m' s']
  by (auto simp: linked_def card_session_def card_exchange_def)

lemma card_found:
  assumes "card_session pl h cd c"
  obtains k where "pp_findCard pl (ucast h) c = Inr (Some k)" "get_card k c = Inr cd"
  using assms by (auto simp: card_session_def)

lemma context_found:
  assumes "context_session pl h i p c"
  shows "pp_findContext pl (ucast h) c = Inr (Some i)" "get_context i c = Inr p"
  using assms by (auto simp: context_session_def)

end
