(* ===== verification/Demo.thy ===== *)
theory Demo
  imports Link
begin

text \<open>
  A concrete installation, on which the hypotheses of the theorems are shown to hold: a small
  PC/SC library with one reader and one card that counts its calls, a network that cuts every
  message after its first byte, and a client with one context and one card.
\<close>

section \<open>A library\<close>

text \<open>The state is the number of calls; the card echoes what is transmitted to it.\<close>

definition demo_lib :: "nat pcsc" where
  "demo_lib =
     \<lparr>lib_EstablishContext = (\<lambda>_ _ n. (0, 0x1001, Suc n)),
      lib_ReleaseContext = (\<lambda>h n. (if h = 0x1001 then 0 else 0x80100003, Suc n)),
      lib_IsValidContext = (\<lambda>h n. (if h = 0x1001 then 0 else 0x80100003, Suc n)),
      lib_Connect = (\<lambda>_ name _ prot _ n.
        if name = [82, 49] then (0, (0x2002, prot), Suc n) else (0x80100009, (0, 0), Suc n)),
      lib_Reconnect = (\<lambda>_ _ prot _ _ n. (0, prot, Suc n)),
      lib_Disconnect = (\<lambda>h _ n. (if h = 0x2002 then 0 else 0x80100003, Suc n)),
      lib_BeginTransaction = (\<lambda>h n. (if h = 0x2002 then 0 else 0x80100003, Suc n)),
      lib_EndTransaction = (\<lambda>h _ n. (if h = 0x2002 then 0 else 0x80100003, Suc n)),
      lib_Cancel = (\<lambda>h n. (if h = 0x1001 then 0 else 0x80100003, Suc n)),
      lib_Status = (\<lambda>_ r a _ n.
        (0, (take (unat r) [82, 49, 0, 0], 4), (0x34, 1), (take (unat a) [0x3B, 0], 2), Suc n)),
      lib_GetStatusChange = (\<lambda>_ _ rs n. (0, map (\<lambda>r. r\<lparr>dwEventState := 0x22\<rparr>) rs, Suc n)),
      lib_Control = (\<lambda>_ _ bs k _ n. (0, take (unat k) bs, of_nat (min (unat k) (length bs)), Suc n)),
      lib_Transmit = (\<lambda>_ _ bs pci k n.
        (0, pci, (take (unat k) bs, of_nat (min (unat k) (length bs))), Suc n)),
      lib_GetAttrib = (\<lambda>_ _ k n. (0, (take (unat k) [7, 8], 2), Suc n)),
      lib_SetAttrib = (\<lambda>_ _ _ n. (0, Suc n)),
      lib_ListReaders = (\<lambda>_ wanted k n.
        (0, (if wanted then take (unat k) [82, 49, 0, 0] else [], 4), Suc n)),
      lib_ListReaderGroups = (\<lambda>_ wanted k n.
        (0, (if wanted then take (unat k) [71, 0, 0] else [], 3), Suc n))\<rparr>"

lemma demo_lib_simps [simp]:
  "lib_EstablishContext demo_lib = (\<lambda>_ _ n. (0, 0x1001, Suc n))"
  "lib_ReleaseContext demo_lib = (\<lambda>h n. (if h = 0x1001 then 0 else 0x80100003, Suc n))"
  "lib_IsValidContext demo_lib = (\<lambda>h n. (if h = 0x1001 then 0 else 0x80100003, Suc n))"
  "lib_Connect demo_lib = (\<lambda>_ name _ prot _ n.
     if name = [82, 49] then (0, (0x2002, prot), Suc n) else (0x80100009, (0, 0), Suc n))"
  "lib_Reconnect demo_lib = (\<lambda>_ _ prot _ _ n. (0, prot, Suc n))"
  "lib_Disconnect demo_lib = (\<lambda>h _ n. (if h = 0x2002 then 0 else 0x80100003, Suc n))"
  "lib_BeginTransaction demo_lib = (\<lambda>h n. (if h = 0x2002 then 0 else 0x80100003, Suc n))"
  "lib_EndTransaction demo_lib = (\<lambda>h _ n. (if h = 0x2002 then 0 else 0x80100003, Suc n))"
  "lib_Cancel demo_lib = (\<lambda>h n. (if h = 0x1001 then 0 else 0x80100003, Suc n))"
  "lib_Status demo_lib = (\<lambda>_ r a _ n.
     (0, (take (unat r) [82, 49, 0, 0], 4), (0x34, 1), (take (unat a) [0x3B, 0], 2), Suc n))"
  "lib_GetStatusChange demo_lib =
     (\<lambda>_ _ rs n. (0, map (\<lambda>r. r\<lparr>dwEventState := 0x22\<rparr>) rs, Suc n))"
  "lib_Control demo_lib =
     (\<lambda>_ _ bs k _ n. (0, take (unat k) bs, of_nat (min (unat k) (length bs)), Suc n))"
  "lib_Transmit demo_lib = (\<lambda>_ _ bs pci k n.
     (0, pci, (take (unat k) bs, of_nat (min (unat k) (length bs))), Suc n))"
  "lib_GetAttrib demo_lib = (\<lambda>_ _ k n. (0, (take (unat k) [7, 8], 2), Suc n))"
  "lib_SetAttrib demo_lib = (\<lambda>_ _ _ n. (0, Suc n))"
  "lib_ListReaders demo_lib = (\<lambda>_ wanted k n.
     (0, (if wanted then take (unat k) [82, 49, 0, 0] else [], 4), Suc n))"
  "lib_ListReaderGroups demo_lib = (\<lambda>_ wanted k n.
     (0, (if wanted then take (unat k) [71, 0, 0] else [], 3), Suc n))"
  by (simp_all add: demo_lib_def)

lemma demo_lib_within_capacity: "within_capacity demo_lib"
  by (auto simp: within_capacity_def)

section \<open>A network, a server stack and a client\<close>

definition demo_network :: network where
  "demo_network =
     \<lparr>cutting = (\<lambda>bs. [Arrive (take 1 bs), Arrive (drop 1 bs)]),
      accepting = [Accept 1, WriteFail EINTR, Accept PP_MAX_MESSAGE_LEN]\<rparr>"

lemma demo_lossless: "lossless demo_network"
  by (simp add: demo_network_def lossless_def)

definition demo_uninit :: uninit where
  "demo_uninit =
     \<lparr>u_msg = zeros, u_hContext = 0xAA, u_hCard = 0xBB, u_dwActiveProtocol = 0xCC,
      u_dwState = 0xDD, u_dwProtocol = 0xEE, u_malloc = (\<lambda>n. n \<le> 0x10000)\<rparr>"

definition demo_platform :: "'w tlsopts \<Rightarrow> 'w platform" where
  "demo_platform ops =
     \<lparr>build_options = \<lparr>ENABLE_NULLENC = True, USE_OPENSSL = True, USE_BLUETOOTH = False\<rparr>,
      tls_table = (\<lambda>_. ops), net_connect = (\<lambda>_ _ _ w. Inr (3, w)), close_fd = (\<lambda>_ w. w),
      getenv = (\<lambda>v. if v = ''PCSC_NULLENC'' then Some ''true''
                    else if v = ''PCSC_USER'' then Some ''u''
                    else if v = ''PCSC_PASSWD'' then Some ''p''
                    else if v = ''PCSC_SERVER'' then Some ''host'' else None),
      ttyname = (\<lambda>_. None), utmp_records = [], mutex_lock_rv = 0,
      malloc_contexts = True, malloc_cards = True, u_terminal = []\<rparr>"

lemma demo_platform_simps [simp]:
  "build_options (demo_platform ops) =
     \<lparr>ENABLE_NULLENC = True, USE_OPENSSL = True, USE_BLUETOOTH = False\<rparr>"
  "tls_table (demo_platform ops) k = ops"
  "net_connect (demo_platform ops) = (\<lambda>_ _ _ w. Inr (3, w))"
  "close_fd (demo_platform ops) = (\<lambda>_ w. w)"
  "getenv (demo_platform ops) v =
     (if v = ''PCSC_NULLENC'' then Some ''true'' else if v = ''PCSC_USER'' then Some ''u''
      else if v = ''PCSC_PASSWD'' then Some ''p''
      else if v = ''PCSC_SERVER'' then Some ''host'' else None)"
  "mutex_lock_rv (demo_platform ops) = 0" "malloc_contexts (demo_platform ops)"
  "malloc_cards (demo_platform ops)"
  by (simp_all add: demo_platform_def)

text \<open>A client before its first call, and one with context and card in slot 0.\<close>

definition fresh_client :: "'w \<Rightarrow> 'w client" where
  "fresh_client w =
     \<lparr>pp_context_array = None, pp_card_array = None, pp_context_locked = False,
      pp_card_locked = False, g_opts = None, g_tlsopts = None, world = w\<rparr>"

definition demo_context :: PP_CLIENT_CONTEXT where
  "demo_context = \<lparr>ctx_id = PP_CONTEXT_MAGIC, pcScContext = 0x1001, tlsContext = Some 0,
                   tlsSession = Some 1\<rparr>"

definition demo_card :: PP_CARD_CONTEXT where
  "demo_card = \<lparr>card_id = PP_CARD_MAGIC, pcScHandle = 0x2002, clientContext = Some 0\<rparr>"

definition demo_client :: "'w \<Rightarrow> 'w client" where
  "demo_client w =
     \<lparr>pp_context_array = Some (demo_context # replicate 63 zero_context),
      pp_card_array = Some (demo_card # replicate 63 zero_card),
      pp_context_locked = False, pp_card_locked = False, g_opts = Some Network,
      g_tlsopts = Some Nullenc, world = w\<rparr>"

abbreviation demo_link :: "nat link" where
  "demo_link \<equiv> \<lparr>srv = 0, inbox = []\<rparr>"

abbreviation demo_pl :: "nat link platform" where
  "demo_pl \<equiv> demo_platform (link_opts demo_lib demo_network demo_uninit)"

lemma demo_linked: "linked demo_lib demo_network demo_uninit demo_pl (demo_client demo_link)"
  by (simp add: linked_def demo_lossless tls_ops_def demo_client_def)

lemma demo_context_session:
  "context_session (demo_platform ops) 0x88345289 0 demo_context (demo_client w)"
  by (simp add: context_session_def demo_client_def pp_findContext_def get_context_def
      demo_context_def PP_CONTEXT_MAGIC_def)

lemma demo_card_session: "card_session (demo_platform ops) 0x38345289 demo_card (demo_client w)"
  by (simp add: card_session_def demo_client_def pp_findCard_def get_context_def get_card_def
      demo_card_def demo_context_def PP_CARD_MAGIC_def)

lemma demo_contexts_ok: "contexts_ok (demo_platform ops) (demo_client w)"
  by (auto simp: contexts_ok_def tls_available_def demo_client_def demo_context_def
      zero_context_def nth_Cons')

lemma demo_cards_ok: "cards_ok (demo_platform ops) (demo_client w)"
  by (auto simp: cards_ok_def demo_client_def demo_card_def zero_card_def nth_Cons')

lemma fresh_contexts_ok: "contexts_ok (demo_platform ops) (fresh_client w)"
  by (simp add: contexts_ok_def tls_available_def fresh_client_def pp_tlsopts_init_any_def)

lemma demo_client_world [simp]: "world (demo_client w) = w"
  by (simp add: demo_client_def)

lemma demo_card_handle [simp]: "pcScHandle demo_card = 0x2002"
  by (simp add: demo_card_def)

lemma demo_context_handle [simp]: "pcScContext demo_context = 0x1001"
  by (simp add: demo_context_def)

text \<open>The next card of the client gets slot 1.\<close>

lemma first_free_replicate:
  "0 < n \<Longrightarrow> first_free_card i (replicate n zero_card) = i"
  "0 < n \<Longrightarrow> first_free_context i (replicate n zero_context) = i"
  by (cases n; simp add: zero_card_def zero_context_def)+

lemma demo_createCard:
  "pp_createCard (demo_platform ops) 0 (demo_client w) = Inr (Some 1, set_card 1
     (zero_card\<lparr>card_id := of_nat 1 + PP_CARD_MAGIC, clientContext := Some 0\<rparr>) (demo_client w))"
proof -
  have "card_id demo_card \<noteq> 0" by (simp add: demo_card_def PP_CARD_MAGIC_def)
  then show ?thesis
    by (simp add: pp_createCard_def demo_client_def set_card_def first_free_replicate)
qed

end
