(* ===== verification/ServerSafe.thy ===== *)
theory ServerSafe
  imports Demo
begin

text \<open>
  The server against arbitrary messages: which handlers stay inside the message buffer, what a
  reply's header is, that the connection loop ends, and where a length in the message is
  trusted.
\<close>

section \<open>The header of a reply\<close>

lemma write_readerstate_header:
  "write_readerstate base r m = Inr m' \<Longrightarrow> 5 \<le> base \<Longrightarrow> msg_type m' = msg_type m \<and> msg_len m' = msg_len m"
  by (auto simp: write_readerstate_def msg_type_def msg_len_def buf_simps Let_def split: if_splits)

lemma write_readerstates_header:
  "write_readerstates base rs m = Inr m' \<Longrightarrow> 5 \<le> base \<Longrightarrow>
    msg_type m' = msg_type m \<and> msg_len m' = msg_len m"
proof (induction rs arbitrary: base m)
  case (Cons r rs)
  then obtain m1 where "write_readerstate base r m = Inr m1"
    "write_readerstates (base + sizeof s_readerstate) rs m1 = Inr m'"
    by (auto simp: outcome_simps)
  with Cons write_readerstate_header [of base r m m1] show ?case by fastforce
qed simp

lemma store_bytes_Inr:
  "store_bytes off bs m = Inr m' \<longleftrightarrow> m' = blit off bs m \<and> (bs = [] \<or> off + length bs \<le> PP_MAX_MESSAGE_LEN)"
  by (auto simp: store_bytes_def)

definition sized_commands :: "message_commands set" where
  "sized_commands = {SCARD_TRANSMIT, SCARD_LIST_READERS, SCARD_LIST_GROUPS}"

lemmas handler_defs =
  handleEstablishContext_def handleReleaseContext_def handleIsValidContext_def handleConnect_def
  handleReconnect_def handleDisconnect_def handleBeginTransaction_def handleEndTransaction_def
  handleCancelTransaction_def handleCancel_def handleStatus_def handleGetStatusChange_def
  handleControl_def handleGetAttrib_def handleSetAttrib_def

text \<open>C14 Whatever the message, its answer has the type of the request, and the length of the request
  too unless the command is a transmission or a list.\<close>

theorem dispatch_header:
  assumes "dispatch lib u cmd m s = Inr (m', s')"
  shows "msg_type m' = msg_type m \<and> (cmd \<notin> sized_commands \<longrightarrow> msg_len m' = msg_len m)"
  using assms
  by (cases cmd)
    (auto simp: handler_defs sized_commands_def outcome_simps msg_simps store_bytes_Inr Let_def
        handleTransmit_def handleListReaders_def handleListGroups_def split_beta
        dest!: write_readerstates_header split: if_splits)

lemma dispatch_header_witness:
  "\<exists>m' n. dispatch demo_lib demo_uninit SCARD_BEGIN_TRANSACTION (request SCARD_BEGIN_TRANSACTION 13) 0 =
     Inr (m', n) \<and> msg_type m' = 7 \<and> msg_len m' = 13"
  using dispatch_header [of demo_lib demo_uninit SCARD_BEGIN_TRANSACTION
      "request SCARD_BEGIN_TRANSACTION 13" 0]
  by (simp add: handleBeginTransaction_def sized_commands_def msg_simps command_code_def)

section \<open>Handlers that stay inside the message\<close>

text \<open>
  What PC/SC documents of \<open>SCardTransmit\<close>: no more bytes are stored than the buffer holds.  The length
  reported is another matter: with a buffer too small it is the length needed.
\<close>

definition transmit_within_capacity :: "'s pcsc \<Rightarrow> bool" where
  "transmit_within_capacity lib \<longleftrightarrow>
     (\<forall>h p b q n s. length (fst (fst (snd (snd (lib_Transmit lib h p b q n s))))) \<le> unat n)"

lemma clip_bound: "n < 2 ^ 64 \<Longrightarrow> unat (if of_nat n < x then of_nat n else x :: u64) \<le> n"
  by (simp add: word_less_nat_alt unat_of_nat not_less)

lemma unat_ucast_le: "unat (x :: u64) \<le> n \<Longrightarrow> unat (ucast x :: u32) \<le> n"
  by (simp add: unsigned_ucast_eq order_trans [OF take_bit_nat_less_eq_self])

text \<open>C16 Whatever lengths a transmit request claims, and whatever length the library reports, the
  handler neither reads nor writes outside the message.  A command too long for a message is refused
  without calling the library; for any other the library is given a buffer that fits the message, and
  the answer's length is that of the fixed part and of what the library reports, which fits the
  message as well when that is at most what a message can carry (as it is for every answer of a
  card: \<open>MAX_BUFFER_SIZE_EXTENDED\<close> is smaller), even if it is more than the client's buffer holds.\<close>

theorem handleTransmit_safe:
  assumes "transmit_within_capacity lib"
  shows "\<exists>m' s'. handleTransmit lib m s = Inr (m', s') \<and>
    (if max_transmit < unat (getf s_transmit F_cbBufferLength m) then unat (msg_len m') = 37 \<and> s' = s
     else \<exists>h sp bs rp0 n res rp out len.
       lib_Transmit lib h sp bs rp0 n s = (res, rp, (out, len), s') \<and>
       unat n \<le> max_transmit \<and> length bs \<le> max_transmit \<and> msg_len m' = 37 + ucast len \<and>
       (unat len \<le> max_transmit \<longrightarrow> unat (msg_len m') = 37 + unat len \<and> unat (msg_len m') \<le> PP_MAX_MESSAGE_LEN))"
proof (cases "max_transmit < unat (getf s_transmit F_cbBufferLength m)")
  case True
  then show ?thesis by (simp add: handleTransmit_def msg_simps)
next
  case False
  define n where "n = (if of_nat max_transmit < (ucast (getf s_transmit F_pcbRecvLength m) :: u64)
    then of_nat max_transmit else ucast (getf s_transmit F_pcbRecvLength m) :: u64)"
  let ?h = "scast (getf s_transmit F_hCard m) :: u64"
  let ?sp = "\<lparr>dwProtocol = ucast (getf s_transmit F_ioSendPciProtocol m),
       cbPciLength = ucast (getf s_transmit F_ioSendPciLength m)\<rparr> :: SCARD_IO_REQUEST"
  let ?bs = "bytes 37 (unat (getf s_transmit F_cbBufferLength m)) m"
  let ?rp = "\<lparr>dwProtocol = ucast (getf s_transmit F_ioRecvPciProtocol m),
       cbPciLength = ucast (getf s_transmit F_ioRecvPciLength m)\<rparr> :: SCARD_IO_REQUEST"
  obtain res rp out len s' where l: "lib_Transmit lib ?h ?sp ?bs ?rp n s = (res, rp, (out, len), s')"
    by (metis prod_cases3 surj_pair)
  have n: "unat n \<le> max_transmit" unfolding n_def by (rule clip_bound) simp
  have "length out \<le> unat n"
    using assms l unfolding transmit_within_capacity_def by (metis fst_conv snd_conv)
  with n have out: "length out \<le> 66523" by simp
  have fits: "unat (37 + ucast len :: u32) = 37 + unat len" if "unat len \<le> 66523"
    using that unat_ucast_le [of len 66523] by (simp add: unat_word_ariths unsigned_ucast_eq take_bit_nat_eq_self)
  have clip: "(if 66523 < (ucast (getf s_transmit F_pcbRecvLength m) :: u64) then 66523
      else ucast (getf s_transmit F_pcbRecvLength m) :: u64) = n" by (simp add: n_def)
  have store: "store_bytes 37 out m = Inr (blit 37 out m)" using out by (simp add: store_bytes_def)
  obtain m' where "handleTransmit lib m s = Inr (m', s')" "msg_len m' = 37 + ucast len"
    using False l clip store
    by (simp add: handleTransmit_def msg_simps Let_def split del: if_split cong del: if_weak_cong)
  then show ?thesis
    using False l n fits by (intro exI [of _ m'] exI [of _ s']) fastforce
qed

text \<open>A library that reports the length an answer needs, which is more than the request's buffer holds.\<close>

lemma handleTransmit_safe_witness:
  "\<exists>m' s'. handleTransmit (demo_lib\<lparr>lib_Transmit := \<lambda>_ _ _ pci _ n. (0x80100008, pci, ([], 600), n)\<rparr>)
      (putf s_transmit F_pcbRecvLength 2 (putf s_transmit F_cbBufferLength 4 zeros)) 0 = Inr (m', s') \<and>
    unat (msg_len m') = 637"
proof -
  let ?lib = "demo_lib\<lparr>lib_Transmit := \<lambda>_ _ _ pci _ n. (0x80100008, pci, ([], 600), n)\<rparr>"
  have "transmit_within_capacity ?lib" by (simp add: transmit_within_capacity_def)
  from handleTransmit_safe [OF this, of "putf s_transmit F_pcbRecvLength 2 (putf s_transmit F_cbBufferLength 4 zeros)" 0]
  show ?thesis by (auto simp: msg_simps)
qed

lemma within_capacity_Status:
  assumes "within_capacity lib" "lib_Status lib h n a z s = (res, (name, nl), st, (atr, al), s')"
  shows "length name \<le> unat n \<and> length atr \<le> unat a"
proof -
  from assms(1) have "length (fst (fst (snd (lib_Status lib h n a z s)))) \<le> unat n"
    "length (fst (fst (snd (snd (snd (lib_Status lib h n a z s)))))) \<le> unat a"
    by (cases z; simp add: within_capacity_def split_beta)+
  with assms(2) show ?thesis by simp
qed

text \<open>The status handler cuts both lengths to the arrays of the message: it never faults.\<close>

theorem handleStatus_safe:
  assumes "within_capacity lib"
  shows "\<exists>m' s'. handleStatus lib u m s = Inr (m', s') \<and> msg_len m' = msg_len m"
proof -
  define r where "r = (if of_nat MAX_READERNAME < (ucast (getf s_status F_pcchReaderLen m) :: u64)
    then of_nat MAX_READERNAME else ucast (getf s_status F_pcchReaderLen m) :: u64)"
  define a where "a = (if of_nat MAX_ATR_SIZE < (ucast (getf s_status F_pcbAtrLen m) :: u64)
    then of_nat MAX_ATR_SIZE else ucast (getf s_status F_pcbAtrLen m) :: u64)"
  obtain res name nl st atr al s' where l: "lib_Status lib (scast (getf s_status F_hCard m)) r a
      (u_dwState u, u_dwProtocol u) s = (res, (name, nl), st, (atr, al), s')"
    by (cases "lib_Status lib (scast (getf s_status F_hCard m)) r a (u_dwState u, u_dwProtocol u) s") auto
  have "unat r \<le> MAX_READERNAME" unfolding r_def by (rule clip_bound) simp
  moreover have "unat a \<le> MAX_ATR_SIZE" unfolding a_def by (rule clip_bound) simp
  ultimately have b: "unat r \<le> 128" "unat a \<le> 33" by simp_all
  have "length name \<le> unat r \<and> length atr \<le> unat a"
    using assms l by (rule within_capacity_Status)
  with b have "length name \<le> 128" "length atr \<le> 33" by auto
  then have "store_bytes 9 name x = Inr (blit 9 name x)" "store_bytes 149 atr x = Inr (blit 149 atr x)" for x
    by (simp_all add: store_bytes_def)
  moreover have "(if 128 < (ucast (getf s_status F_pcchReaderLen m) :: u64) then 128
      else ucast (getf s_status F_pcchReaderLen m) :: u64) = r"
    "(if 33 < (ucast (getf s_status F_pcbAtrLen m) :: u64) then 33
      else ucast (getf s_status F_pcbAtrLen m) :: u64) = a" by (simp_all add: r_def a_def)
  ultimately show ?thesis
    using l
    by (cases st) (simp add: handleStatus_def msg_simps Let_def split del: if_split cong del: if_weak_cong)
qed

lemma handleStatus_safe_witness:
  "\<exists>m' s'. handleStatus demo_lib demo_uninit (putf s_status F_pcchReaderLen 0xFFFFFFFF zeros) 0 = Inr (m', s')"
  using handleStatus_safe [OF demo_lib_within_capacity] by blast

section \<open>Handlers that trust a length\<close>

text \<open>The control handler hands the library as many bytes as the message claims: a claim beyond
  the buffer makes the library read outside of it.\<close>

theorem handleControl_overread:
  assumes "PP_MAX_MESSAGE_LEN < fld s_control F_pbSendBuffer + unat (getf s_control F_cbSendLength m)"
  shows "handleControl lib m s = Inl OutOfBounds"
  using assms by (simp add: handleControl_def read_bytes_def)

lemma handleControl_overread_witness:
  "handleControl demo_lib (putf s_control F_cbSendLength 0x20000 zeros) 0 = Inl OutOfBounds"
  using handleControl_overread [of "putf s_control F_cbSendLength 0x20000 zeros" demo_lib 0]
  by (simp add: msg_simps)

lemma cstring_fault: "cstring n off b = Inl e \<Longrightarrow> e = OutOfBounds"
  by (induction n off b rule: cstring.induct) (auto simp: outcome_simps split: if_splits)

lemma read_readerstate_fault: "read_readerstate base m = Inl e \<Longrightarrow> e = OutOfBounds"
  by (auto simp: read_readerstate_def read_string_def outcome_simps Let_def dest: cstring_fault
      split: if_splits)

lemma read_readerstates_overread:
  "PP_MAX_MESSAGE_LEN < base + sizeof s_readerstate * n \<Longrightarrow> 0 < n \<Longrightarrow>
    read_readerstates n base m = Inl OutOfBounds"
proof (induction n arbitrary: base)
  case (Suc n)
  show ?case
  proof (cases "read_readerstate base m")
    case (Inl e)
    with read_readerstate_fault [OF Inl] show ?thesis by simp
  next
    case (Inr r)
    then have "base + sizeof s_readerstate \<le> PP_MAX_MESSAGE_LEN"
      by (auto simp: read_readerstate_def split: if_splits)
    then have "0 < n" using Suc.prems by (cases n) auto
    with Suc Inr show ?thesis by simp
  qed
qed simp

text \<open>C39 The status change handler believes the number of readers in the message: with more than
  the message can hold, the server reads past its buffer.\<close>

theorem handleGetStatusChange_overread:
  assumes "PP_MAX_MESSAGE_LEN < fld s_getstatuschange F_readerStates +
      sizeof s_readerstate * unat (getf s_getstatuschange F_cReaders m)"
    and "u_malloc u (sizeof_SCARD_READERSTATE * unat (getf s_getstatuschange F_cReaders m))"
  shows "handleGetStatusChange lib u m s = Inl OutOfBounds"
proof -
  have "0 < unat (getf s_getstatuschange F_cReaders m)" using assms(1) by (cases "unat (getf s_getstatuschange F_cReaders m)") auto
  with assms read_readerstates_overread show ?thesis
    by (simp add: handleGetStatusChange_def)
qed

lemma handleGetStatusChange_overread_witness:
  "handleGetStatusChange demo_lib demo_uninit (putf s_getstatuschange F_cReaders 385 zeros) 0 =
    Inl OutOfBounds"
  using handleGetStatusChange_overread [of "putf s_getstatuschange F_cReaders 385 zeros" demo_uninit demo_lib 0]
  by (simp add: msg_simps demo_uninit_def sizeof_SCARD_READERSTATE_def)

section \<open>The connection loop ends\<close>

lemma sys_read_size: "sys_read n es = Inr (r, es') \<Longrightarrow> script_size es' \<le> script_size es"
  by (induction n es rule: sys_read.induct) (auto split: if_splits)

lemma recv_header_size:
  "recv_header br m es = Inr ((rc, br', m'), es') \<Longrightarrow>
    script_size es' \<le> script_size es \<and>
    (rc = None \<longrightarrow> 0 \<le> br \<longrightarrow> br < 5 \<longrightarrow> script_size es' < script_size es)"
proof (induction br m es arbitrary: rc br' m' es' rule: recv_header.induct)
  case (1 br m es)
  show ?case
  proof (cases "0 \<le> br \<and> nat br < sizeof s_msg_header")
    case False
    with "1.prems" show ?thesis by (subst (asm) recv_header.simps) auto
  next
    case True
    then obtain x es1 where r: "sys_read (sizeof s_msg_header - nat br) es = Inr (x, es1)"
      using "1.prems" by (subst (asm) recv_header.simps) (auto split: sum.splits)
    have le: "script_size es1 \<le> script_size es" using r by (rule sys_read_size)
    have lt: "x \<noteq> REof \<Longrightarrow> script_size es1 < script_size es"
      using sys_read_smaller [OF r] True by simp
    show ?thesis
    proof (cases x)
      case (RData bs)
      with "1.prems" True r have n: "recv_header (br + int (length bs)) (blit (nat br) bs m) es1 =
          Inr ((rc, br', m'), es')"
        by (subst (asm) recv_header.simps) simp
      from "1.IH"(1) [OF True r [unfolded RData] refl refl n] lt RData show ?thesis by simp
    next
      case REof
      with "1.prems" True r le show ?thesis by (subst (asm) recv_header.simps) (auto split: if_splits)
    next
      case (RErr e i)
      show ?thesis
      proof (cases "e = EINTR")
        case True': True
        with "1.prems" True r RErr have n: "recv_header (br + i) m es1 = Inr ((rc, br', m'), es')"
          by (subst (asm) recv_header.simps) simp
        from "1.IH"(2) [OF True r [unfolded RErr] refl refl _ n] True' lt RErr show ?thesis by auto
      next
        case False
        with "1.prems" True r RErr le show ?thesis by (subst (asm) recv_header.simps) auto
      qed
    qed
  qed
qed

lemma recv_payload_size:
  "recv_payload br m es = Inr ((rc, m'), es') \<Longrightarrow> script_size es' \<le> script_size es"
proof (induction br m es arbitrary: rc m' es' rule: recv_payload.induct)
  case (1 br m es)
  show ?case
  proof (cases "0 \<le> br \<and> nat br < unat (msg_len m)")
    case False
    with "1.prems" show ?thesis by (subst (asm) recv_payload.simps) auto
  next
    case True
    then obtain x es1 where r: "sys_read (unat (msg_len m) - nat br) es = Inr (x, es1)"
      using "1.prems" by (subst (asm) recv_payload.simps) (auto split: sum.splits)
    have le: "script_size es1 \<le> script_size es" using r by (rule sys_read_size)
    show ?thesis
    proof (cases x)
      case (RData bs)
      with "1.prems" True r have n: "recv_payload (br + int (length bs)) (blit (nat br) bs m) es1 =
          Inr ((rc, m'), es')"
        by (subst (asm) recv_payload.simps) simp
      from "1.IH" [OF True r [unfolded RData] refl refl n] le show ?thesis by simp
    next
      case REof
      with "1.prems" True r le show ?thesis by (subst (asm) recv_payload.simps) auto
    next
      case (RErr e i)
      with "1.prems" True r le show ?thesis by (subst (asm) recv_payload.simps) auto
    qed
  qed
qed

lemma recv_message_size:
  assumes "recv_message m es = Inr ((rc, m'), es')" "0 < rc"
  shows "script_size es' < script_size es"
proof -
  from assms obtain rc1 br m1 es1 where h: "recv_header 0 m es = Inr ((rc1, br, m1), es1)"
    by (auto simp: recv_message_def split: sum.splits)
  show ?thesis
  proof (cases rc1)
    case None
    with recv_header_size [OF h] have lt: "script_size es1 < script_size es" by simp
    from assms h None have "recv_payload br m1 es1 = Inr ((rc, m'), es')"
      by (auto simp: recv_message_def split: if_splits)
    from recv_payload_size [OF this] lt show ?thesis by simp
  next
    case (Some x)
    with h recv_header_range [OF h] have "x = 0 \<or> x = - 1" by auto
    with assms h Some show ?thesis by (auto simp: recv_message_def)
  qed
qed

lemma nullenc_recv_size:
  assumes "heap w p = Some sk" "nullenc_tls_recv (Some p) m w = Inr (rc, m', w')" "0 < rc"
  shows "script_size (rx (chan w' (Sock sk))) < script_size (rx (chan w (Sock sk)))"
    "heap w' p = Some sk"
proof -
  from assms(1,2) obtain es where
    r: "recv_message m (rx (chan w (Sock sk))) = Inr ((rc, m'), es)"
    and w': "w' = w\<lparr>chan := (chan w)(Sock sk := (chan w (Sock sk))\<lparr>rx := es\<rparr>)\<rparr>"
    by (auto simp: nullenc_tls_recv_def deref_def recv_on_Inr)
  from recv_message_size [OF r assms(3)] w' assms(1)
  show "script_size (rx (chan w' (Sock sk))) < script_size (rx (chan w (Sock sk)))"
    "heap w' p = Some sk" by simp_all
qed

section \<open>The connection loop does not wait for ever\<close>

text \<open>A script in which the peer closes: every receive returns, and the end of the stream stays.\<close>

lemma script_size_closed: "Closed \<in> set es \<Longrightarrow> 0 < script_size es"
  by (induction es rule: script_size.induct) auto

lemma sys_read_ends:
  "Closed \<in> set es \<Longrightarrow> \<exists>r es'. sys_read n es = Inr (r, es') \<and> Closed \<in> set es'"
  by (induction n es rule: sys_read.induct) auto

lemma recv_header_ends:
  "Closed \<in> set es \<Longrightarrow> \<exists>r es'. recv_header br m es = Inr (r, es') \<and> Closed \<in> set es'"
proof (induction es arbitrary: br m rule: measure_induct_rule [of script_size])
  case (less es)
  show ?case
  proof (cases "0 \<le> br \<and> nat br < 5")
    case False
    with less.prems show ?thesis by (auto simp: recv_header_done)
  next
    case True
    obtain r es1 where r: "sys_read (5 - nat br) es = Inr (r, es1)" "Closed \<in> set es1"
      using sys_read_ends [OF less.prems] by blast
    have "r \<noteq> REof \<Longrightarrow> script_size es1 < script_size es" using sys_read_smaller [OF r(1)] True by simp
    with less.IH r True show ?thesis by (subst recv_header.simps) (auto split: read_result.splits)
  qed
qed

lemma recv_payload_ends:
  "Closed \<in> set es \<Longrightarrow> \<exists>r es'. recv_payload br m es = Inr (r, es') \<and> Closed \<in> set es'"
proof (induction es arbitrary: br m rule: measure_induct_rule [of script_size])
  case (less es)
  show ?case
  proof (cases "0 \<le> br \<and> nat br < unat (msg_len m)")
    case False
    with less.prems show ?thesis by (subst recv_payload.simps) auto
  next
    case True
    obtain r es1 where r: "sys_read (unat (msg_len m) - nat br) es = Inr (r, es1)" "Closed \<in> set es1"
      using sys_read_ends [OF less.prems] by blast
    have "r \<noteq> REof \<Longrightarrow> script_size es1 < script_size es" using sys_read_smaller [OF r(1)] True by simp
    with less.IH r True show ?thesis by (subst recv_payload.simps) (auto split: read_result.splits)
  qed
qed

lemma recv_message_ends:
  assumes "Closed \<in> set es"
  shows "\<exists>r es'. recv_message m es = Inr (r, es') \<and> Closed \<in> set es'"
proof -
  obtain rc br m1 es1 where h: "recv_header 0 m es = Inr ((rc, br, m1), es1)" and c: "Closed \<in> set es1"
    using recv_header_ends [OF assms] by fastforce
  show ?thesis
  proof (cases rc)
    case None
    with h c recv_payload_ends [OF c, of br m1] show ?thesis by (auto simp: recv_message_def)
  next
    case (Some x)
    with h c show ?thesis by (auto simp: recv_message_def)
  qed
qed

text \<open>How many whole messages the peer will take: calls that accept any message, before a failure.\<close>

fun takes :: "write_event list \<Rightarrow> nat" where
  "takes [] = 0"
| "takes (Accept k # ws) = (if PP_MAX_MESSAGE_LEN \<le> k then Suc (takes ws) else takes ws)"
| "takes (WriteFail e # ws) = (if e = EINTR then takes ws else 0)"

lemma takes_replicate: "PP_MAX_MESSAGE_LEN \<le> k \<Longrightarrow> takes (replicate n (Accept k)) = n"
  by (induction n) simp_all

lemma send_loop_takes:
  "0 < takes ws \<Longrightarrow> pos + n \<le> PP_MAX_MESSAGE_LEN \<Longrightarrow>
    \<exists>ws'. send_loop pos (int n) m ws out = Inr (0, ws', out @ bytes pos n m) \<and> takes ws \<le> Suc (takes ws')"
proof (induction ws arbitrary: pos n out)
  case (Cons w ws)
  show ?case
  proof (cases "n = 0")
    case True
    then show ?thesis by (simp add: send_loop_simps)
  next
    case n: False
    show ?thesis
    proof (cases w)
      case (WriteFail e)
      with Cons n show ?thesis by (simp add: send_loop_simps split: if_splits)
    next
      case (Accept k)
      show ?thesis
      proof (cases "PP_MAX_MESSAGE_LEN \<le> k")
        case True
        with Cons.prems(2) have "min k n = n" by simp
        with True n Accept Cons.prems(2) show ?thesis by (auto simp: send_loop_simps)
      next
        case False
        let ?i = "min k n"
        have "0 < takes ws" "pos + ?i + (n - ?i) \<le> PP_MAX_MESSAGE_LEN"
          using Cons.prems Accept False by auto
        then obtain ws' where "send_loop (pos + ?i) (int (n - ?i)) m ws (out @ bytes pos ?i m) =
            Inr (0, ws', (out @ bytes pos ?i m) @ bytes (pos + ?i) (n - ?i) m)" "takes ws \<le> Suc (takes ws')"
          using Cons.IH by blast
        with Accept n False Cons.prems show ?thesis
          by (auto simp: send_loop_simps simp flip: bytes_add)
      qed
    qed
  qed
qed simp

lemma send_on_takes:
  assumes "0 < takes (wx (chan w st))" "unat (msg_len m) \<le> PP_MAX_MESSAGE_LEN"
  shows "\<exists>w'. send_on st m w = Inr (0, w') \<and> heap w' = heap w \<and> sent (chan w' st) = sent (chan w st) @ frame m \<and>
    rx (chan w' st) = rx (chan w st) \<and> takes (wx (chan w st)) \<le> Suc (takes (wx (chan w' st)))"
  using send_loop_takes [OF assms(1), of 0 "unat (msg_len m)" m "sent (chan w st)"] assms(2)
  by (auto simp: send_on_def send_message_def sint_msg_len frame_def)

text \<open>A message longer than the buffer is not sent at all: the first call reads outside of it.\<close>

lemma send_too_long:
  assumes "PP_MAX_MESSAGE_LEN < unat (msg_len m)"
  shows "send_on st m w = Inl OutOfBounds"
proof -
  have "sint (msg_len m) \<noteq> 0"
  proof
    assume "sint (msg_len m) = 0"
    then have "of_int (sint (msg_len m)) = (0 :: u32)" by (simp only: of_int_0)
    with assms show False by simp
  qed
  moreover have "sint (msg_len m) < 0 \<or> int PP_MAX_MESSAGE_LEN < sint (msg_len m)"
  proof (cases "sint (msg_len m) < 0")
    case False
    then have "uint (msg_len m) = sint (msg_len m)"
      using sint_less [of "msg_len m"] by (simp add: uint_sint take_bit_int_eq_self)
    with assms show ?thesis by (simp add: uint_nat)
  qed simp
  ultimately show ?thesis by (simp add: send_on_def send_message_def send_loop.simps [of 0])
qed

text \<open>No handler waits.\<close>

lemma accesses_not_blocked:
  "read_bytes off n m \<noteq> Inl Blocked" "store_bytes off bs m \<noteq> Inl Blocked" "read_string off m \<noteq> Inl Blocked"
proof -
  have "cstring n off b \<noteq> Inl Blocked" for n off b by (induction n off b rule: cstring.induct) (auto simp: outcome_simps)
  then show "read_string off m \<noteq> Inl Blocked" by (simp add: read_string_def)
qed (simp_all add: read_bytes_def store_bytes_def)

lemma readerstates_not_blocked:
  "read_readerstates n base m \<noteq> Inl Blocked" "write_readerstates base rs m \<noteq> Inl Blocked"
proof -
  have r: "read_readerstate base m \<noteq> Inl Blocked" for base
    by (simp add: read_readerstate_def outcome_simps accesses_not_blocked Let_def)
  have w: "write_readerstate base r m \<noteq> Inl Blocked" for base r m
    by (simp add: write_readerstate_def Let_def)
  show "read_readerstates n base m \<noteq> Inl Blocked"
    by (induction n arbitrary: base) (auto simp: outcome_simps r)
  show "write_readerstates base rs m \<noteq> Inl Blocked"
    by (induction rs arbitrary: base m) (auto simp: outcome_simps w)
qed

lemma dispatch_not_blocked: "dispatch lib u c m s \<noteq> Inl Blocked"
  by (cases c)
    (auto simp: handler_defs handleTransmit_def handleListReaders_def handleListGroups_def outcome_simps
        accesses_not_blocked readerstates_not_blocked Let_def split_beta split: if_splits)

lemma nextMsg_progress:
  assumes "heap w p = Some sk" "pp_nextMsg pp_nullenc_opts lib u (Some p) w s = Inr (0, w', s')"
  shows "script_size (rx (chan w' (Sock sk))) < script_size (rx (chan w (Sock sk)))"
    "heap w' p = Some sk"
proof -
  from assms(2) obtain rc m w1 where r: "nullenc_tls_recv (Some p) (u_msg u) w = Inr (rc, m, w1)"
    by (auto simp: pp_nextMsg_def outcome_simps)
  with assms(2) have pos: "0 < rc"
    by (auto simp: pp_nextMsg_def split: if_splits)
  note w1 = nullenc_recv_size [OF assms(1) r pos]
  from assms(2) r pos obtain m2 rv where t: "nullenc_tls_send (Some p) m2 w1 = Inr (rv, w')"
    by (auto simp: pp_nextMsg_def outcome_simps split: option.splits if_splits)
  from nullenc_send_rx [OF w1(2) t] w1
  show "script_size (rx (chan w' (Sock sk))) < script_size (rx (chan w (Sock sk)))"
    "heap w' p = Some sk" by simp_all
qed

lemma nullenc_recv_ends:
  assumes "heap w p = Some sk" "Closed \<in> set (rx (chan w (Sock sk)))"
  obtains rc m' w' where "nullenc_tls_recv (Some p) m w = Inr (rc, m', w')" "heap w' p = Some sk"
    "Closed \<in> set (rx (chan w' (Sock sk)))" "wx (chan w' (Sock sk)) = wx (chan w (Sock sk))"
proof -
  obtain rc m' es where "recv_message m (rx (chan w (Sock sk))) = Inr ((rc, m'), es)" "Closed \<in> set es"
    using recv_message_ends [OF assms(2), of m] by fastforce
  with assms(1) show thesis
    by (intro that [where w' = "w\<lparr>chan := (chan w)(Sock sk := (chan w (Sock sk))\<lparr>rx := es\<rparr>)\<rparr>"])
      (simp_all add: nullenc_tls_recv_def deref_def recv_on_def)
qed

lemma nullenc_send_ends:
  assumes "heap w p = Some sk" "0 < takes (wx (chan w (Sock sk)))"
  shows "nullenc_tls_send (Some p) m w \<noteq> Inl Blocked"
    "nullenc_tls_send (Some p) m w = Inr (rc, w') \<Longrightarrow> takes (wx (chan w (Sock sk))) \<le> Suc (takes (wx (chan w' (Sock sk))))"
  using assms send_on_takes [OF assms(2), of m] send_too_long [of m "Sock sk" w]
  by (cases "unat (msg_len m) \<le> PP_MAX_MESSAGE_LEN"; auto simp: nullenc_tls_send_def deref_def)+

lemma nextMsg_ends:
  assumes "heap w p = Some sk" "Closed \<in> set (rx (chan w (Sock sk)))" "0 < takes (wx (chan w (Sock sk)))"
  shows "pp_nextMsg pp_nullenc_opts lib u (Some p) w s \<noteq> Inl Blocked"
    "pp_nextMsg pp_nullenc_opts lib u (Some p) w s = Inr (0, w', s') \<Longrightarrow>
      Closed \<in> set (rx (chan w' (Sock sk))) \<and> takes (wx (chan w (Sock sk))) \<le> Suc (takes (wx (chan w' (Sock sk))))"
proof -
  obtain rc m w1 where r: "nullenc_tls_recv (Some p) (u_msg u) w = Inr (rc, m, w1)" and w1: "heap w1 p = Some sk"
    "Closed \<in> set (rx (chan w1 (Sock sk)))" "wx (chan w1 (Sock sk)) = wx (chan w (Sock sk))"
    using nullenc_recv_ends [OF assms(1,2)] by metis
  note s = nullenc_send_ends [OF w1(1), unfolded w1(3), OF assms(3)]
  show "pp_nextMsg pp_nullenc_opts lib u (Some p) w s \<noteq> Inl Blocked"
    using r s(1)
    by (auto simp: pp_nextMsg_def outcome_simps dispatch_not_blocked split: option.splits if_splits)
  assume "pp_nextMsg pp_nullenc_opts lib u (Some p) w s = Inr (0, w', s')"
  with r obtain m2 rv where t: "nullenc_tls_send (Some p) m2 w1 = Inr (rv, w')"
    by (auto simp: pp_nextMsg_def outcome_simps split: option.splits if_splits)
  from s(2) [OF t] nullenc_send_rx [OF w1(1) t] w1
  show "Closed \<in> set (rx (chan w' (Sock sk))) \<and> takes (wx (chan w (Sock sk))) \<le> Suc (takes (wx (chan w' (Sock sk))))"
    by simp
qed



end
