(* ===== verification/Transparent.thy ===== *)
theory Transparent
  imports Demo
begin

text \<open>
  Transparency: over a link, a function of the client library returns what the function of the
  server's PC/SC library returns for the server's handle, and the arguments arrive unchanged.
  All values pass through 32-bit fields, hence the truncations \<open>ucast\<close> in the statements.
\<close>

section \<open>Functions on a card without data\<close>

text \<open>SCardBeginTransaction on the client is SCardBeginTransaction of the server's library on the server's card handle: the code it returns and the library state are those of that call, for every network that loses nothing.\<close>

theorem SCardBeginTransaction_transparent:
  assumes "linked lib N u pl c" "card_session pl hCard cd c"
    and "lib_BeginTransaction lib (scast (pcScHandle cd)) (srv (world c)) = (res, s')"
  shows "SCardBeginTransaction pl hCard c = Inr (ucast (ucast res :: u32), after s' c)"
proof -
  define m where "m = putf s_begin F_hCard (pcScHandle cd) (request SCARD_BEGIN_TRANSACTION 13)"
  let ?b = "blit 0 (frame m) (u_msg u)"
  obtain k where f: "pp_findCard pl (ucast hCard) c = Inr (Some k)" "get_card k c = Inr cd"
    using assms(2) by (rule card_found)
  have "dispatch lib u SCARD_BEGIN_TRANSACTION ?b (srv (world c)) =
      Inr (putf s_begin F_rv (ucast res) ?b, s')"
    using assms(3) by (simp add: handleBeginTransaction_def m_def msg_simps)
  from link_card [OF assms(1,2) _ this] have "card_exchange pl cd m c =
      Inr (0, blit 0 (frame (putf s_begin F_rv (ucast res) ?b)) m, after s' c)"
    by (simp add: m_def msg_simps)
  then show ?thesis
    using f by (simp add: SCardBeginTransaction_def m_def msg_simps)
qed

lemma SCardBeginTransaction_transparent_witness:
  "SCardBeginTransaction demo_pl 0x38345289 (demo_client demo_link) = Inr (0, after 1 (demo_client demo_link))"
  using SCardBeginTransaction_transparent [OF demo_linked demo_card_session] by simp

text \<open>SCardEndTransaction passes the server's card handle and the disposition, and returns the library's code.\<close>

theorem SCardEndTransaction_transparent:
  assumes "linked lib N u pl c" "card_session pl hCard cd c"
    and "lib_EndTransaction lib (scast (pcScHandle cd)) (ucast (ucast dwDisposition :: u32)) (srv (world c)) = (res, s')"
  shows "SCardEndTransaction pl hCard dwDisposition c = Inr (ucast (ucast res :: u32), after s' c)"
proof -
  define m where "m = putf s_end F_dwDisposition (ucast dwDisposition) (putf s_end F_hCard (pcScHandle cd) (request SCARD_END_TRANSACTION 17))"
  let ?b = "blit 0 (frame m) (u_msg u)"
  obtain k where f: "pp_findCard pl (ucast hCard) c = Inr (Some k)" "get_card k c = Inr cd"
    using assms(2) by (rule card_found)
  have "dispatch lib u SCARD_END_TRANSACTION ?b (srv (world c)) =
      Inr (putf s_end F_rv (ucast res) ?b, s')"
    using assms(3) by (simp add: handleEndTransaction_def m_def msg_simps)
  from link_card [OF assms(1,2) _ this] have "card_exchange pl cd m c =
      Inr (0, blit 0 (frame (putf s_end F_rv (ucast res) ?b)) m, after s' c)"
    by (simp add: m_def msg_simps)
  then show ?thesis
    using f by (simp add: SCardEndTransaction_def m_def msg_simps)
qed

lemma SCardEndTransaction_transparent_witness:
  "SCardEndTransaction demo_pl 0x38345289 2 (demo_client demo_link) = Inr (0, after 1 (demo_client demo_link))"
  using SCardEndTransaction_transparent [OF demo_linked demo_card_session, where dwDisposition = 2] by simp

text \<open>SCardDisconnect passes the server's card handle and the disposition and returns the library's code.  The client's state is otherwise unchanged: the card's slot stays in use.\<close>

theorem SCardDisconnect_transparent:
  assumes "linked lib N u pl c" "card_session pl hCard cd c"
    and "lib_Disconnect lib (scast (pcScHandle cd)) (ucast (ucast dwDisposition :: u32)) (srv (world c)) = (res, s')"
  shows "SCardDisconnect pl hCard dwDisposition c = Inr (ucast (ucast res :: u32), after s' c)"
proof -
  define m where "m = putf s_disconnect F_dwDisposition (ucast dwDisposition) (putf s_disconnect F_hCard (pcScHandle cd) (request SCARD_DISCONNECT 17))"
  let ?b = "blit 0 (frame m) (u_msg u)"
  obtain k where f: "pp_findCard pl (ucast hCard) c = Inr (Some k)" "get_card k c = Inr cd"
    using assms(2) by (rule card_found)
  have "dispatch lib u SCARD_DISCONNECT ?b (srv (world c)) =
      Inr (putf s_disconnect F_rv (ucast res) ?b, s')"
    using assms(3) by (simp add: handleDisconnect_def m_def msg_simps)
  from link_card [OF assms(1,2) _ this] have "card_exchange pl cd m c =
      Inr (0, blit 0 (frame (putf s_disconnect F_rv (ucast res) ?b)) m, after s' c)"
    by (simp add: m_def msg_simps)
  then show ?thesis
    using f by (simp add: SCardDisconnect_def m_def msg_simps)
qed

lemma SCardDisconnect_transparent_witness:
  "SCardDisconnect demo_pl 0x38345289 1 (demo_client demo_link) = Inr (0, after 1 (demo_client demo_link))"
  using SCardDisconnect_transparent [OF demo_linked demo_card_session, where dwDisposition = 1] by simp

text \<open>SCardReconnect passes the share mode, the protocols and the initialization to the server's library, and gives back its code and the active protocol.\<close>

theorem SCardReconnect_transparent:
  assumes "linked lib N u pl c" "card_session pl hCard cd c"
    and "lib_Reconnect lib (scast (pcScHandle cd)) (ucast (ucast share :: u32)) (ucast (ucast prots :: u32))
      (ucast (ucast ini :: u32)) (u_dwActiveProtocol u) (srv (world c)) = (res, prot, s')"
  shows "SCardReconnect pl hCard share prots ini c = 
    Inr (ucast (ucast res :: u32), Some (ucast (ucast prot :: u32)), after s' c)"
proof -
  define m where "m = putf s_reconnect F_dwInitialization (ucast ini) (putf s_reconnect F_dwPreferredProtocols (ucast prots) (putf s_reconnect F_dwShareMode (ucast share) (putf s_reconnect F_hCard (pcScHandle cd) (request SCARD_RECONNECT 29))))"
  let ?b = "blit 0 (frame m) (u_msg u)"
  obtain k where f: "pp_findCard pl (ucast hCard) c = Inr (Some k)" "get_card k c = Inr cd"
    using assms(2) by (rule card_found)
  have "dispatch lib u SCARD_RECONNECT ?b (srv (world c)) =
      Inr (putf s_reconnect F_rv (ucast res) (putf s_reconnect F_dwActiveProtocol (ucast prot) ?b), s')"
    using assms(3) by (simp add: handleReconnect_def m_def msg_simps)
  from link_card [OF assms(1,2) _ this] have "card_exchange pl cd m c =
      Inr (0, blit 0 (frame (putf s_reconnect F_rv (ucast res) (putf s_reconnect F_dwActiveProtocol (ucast prot) ?b))) m, after s' c)"
    by (simp add: m_def msg_simps)
  then show ?thesis
    using f by (simp add: SCardReconnect_def m_def msg_simps)
qed

lemma SCardReconnect_transparent_witness:
  "SCardReconnect demo_pl 0x38345289 2 3 1 (demo_client demo_link) = 
    Inr (0, Some 3, after 1 (demo_client demo_link))"
  using SCardReconnect_transparent [OF demo_linked demo_card_session, where share = 2 and prots = 3 and ini = 1] by simp

section \<open>Connecting to a card\<close>

lemma strncpy_field:
  assumes "length s \<le> n"
  shows "bytes off (Suc n) ((strncpy off s n m)(off + n := 0)) = s @ replicate (Suc n - length s) 0"
  using assms
  by (auto simp: list_eq_iff_nth_eq nth_bytes strncpy_def blit_def nth_append)

lemma strncpy_string:
  assumes "length s \<le> n"
  shows "bytes off (Suc (length s)) ((strncpy off s n m)(off + n := 0)) = s @ [0]"
proof -
  let ?b = "(strncpy off s n m)(off + n := 0)"
  have "bytes off (Suc (length s)) ?b = take (Suc (length s)) (bytes off (Suc n) ?b)"
    using assms bytes_add [of off "Suc (length s)" "n - length s" ?b] by simp
  with strncpy_field [OF assms, of off m] assms show ?thesis
    by (simp add: Suc_diff_le)
qed

definition connect_request :: "u32 \<Rightarrow> u8 list \<Rightarrow> u64 \<Rightarrow> u64 \<Rightarrow> buffer" where
  "connect_request hid reader share prots =
     putf s_connect F_dwPreferredProtocols (ucast prots)
       (putf s_connect F_dwShareMode (ucast share)
         ((strncpy 9 reader 127 (putf s_connect F_hContext hid (request SCARD_CONNECT 157)))
            (136 := 0)))"

lemma connect_request_simps [msg_simps]:
  assumes "length reader < 128"
  shows "msg_len (connect_request hid reader share prots) = 157"
  "msg_type (connect_request hid reader share prots) = command_code SCARD_CONNECT"
  "getf s_connect F_hContext (connect_request hid reader share prots) = hid"
  "getf s_connect F_dwShareMode (connect_request hid reader share prots) = ucast share"
  "getf s_connect F_dwPreferredProtocols (connect_request hid reader share prots) = ucast prots"
  "bytes 9 (Suc (length reader)) (connect_request hid reader share prots) = reader @ [0]"
  using assms strncpy_string [of reader 127 9]
  by (simp_all add: connect_request_def msg_simps strncpy_def msg_len_def msg_type_def putf_def getf_def buf_simps
      request_def set_msg_len_def set_msg_type_def)

lemma connect_dispatch:
  assumes "length reader < 128" "\<forall>b \<in> set reader. b \<noteq> 0"
    and "lib_Connect lib (ucast hid) reader (ucast (ucast share :: u32)) (ucast (ucast prots :: u32))
      (u_hCard u, u_dwActiveProtocol u) s = (res, (hc, prot), s')"
  defines "b \<equiv> blit 0 (frame (connect_request hid reader share prots)) (u_msg u)"
  shows "dispatch lib u SCARD_CONNECT b s =
    Inr (putf s_connect F_rv (ucast res) (putf s_connect F_dwActiveProtocol (ucast prot)
      (putf s_connect F_hCard (ucast hc) b)), s')"
proof -
  have "read_string 9 b = Inr reader"
    unfolding read_string_def
    by (rule cstring_found) (use assms(1,2) in \<open>auto simp: b_def msg_simps\<close>)
  with assms(1,3) show ?thesis
    by (simp add: handleConnect_def b_def msg_simps)
qed

lemma linked_set_card [simp]:
  "linked lib N u pl (c\<lparr>pp_card_array := a\<rparr>) = linked lib N u pl c"
  "linked lib N u pl (set_card k cd c) = linked lib N u pl c"
  "world (set_card k cd c) = world c"
  by (simp_all add: linked_def tls_ops_def set_card_def)

lemma context_session_card [simp]:
  "context_session pl h i p (c\<lparr>pp_card_array := a\<rparr>) = context_session pl h i p c"
  by (simp add: context_session_def pp_findContext_def get_context_def)

text \<open>The slot \<open>pp_createCard\<close> hands out, and what it leaves of the client.\<close>

lemma createCard_result:
  assumes "cards_ok pl c" "pp_createCard pl i c = Inr (Some k, c1)"
  shows "k < 64" "\<exists>arr. c1 = c\<lparr>pp_card_array := Some arr\<rparr> \<and> length arr = 64 \<and>
    card_id (arr ! k) = of_nat k + PP_CARD_MAGIC \<and> clientContext (arr ! k) = Some i"
  using createCard_some [OF assms] assms card_slots_ok [OF assms(1)]
  by (auto simp: createCard_Inr Let_def split: if_splits)

lemma connect_reply:
  assumes "linked lib N u pl c" "cards_ok pl c" "context_session pl hContext i p c"
    and "pp_createCard pl i c = Inr (Some k, c1)"
    and "length reader < MAX_READERNAME" "\<forall>b \<in> set reader. b \<noteq> 0"
    and "lib_Connect lib (ucast (pcScContext p)) reader (ucast (ucast share :: u32))
      (ucast (ucast prots :: u32)) (u_hCard u, u_dwActiveProtocol u) (srv (world c)) =
      (res, (hc, prot), s')"
  shows "\<exists>cd. get_card k (after s' c1) = Inr cd \<and> card_id cd = of_nat k + PP_CARD_MAGIC \<and>
    clientContext cd = Some i \<and>
    SCardConnect pl hContext (Some reader) share prots c =
      (if ucast res = (0 :: u32) then
         Inr (0, Some (ucast (of_nat k + PP_CARD_MAGIC :: u32), ucast (ucast prot :: u32)),
           set_card k (cd\<lparr>pcScHandle := ucast hc\<rparr>) (after s' c1))
       else
         bindo (pp_releaseCard pl (of_nat k + PP_CARD_MAGIC) (after s' c1))
           (\<lambda>c. Inr (ucast (ucast res :: u32), None, c)))"
proof -
  from createCard_result [OF assms(2,4)] obtain arr where
    c1: "c1 = c\<lparr>pp_card_array := Some arr\<rparr>" "length arr = 64" "k < 64"
    and cd: "card_id (arr ! k) = of_nat k + PP_CARD_MAGIC" "clientContext (arr ! k) = Some i"
    by blast
  let ?m = "connect_request (pcScContext p) reader share prots"
  let ?b = "blit 0 (frame ?m) (u_msg u)"
  let ?r = "putf s_connect F_rv (ucast res) (putf s_connect F_dwActiveProtocol (ucast prot)
      (putf s_connect F_hCard (ucast hc) ?b))"
  have l: "length reader < 128" using assms(5) by simp
  have "linked lib N u pl c1" "context_session pl hContext i p c1" "world c1 = world c"
    using assms(1,3) by (simp_all add: c1)
  from link_context [OF this(1,2) _ connect_dispatch [OF l assms(6)]] this(3) assms(7) l
  have x: "pp_exchangeMsg pl i ?m c1 = Inr (0, blit 0 (frame ?r) ?m, after s' c1)"
    by (simp add: msg_simps)
  have g: "get_context i c1 = Inr p" "pp_findContext pl (ucast hContext) c = Inr (Some i)"
    "get_card k (after s' c1) = Inr (arr ! k)"
    using assms(3) c1 by (auto simp: context_session_def get_context_def get_card_def)
  have ok: "ucast (w :: u32) = SCARD_S_SUCCESS \<longleftrightarrow> w = 0" for w
    by (metis SCARD_S_SUCCESS_def ucast_ucast_32 unsigned_0)
  show ?thesis
    using l g x assms(4) cd by (simp add: SCardConnect_def ok msg_simps flip: connect_request_def)
qed

text \<open>C8 SCardConnect that succeeds on the server: the reader name, share mode and protocols arrive
  unchanged, the application is given the handle of a fresh slot and the active protocol, and
  the handle denotes the server's card from then on.\<close>

theorem SCardConnect_success:
  assumes "linked lib N u pl c" "cards_ok pl c" "context_session pl hContext i p c"
    and "pp_createCard pl i c = Inr (Some k, c1)"
    and "length reader < MAX_READERNAME" "\<forall>b \<in> set reader. b \<noteq> 0"
    and "lib_Connect lib (ucast (pcScContext p)) reader (ucast (ucast share :: u32))
      (ucast (ucast prots :: u32)) (u_hCard u, u_dwActiveProtocol u) (srv (world c)) =
      (res, (hc, prot), s')"
    and "ucast res = (0 :: u32)"
  shows "\<exists>c' cd. SCardConnect pl hContext (Some reader) share prots c =
      Inr (0, Some (ucast (of_nat k + PP_CARD_MAGIC :: u32), ucast (ucast prot :: u32)), c') \<and>
    \<not> card_used c k \<and> card_used c' = (card_used c)(k := True) \<and>
    card_session pl (ucast (of_nat k + PP_CARD_MAGIC :: u32)) cd c' \<and> pcScHandle cd = ucast hc \<and>
    linked lib N u pl c' \<and> srv (world c') = s'"
proof -
  from connect_reply [OF assms(1-7)] assms(8) obtain cd where
    cd: "get_card k (after s' c1) = Inr cd" "card_id cd = of_nat k + PP_CARD_MAGIC"
      "clientContext cd = Some i"
    and r: "SCardConnect pl hContext (Some reader) share prots c =
      Inr (0, Some (ucast (of_nat k + PP_CARD_MAGIC :: u32), ucast (ucast prot :: u32)),
        set_card k (cd\<lparr>pcScHandle := ucast hc\<rparr>) (after s' c1))" by auto
  from createCard_result [OF assms(2,4)] obtain arr where
    c1: "c1 = c\<lparr>pp_card_array := Some arr\<rparr>" "length arr = 64" "k < 64" by blast
  note slot = createCard_some [OF assms(2,4)]
  let ?cd = "cd\<lparr>pcScHandle := ucast hc\<rparr>"
  let ?c = "set_card k ?cd (after s' c1)"
  have arr: "arr ! k = cd" using cd(1) c1 by (simp add: get_card_def)
  have "pp_card_array ?c = Some (arr[k := ?cd])" by (simp add: set_card_def c1)
  moreover have "card_used ?c = card_used c1"
    using c1 arr by (auto simp: fun_eq_iff card_used_def set_card_def nth_list_update)
  moreover have "cards_ok pl ?c"
    using slot c1 arr by (auto simp: cards_ok_def set_card_def nth_list_update)
  then have "pp_findCard pl (of_nat k + PP_CARD_MAGIC) ?c = Inr (Some k)"
    using slot \<open>card_used ?c = card_used c1\<close> by (simp add: cards.find_iff)
  moreover have "get_context i ?c = Inr p" "tlsSession p \<noteq> None"
    using assms(3) by (simp_all add: context_session_def get_context_def set_card_def c1)
  moreover have "linked lib N u pl ?c"
    using assms(1) by (simp add: linked_def c1 tls_ops_def set_card_def)
  ultimately show ?thesis
    using slot cd(3) c1(2,3) r by (auto simp: card_session_def get_card_def intro!: exI)
qed

lemma SCardConnect_success_witness:
  "\<exists>c' cd. SCardConnect demo_pl 0x88345289 (Some [82, 49]) 2 1 (demo_client demo_link) =
      Inr (0, Some (ucast (1 + PP_CARD_MAGIC :: u32), 1), c') \<and>
    card_session demo_pl (ucast (1 + PP_CARD_MAGIC :: u32)) cd c' \<and> pcScHandle cd = 0x2002"
  using SCardConnect_success [OF demo_linked demo_cards_ok demo_context_session demo_createCard,
      where reader = "[82, 49]" and share = 2 and prots = 1 and res = 0 and hc = "0x2002"
        and prot = 1 and s' = 1]
  by auto

text \<open>SCardConnect that the server refuses: its code is returned, nothing is stored for the
  application, and the slot is free again.\<close>

theorem SCardConnect_refused:
  assumes "linked lib N u pl c" "cards_ok pl c" "context_session pl hContext i p c"
    and "pp_createCard pl i c = Inr (Some k, c1)"
    and "length reader < MAX_READERNAME" "\<forall>b \<in> set reader. b \<noteq> 0"
    and "lib_Connect lib (ucast (pcScContext p)) reader (ucast (ucast share :: u32))
      (ucast (ucast prots :: u32)) (u_hCard u, u_dwActiveProtocol u) (srv (world c)) =
      (res, (hc, prot), s')"
    and "ucast res \<noteq> (0 :: u32)"
  shows "\<exists>c'. SCardConnect pl hContext (Some reader) share prots c =
      Inr (ucast (ucast res :: u32), None, c') \<and> cards_ok pl c' \<and> card_used c' = card_used c"
proof -
  from connect_reply [OF assms(1-7)] assms(8) have
    r: "SCardConnect pl hContext (Some reader) share prots c =
      bindo (pp_releaseCard pl (of_nat k + PP_CARD_MAGIC) (after s' c1))
           (\<lambda>c. Inr (ucast (ucast res :: u32), None, c))" by auto
  note slot = createCard_some [OF assms(2,4)]
  have "cards_ok pl (after s' c1)" "card_used (after s' c1) = card_used c1"
    using slot by (simp_all add: cards_ok_def fun_eq_iff card_used_def)
  with cards.release_handle [of pl "after s' c1" k] slot r show ?thesis by (auto simp: fun_eq_iff)
qed

lemma SCardConnect_refused_witness:
  "\<exists>c'. SCardConnect demo_pl 0x88345289 (Some [88]) 2 1 (demo_client demo_link) =
      Inr (0x80100009, None, c') \<and> card_used c' = card_used (demo_client demo_link)"
  using SCardConnect_refused [OF demo_linked demo_cards_ok demo_context_session demo_createCard,
      where reader = "[88]" and share = 2 and prots = 1 and res = "0x80100009" and hc = 0
        and prot = 0 and s' = 1]
  by auto

section \<open>Contexts\<close>

text \<open>SCardIsValidContext asks the server's library about the server's context.\<close>

theorem SCardIsValidContext_transparent:
  assumes "linked lib N u pl c" "context_session pl hContext i p c"
    and "lib_IsValidContext lib (ucast (pcScContext p)) (srv (world c)) = (res, s')"
  shows "SCardIsValidContext pl hContext c = Inr (ucast (ucast res :: u32), after s' c)"
proof -
  define m where "m = putf s_isvalid F_hContext (pcScContext p) (request SCARD_ISVALIDCONTEXT 13)"
  let ?b = "blit 0 (frame m) (u_msg u)"
  have "dispatch lib u SCARD_ISVALIDCONTEXT ?b (srv (world c)) =
      Inr (putf s_isvalid F_rv (ucast res) ?b, s')"
    using assms(3) by (simp add: handleIsValidContext_def m_def msg_simps)
  from link_context [OF assms(1,2) _ this] have "pp_exchangeMsg pl i m c =
      Inr (0, blit 0 (frame (putf s_isvalid F_rv (ucast res) ?b)) m, after s' c)"
    by (simp add: m_def msg_simps)
  then show ?thesis
    using context_found [OF assms(2)] by (simp add: SCardIsValidContext_def m_def msg_simps)
qed

lemma SCardIsValidContext_transparent_witness:
  "SCardIsValidContext demo_pl 0x88345289 (demo_client demo_link) =
    Inr (0, after 1 (demo_client demo_link))"
  using SCardIsValidContext_transparent [OF demo_linked demo_context_session] by simp

text \<open>SCardSetTimeout always succeeds and never reaches the server's library: the server has no
  handler for the request and sends it back as it came.\<close>

theorem SCardSetTimeout_ignored:
  assumes "linked lib N u pl c" "context_session pl hContext i p c"
  shows "SCardSetTimeout pl hContext dwTimeout c = Inr (SCARD_S_SUCCESS, c)"
proof -
  define m where "m = putf s_settimeout F_dwTimeout (ucast dwTimeout)
    (putf s_settimeout F_hContext (pcScContext p) (request SCARD_SETTIMEOUT 17))"
  let ?b = "blit 0 (frame m) (u_msg u)"
  have "dispatch lib u SCARD_SETTIMEOUT ?b (srv (world c)) = Inr (?b, srv (world c))" by simp
  from link_context [OF assms(1,2) _ this] have "pp_exchangeMsg pl i m c =
      Inr (0, blit 0 (frame ?b) m, after (srv (world c)) c)"
    by (simp add: m_def msg_simps)
  then show ?thesis
    using context_found [OF assms(2)]
    by (simp add: SCardSetTimeout_def m_def msg_simps SCARD_S_SUCCESS_def)
qed

lemma SCardSetTimeout_ignored_witness:
  "SCardSetTimeout demo_pl 0x88345289 30 (demo_client demo_link) =
    Inr (SCARD_S_SUCCESS, demo_client demo_link)"
  using SCardSetTimeout_ignored [OF demo_linked demo_context_session] by simp

lemma release_reply:
  assumes "linked lib N u pl c" "context_session pl hContext i p c" "contexts_ok pl c"
    and "close_fd pl = (\<lambda>_ w. w)"
    and "lib_ReleaseContext lib (ucast (pcScContext p)) (srv (world c)) = (res, s')"
  shows "SCardReleaseContext pl hContext c = Inr (SCARD_S_SUCCESS,
    set_context i (p\<lparr>tlsSession := None, tlsContext := None, ctx_id := 0\<rparr>) (after s' c))"
proof -
  define m where "m = putf s_release F_hContext (pcScContext p) (request SCARD_RELEASE_CONTEXT 13)"
  let ?b = "blit 0 (frame m) (u_msg u)"
  note f = context_found [OF assms(2)]
  have "dispatch lib u SCARD_RELEASE_CONTEXT ?b (srv (world c)) =
      Inr (putf s_establish F_rv (ucast res) ?b, s')"
    using assms(5) by (simp add: handleReleaseContext_def m_def msg_simps)
  from link_context [OF assms(1,2) _ this] have x: "pp_exchangeMsg pl i m c =
      Inr (0, blit 0 (frame (putf s_establish F_rv (ucast res) ?b)) m, after s' c)"
    by (simp add: m_def msg_simps)
  have used: "context_used c i" "i < 64"
    using f(1) assms(3) contexts.find_iff [of pl c] contexts.used_bound [of pl c] by force+
  from f(2) obtain arr where arr: "pp_context_array c = Some arr" "arr ! i = p" "i < length arr"
    by (auto simp: get_context_Inr)
  have id: "ctx_id p = of_nat i + PP_CONTEXT_MAGIC"
    using assms(3) used arr by (auto simp: contexts_ok_def context_used_def)
  let ?p = "p\<lparr>tlsSession := None, tlsContext := None\<rparr>"
  have "pp_releaseContext pl (ctx_id p) (set_context i ?p (after s' c)) =
      Inr (set_context i (p\<lparr>tlsSession := None, tlsContext := None, ctx_id := 0\<rparr>) (after s' c))"
    using assms(3) arr used(2) by (simp add: pp_releaseContext_def contexts_ok_def id set_context_def unat_of_nat)
  then show ?thesis
    using f x assms(1,4)
    by (simp add: SCardReleaseContext_def m_def msg_simps linked_def SCARD_S_SUCCESS_def)
qed

text \<open>SCardReleaseContext reports success whatever the server's library answered, the answer
  being stored past the end of the message; the session is closed and the handle is dead.\<close>

theorem SCardReleaseContext_result_lost:
  assumes "linked lib N u pl c" "context_session pl hContext i p c" "contexts_ok pl c"
    and "close_fd pl = (\<lambda>_ w. w)"
    and "lib_ReleaseContext lib (ucast (pcScContext p)) (srv (world c)) = (res, s')"
  shows "\<exists>c'. SCardReleaseContext pl hContext c = Inr (SCARD_S_SUCCESS, c') \<and>
    srv (world c') = s' \<and> contexts_ok pl c' \<and>
    pp_findContext pl (ucast hContext) c' = Inr None"
proof -
  let ?c = "set_context i (p\<lparr>tlsSession := None, tlsContext := None, ctx_id := 0\<rparr>) (after s' c)"
  have h: "ucast hContext = of_nat i + PP_CONTEXT_MAGIC" "i < PP_MAX_CONTEXT"
    using context_found(1) [OF assms(2)] assms(3) contexts.find_iff contexts.used_bound by blast+
  obtain arr where arr: "pp_context_array c = Some arr" "i < length arr"
    using context_found(2) [OF assms(2)] by (auto simp: get_context_Inr)
  then have ok: "contexts_ok pl ?c" "\<not> context_used ?c i"
    using assms(3)
    by (auto simp: context_used_def set_context_def contexts_ok_def tls_available_def nth_list_update)
  then have "pp_findContext pl (ucast hContext) ?c = Inr None"
    using contexts.find_handle [OF ok(1) h(2)] h(1) by simp
  with release_reply [OF assms] ok(1) show ?thesis by (auto simp: set_context_def)
qed

lemma SCardReleaseContext_result_lost_witness:
  "\<exists>c'. SCardReleaseContext (demo_platform (link_opts (demo_lib\<lparr>lib_ReleaseContext :=
        \<lambda>_ n. (0x80100003, Suc n)\<rparr>) demo_network demo_uninit)) 0x88345289 (demo_client demo_link) =
      Inr (SCARD_S_SUCCESS, c') \<and> srv (world c') = 1"
proof -
  let ?lib = "demo_lib\<lparr>lib_ReleaseContext := \<lambda>_ n. (0x80100003, Suc n)\<rparr>"
  have "linked ?lib demo_network demo_uninit (demo_platform (link_opts ?lib demo_network demo_uninit))
      (demo_client demo_link)"
    by (simp add: linked_def demo_lossless tls_ops_def demo_client_def)
  from SCardReleaseContext_result_lost [OF this demo_context_session demo_contexts_ok]
  show ?thesis by auto
qed

text \<open>SCardCancel sends the application's own handle instead of the server's: the server's
  library is asked to cancel what its client calls \<open>hCard\<close>, sign-extended.\<close>

theorem SCardCancel_unmapped:
  assumes "linked lib N u pl c" "card_session pl hCard cd c"
    and "lib_Cancel lib (scast (ucast hCard :: u32)) (srv (world c)) = (res, s')"
  shows "SCardCancel pl hCard c = Inr (ucast (ucast res :: u32), after s' c)"
proof -
  define m where "m = putf s_cancel F_hCard (ucast hCard) (request SCARD_CANCEL 13)"
  let ?b = "blit 0 (frame m) (u_msg u)"
  obtain k where f: "pp_findCard pl (ucast hCard) c = Inr (Some k)" "get_card k c = Inr cd"
    using assms(2) by (rule card_found)
  have "dispatch lib u SCARD_CANCEL ?b (srv (world c)) = Inr (putf s_cancel F_rv (ucast res) ?b, s')"
    using assms(3) by (simp add: handleCancel_def m_def msg_simps)
  from link_card [OF assms(1,2) _ this] have "card_exchange pl cd m c =
      Inr (0, blit 0 (frame (putf s_cancel F_rv (ucast res) ?b)) m, after s' c)"
    by (simp add: m_def msg_simps)
  then show ?thesis
    using f by (simp add: SCardCancel_def m_def msg_simps)
qed

lemma SCardCancel_unmapped_witness:
  "SCardCancel demo_pl 0x38345289 (demo_client demo_link) =
    Inr (0x80100003, after 1 (demo_client demo_link))"
  using SCardCancel_unmapped [OF demo_linked demo_card_session] by simp

text \<open>SCardCancelTransaction does send the server's handle; the server cancels by it.\<close>

theorem SCardCancelTransaction_transparent:
  assumes "linked lib N u pl c" "card_session pl hCard cd c"
    and "lib_Cancel lib (scast (pcScHandle cd)) (srv (world c)) = (res, s')"
  shows "SCardCancelTransaction pl hCard c = Inr (ucast (ucast res :: u32), after s' c)"
proof -
  define m where "m = putf s_cancel F_hCard (pcScHandle cd) (request SCARD_CANCEL_TRANSACTION 13)"
  let ?b = "blit 0 (frame m) (u_msg u)"
  obtain k where f: "pp_findCard pl (ucast hCard) c = Inr (Some k)" "get_card k c = Inr cd"
    using assms(2) by (rule card_found)
  have "dispatch lib u SCARD_CANCEL_TRANSACTION ?b (srv (world c)) = Inr (putf s_cancel F_rv (ucast res) ?b, s')"
    using assms(3) by (simp add: handleCancelTransaction_def m_def msg_simps)
  from link_card [OF assms(1,2) _ this] have "card_exchange pl cd m c =
      Inr (0, blit 0 (frame (putf s_cancel F_rv (ucast res) ?b)) m, after s' c)"
    by (simp add: m_def msg_simps)
  then show ?thesis
    using f by (simp add: SCardCancelTransaction_def m_def msg_simps)
qed

lemma SCardCancelTransaction_transparent_witness:
  "SCardCancelTransaction demo_pl 0x38345289 (demo_client demo_link) =
    Inr (0x80100003, after 1 (demo_client demo_link))"
  using SCardCancelTransaction_transparent [OF demo_linked demo_card_session] by simp

section \<open>Establishing a context\<close>

definition connectable :: "'s pcsc \<Rightarrow> network \<Rightarrow> uninit \<Rightarrow> 's link platform \<Rightarrow> bool" where
  "connectable lib N u pl \<longleftrightarrow>
     lossless N \<and> (\<forall>k. tls_table pl k = link_opts lib N u) \<and> server_address pl \<noteq> None \<and>
     snd (pp_netopts_init (build_options pl) (server_family pl)) \<noteq> None \<and>
     net_connect pl = (\<lambda>_ _ _ w. Inr (3, w))"

text \<open>
  A new context over a link: its slot has a TLS context, and the session of the slot's last use, if
  that one was not closed.
\<close>

lemma createContext_link:
  assumes "contexts_ok pl c" "connectable lib N u pl" "pp_createContext pl c = Inr (Some i, c1)"
  shows "\<exists>p k. c1 = c\<lparr>pp_context_locked := False, pp_context_array := Some ((context_slots c)[i := p]), g_tlsopts := Some k\<rparr> \<and>
    ctx_id p = of_nat i + PP_CONTEXT_MAGIC \<and> tlsSession p = tlsSession (context_slots c ! i)"
proof -
  have nb: "\<not> pp_context_locked c" "mutex_lock_rv pl = 0"
    using assms(1) by (simp_all add: contexts_ok_def)
  with assms(3) obtain r0 c0 where
    s0: "create_context_setup pl (c\<lparr>pp_context_locked := True\<rparr>) = Inr (r0, c0)"
    by (auto simp: pp_createContext_def outcome_simps)
  from setup_Inr [OF assms(1) this] obtain k where k: "r0 = Some (context_slots c, k)"
    "c0 = c\<lparr>pp_context_locked := True, pp_context_array := Some (context_slots c),
            g_tlsopts := Some k\<rparr>" by blast
  let ?j = "first_free_context 0 (context_slots c)"
  have "create_context_slot pl k ?j
        ((context_slots c ! ?j)\<lparr>ctx_id := of_nat ?j + PP_CONTEXT_MAGIC\<rparr>) c0 = Inr (Some i, c1)"
    using assms(3) nb s0 k by (auto simp: pp_createContext_def Let_def split: if_splits)
  then have "?j = i \<and> c1 = (set_context i ((context_slots c ! i)\<lparr>ctx_id := of_nat i + PP_CONTEXT_MAGIC,
      tlsContext := Some 0\<rparr>) c0)\<lparr>pp_context_locked := False\<rparr>"
    using assms(2)
    by (auto simp: create_context_slot_def connectable_def set_context_def Let_def
        split: if_splits option.splits)
  then show ?thesis
    by (intro exI [of _ "(context_slots c ! i)\<lparr>ctx_id := of_nat i + PP_CONTEXT_MAGIC, tlsContext := Some 0\<rparr>"]
        exI [of _ k]) (simp add: k set_context_def)
qed

text \<open>With a user name and a password in the environment a context is always created while there is room.\<close>

definition credentials :: "'w platform \<Rightarrow> bool" where
  "credentials pl \<longleftrightarrow>
     (case (getenv pl ''PCSC_USER'', getenv pl ''PCSC_PASSWD'') of
        (Some user, Some passwd) \<Rightarrow> user \<noteq> [] \<and> passwd \<noteq> [] | _ \<Rightarrow> False)"

lemma setup_exists:
  assumes "contexts_ok pl c"
  shows "\<exists>k. create_context_setup pl (c\<lparr>pp_context_locked := True\<rparr>) =
    Inr (Some (context_slots c, k), c\<lparr>pp_context_locked := True, pp_context_array := Some (context_slots c), g_tlsopts := Some k\<rparr>)"
proof -
  have m: "(case pp_context_array c of None \<Rightarrow>
      if malloc_contexts pl then Some (replicate PP_MAX_CONTEXT zero_context) else None
      | Some arr \<Rightarrow> Some arr) = Some (context_slots c)"
    using assms by (auto simp: contexts_ok_def context_slots_def split: option.splits)
  show ?thesis
  proof (cases "g_tlsopts c")
    case None
    with assms obtain e where e: "getenv pl ''PCSC_NULLENC'' = Some e"
      "0 \<le> fst (pp_tlsopts_init_any (build_options pl) (strcaseeq e ''true'' \<or> strcaseeq e ''1''))"
      by (auto simp: contexts_ok_def tls_available_def split: option.splits)
    with m None show ?thesis
      by (auto simp: create_context_setup_def Let_def pp_tlsopts_init_any_def split: if_splits)
  next
    case (Some k)
    with m show ?thesis by (auto simp: create_context_setup_def Let_def)
  qed
qed

lemma createContext_exists:
  assumes "contexts_ok pl c" "connectable lib N u pl" "credentials pl"
  defines "i \<equiv> first_free_context 0 (context_slots c)"
  shows "i < 64 \<Longrightarrow> \<exists>c1. pp_createContext pl c = Inr (Some i, c1)"
    "64 \<le> i \<Longrightarrow> \<exists>k. pp_createContext pl c = Inr (None, c\<lparr>pp_context_array := Some (context_slots c),
      g_tlsopts := Some k, pp_context_locked := False\<rparr>)"
proof -
  have nb: "\<not> pp_context_locked c" "mutex_lock_rv pl = 0"
    using assms(1) by (simp_all add: contexts_ok_def)
  from setup_exists [OF assms(1)] obtain k where k: "create_context_setup pl (c\<lparr>pp_context_locked := True\<rparr>) =
    Inr (Some (context_slots c, k), c\<lparr>pp_context_locked := True, pp_context_array := Some (context_slots c), g_tlsopts := Some k\<rparr>)"
    by blast
  show "\<exists>c1. pp_createContext pl c = Inr (Some i, c1)" if "i < 64"
    using nb k that assms(2,3)
    by (auto simp: pp_createContext_def create_context_slot_def connectable_def credentials_def i_def Let_def
        split: option.splits)
  show "\<exists>k. pp_createContext pl c = Inr (None, c\<lparr>pp_context_array := Some (context_slots c),
      g_tlsopts := Some k, pp_context_locked := False\<rparr>)" if "64 \<le> i"
    using nb k that by (intro exI [of _ k]) (simp add: pp_createContext_def i_def Let_def)
qed

lemma connect_context_link:
  assumes "connectable lib N u pl" "tls_ops pl c = Inr (link_opts lib N u)" "get_context i c = Inr p"
  shows "\<exists>k. connect_context pl i c =
    Inr (0, set_context i (p\<lparr>tlsSession := Some 1\<rparr>) (c\<lparr>g_opts := Some k\<rparr>))"
proof -
  obtain h port where a: "server_address pl = Some (h, port)"
    using assms(1) by (auto simp: connectable_def)
  obtain rv k where k: "pp_netopts_init (build_options pl) (server_family pl) = (rv, Some k)"
    using assms(1) by (cases "pp_netopts_init (build_options pl) (server_family pl)")
      (auto simp: connectable_def)
  have g: "get_context i (c\<lparr>g_opts := Some k\<rparr>) = Inr p" "tls_ops pl (c\<lparr>g_opts := Some k\<rparr>) =
      Inr (link_opts lib N u)"
    using assms(2,3) by (simp_all add: get_context_def tls_ops_def)
  have "c\<lparr>g_opts := Some k, world := world c\<rparr> = c\<lparr>g_opts := Some k\<rparr>" by simp
  with assms(1) a k g show ?thesis
    by (intro exI [of _ k]) (simp add: connect_context_def connectable_def set_context_def)
qed

text \<open>
  The client when the request has found its connection: the one of the slot, or a new one.  Beside
  slot \<open>i\<close> only the choice of the modules has changed.
\<close>

lemma establish_connected:
  assumes "connectable lib N u pl" "contexts_ok pl c" "inbox (world c) = []"
    and "pp_createContext pl c = Inr (Some i, c1)" "msg_type m = command_code SCARD_ESTABLISH_CONTEXT"
  shows "\<exists>p k l. let c2 = c\<lparr>pp_context_locked := False, pp_context_array := Some ((context_slots c)[i := p]),
      g_tlsopts := Some k, g_opts := l\<rparr>
    in ctx_id p = of_nat i + PP_CONTEXT_MAGIC \<and> tlsSession p \<noteq> None \<and>
      pp_exchangeMsg pl i m c1 = pp_exchangeMsg pl i m c2"
proof -
  note slot = createContext_slots [OF assms(2,4)]
  have i: "i < length (context_slots c)" using slot context_slots_ok [OF assms(2)] by simp
  from createContext_link [OF assms(2,1,4)] obtain p k where
    c1: "c1 = c\<lparr>pp_context_locked := False, pp_context_array := Some ((context_slots c)[i := p]), g_tlsopts := Some k\<rparr>"
    and p: "ctx_id p = of_nat i + PP_CONTEXT_MAGIC" by blast
  have g: "get_context i c1 = Inr p" "tls_ops pl c1 = Inr (link_opts lib N u)"
    using i assms(1) by (simp_all add: c1 get_context_def tls_ops_def connectable_def)
  show ?thesis
  proof (cases "tlsSession p")
    case (Some t)
    have "c1 = c1\<lparr>g_opts := g_opts c\<rparr>" by (simp add: c1)
    with Some p show ?thesis
      by (intro exI [of _ p] exI [of _ k] exI [of _ "g_opts c"]) (simp add: c1 Let_def)
  next
    case None
    from connect_context_link [OF assms(1) g(2,1)] obtain l where
      l: "connect_context pl i c1 = Inr (0, set_context i (p\<lparr>tlsSession := Some 1\<rparr>) (c1\<lparr>g_opts := Some l\<rparr>))"
      by blast
    let ?p = "p\<lparr>tlsSession := Some 1\<rparr>"
    let ?c = "c\<lparr>pp_context_locked := False, pp_context_array := Some ((context_slots c)[i := ?p]),
      g_tlsopts := Some k, g_opts := Some l\<rparr>"
    have c2: "set_context i ?p (c1\<lparr>g_opts := Some l\<rparr>) = ?c" by (simp add: c1 set_context_def)
    have "get_context i ?c = Inr ?p" using i by (simp add: get_context_def)
    with None g(1) l [unfolded c2] assms(5) have "pp_exchangeMsg pl i m c1 = pp_exchangeMsg pl i m ?c"
      by (simp add: pp_exchangeMsg_def)
    with p show ?thesis by (intro exI [of _ ?p] exI [of _ k] exI [of _ "Some l"]) (simp add: Let_def)
  qed
qed

lemma establish_reply:
  assumes "connectable lib N u pl" "contexts_ok pl c" "inbox (world c) = []"
    and "pp_createContext pl c = Inr (Some i, c1)"
    and "lib_EstablishContext lib (ucast (ucast dwScope :: u32)) (u_hContext u) (srv (world c)) =
      (res, hc, s')"
  shows "\<exists>p c2 k l. c2 = after s' (c\<lparr>pp_context_locked := False,
      pp_context_array := Some ((context_slots c)[i := p]), g_tlsopts := Some k, g_opts := l\<rparr>) \<and>
    ctx_id p = of_nat i + PP_CONTEXT_MAGIC \<and> tlsSession p \<noteq> None \<and>
    SCardEstablishContext pl dwScope c =
      (if ucast res = (0 :: u32) then
         Inr (0, Some (ucast (of_nat i + PP_CONTEXT_MAGIC :: u32)),
           set_context i (p\<lparr>pcScContext := ucast hc\<rparr>) c2)
       else
         bindo (pp_releaseContext pl (of_nat i + PP_CONTEXT_MAGIC) c2)
           (\<lambda>c. Inr (ucast (ucast res :: u32), None, c)))"
proof -
  define m where "m = putf s_establish F_dwScope (ucast dwScope) (request SCARD_ESTABLISH_CONTEXT 17)"
  let ?b = "blit 0 (frame m) (u_msg u)"
  let ?r = "putf s_establish F_rv (ucast res) (putf s_establish F_hContext (ucast hc) ?b)"
  have "msg_type m = command_code SCARD_ESTABLISH_CONTEXT" by (simp add: m_def msg_simps)
  from establish_connected [OF assms(1-4) this] obtain p k l where
    p: "ctx_id p = of_nat i + PP_CONTEXT_MAGIC" "tlsSession p \<noteq> None"
    and same: "pp_exchangeMsg pl i m c1 = pp_exchangeMsg pl i m (c\<lparr>pp_context_locked := False,
      pp_context_array := Some ((context_slots c)[i := p]), g_tlsopts := Some k, g_opts := l\<rparr>)"
    unfolding Let_def by blast
  let ?c = "c\<lparr>pp_context_locked := False, pp_context_array := Some ((context_slots c)[i := p]),
    g_tlsopts := Some k, g_opts := l\<rparr>"
  have i: "i < length (context_slots c)"
    using createContext_slots [OF assms(2,4)] context_slots_ok [OF assms(2)] by simp
  have g: "get_context i ?c = Inr p" "tls_ops pl ?c = Inr (link_opts lib N u)" "inbox (world ?c) = []" "lossless N"
    using i assms(1,3) by (simp_all add: get_context_def tls_ops_def connectable_def)
  have "dispatch lib u SCARD_ESTABLISH_CONTEXT ?b (srv (world ?c)) = Inr (?r, s')"
    using assms(5) by (simp add: handleEstablishContext_def m_def msg_simps)
  from link_exchange [OF g(4,1) p(2) g(2,3) _ _ _ this]
  have x: "pp_exchangeMsg pl i m c1 = Inr (0, blit 0 (frame ?r) m, after s' ?c)"
    unfolding same by (simp add: m_def msg_simps)
  have ok: "ucast (w :: u32) = SCARD_S_SUCCESS \<longleftrightarrow> w = 0" for w
    by (metis SCARD_S_SUCCESS_def ucast_ucast_32 unsigned_0)
  have "get_context i (after s' ?c) = Inr p" using g(1) by simp
  with assms(4) x p(1) have "SCardEstablishContext pl dwScope c =
      (if ucast res = (0 :: u32) then
         Inr (0, Some (ucast (of_nat i + PP_CONTEXT_MAGIC :: u32)),
           set_context i (p\<lparr>pcScContext := ucast hc\<rparr>) (after s' ?c))
       else
         bindo (pp_releaseContext pl (of_nat i + PP_CONTEXT_MAGIC) (after s' ?c))
           (\<lambda>c. Inr (ucast (ucast res :: u32), None, c)))"
    by (simp add: SCardEstablishContext_def ok msg_simps m_def)
  with p show ?thesis by (intro exI conjI) (rule refl | assumption)+
qed

text \<open>What holds of that client.\<close>

lemma establish_client:
  assumes "connectable lib N u pl" "contexts_ok pl c" "inbox (world c) = []"
    and "pp_createContext pl c = Inr (Some i, c1)" "ctx_id p = of_nat i + PP_CONTEXT_MAGIC"
    and c2: "c2 = after s' (c\<lparr>pp_context_locked := False, pp_context_array := Some ((context_slots c)[i := p]),
      g_tlsopts := Some k, g_opts := l\<rparr>)"
  shows "contexts_ok pl c2" "context_used c2 = (context_used c)(i := True)" "linked lib N u pl c2"
    "get_context i c2 = Inr p"
proof -
  note slot = createContext_slots [OF assms(2,4)] and ok = context_slots_ok [OF assms(2)]
  have i: "i < 64" using slot by simp
  have "mutex_lock_rv pl = 0" using assms(2) by (simp add: contexts_ok_def)
  then show "contexts_ok pl c2"
    using ok assms(5) i by (auto simp: c2 contexts_ok_def tls_available_def nth_list_update)
  show "context_used c2 = (context_used c)(i := True)"
    using ok assms(5) i magic_nonzero(1) [of i]
    by (auto simp: c2 fun_eq_iff context_used_slots context_slots_def nth_list_update)
  show "linked lib N u pl c2" "get_context i c2 = Inr p"
    using assms(1,3) ok i by (simp_all add: c2 linked_def connectable_def tls_ops_def get_context_def)
qed

lemma establish_success:
  assumes "connectable lib N u pl" "contexts_ok pl c" "inbox (world c) = []"
    and "pp_createContext pl c = Inr (Some i, c1)"
    and "lib_EstablishContext lib (ucast (ucast dwScope :: u32)) (u_hContext u) (srv (world c)) =
      (res, hc, s')"
    and "ucast res = (0 :: u32)"
  shows "\<exists>c' p. SCardEstablishContext pl dwScope c =
      Inr (0, Some (ucast (of_nat i + PP_CONTEXT_MAGIC :: u32)), c') \<and>
    context_session pl (ucast (of_nat i + PP_CONTEXT_MAGIC :: u32)) i p c' \<and>
    pcScContext p = ucast hc \<and> linked lib N u pl c' \<and> srv (world c') = s' \<and>
    contexts_ok pl c' \<and> \<not> context_used c i \<and> context_used c' = (context_used c)(i := True)"
proof -
  from establish_reply [OF assms(1-5)] assms(6) obtain p c2 k l where
    c2: "c2 = after s' (c\<lparr>pp_context_locked := False, pp_context_array := Some ((context_slots c)[i := p]),
      g_tlsopts := Some k, g_opts := l\<rparr>)"
    and p: "ctx_id p = of_nat i + PP_CONTEXT_MAGIC" "tlsSession p \<noteq> None"
    and r: "SCardEstablishContext pl dwScope c =
      Inr (0, Some (ucast (of_nat i + PP_CONTEXT_MAGIC :: u32)),
        set_context i (p\<lparr>pcScContext := ucast hc\<rparr>) c2)" by auto
  let ?p = "p\<lparr>pcScContext := ucast hc\<rparr>"
  let ?c = "set_context i ?p c2"
  note slot = createContext_slots [OF assms(2,4)]
  have e: "?c = after s' (c\<lparr>pp_context_locked := False, pp_context_array := Some ((context_slots c)[i := ?p]),
      g_tlsopts := Some k, g_opts := l\<rparr>)" by (simp add: c2 set_context_def)
  have "ctx_id ?p = of_nat i + PP_CONTEXT_MAGIC" using p(1) by simp
  note new = establish_client [OF assms(1-4) this e]
  have "pp_findContext pl (of_nat i + PP_CONTEXT_MAGIC) ?c = Inr (Some i)"
    using new(1,2) by (simp add: contexts.find_iff)
  then show ?thesis
    using r new slot p(2) by (intro exI [of _ ?c] exI [of _ ?p]) (simp add: context_session_def c2 set_context_def)
qed

text \<open>C17 SCardEstablishContext that succeeds on the server: the application is given the handle of
  a slot that was free, which from then on denotes the server's context over an open session.\<close>

theorem SCardEstablishContext_success:
  assumes "connectable lib N u pl" "contexts_ok pl c" "inbox (world c) = []"
    and "pp_createContext pl c = Inr (Some i, c1)"
    and "lib_EstablishContext lib (ucast (ucast dwScope :: u32)) (u_hContext u) (srv (world c)) =
      (res, hc, s')"
    and "ucast res = (0 :: u32)"
  shows "\<exists>c' p. SCardEstablishContext pl dwScope c =
      Inr (0, Some (ucast (of_nat i + PP_CONTEXT_MAGIC :: u32)), c') \<and>
    context_session pl (ucast (of_nat i + PP_CONTEXT_MAGIC :: u32)) i p c' \<and>
    pcScContext p = ucast hc \<and> linked lib N u pl c' \<and> srv (world c') = s' \<and>
    contexts_ok pl c' \<and> \<not> context_used c i \<and> context_used c' = (context_used c)(i := True)"
  using assms by (rule establish_success)

lemma fresh_createContext:
  "pp_createContext (demo_platform (link_opts lib N u)) (fresh_client demo_link) = Inr (Some 0, (set_context 0
     (zero_context\<lparr>ctx_id := PP_CONTEXT_MAGIC, tlsContext := Some 0\<rparr>)
     ((fresh_client demo_link)\<lparr>pp_context_array := Some (replicate 64 zero_context),
        g_tlsopts := Some Nullenc\<rparr>)))"
  by (simp add: pp_createContext_def create_context_setup_def create_context_slot_def fresh_client_def
      pp_tlsopts_init_any_def strcaseeq_def set_context_def first_free_replicate)

lemma demo_connectable:
  "connectable lib demo_network u (demo_platform (link_opts lib demo_network u))"
  by (simp add: connectable_def demo_lossless server_address_def set_env_def server_family_def
      pp_netopts_init_def)

lemma fresh_link:
  "inbox (world (fresh_client demo_link)) = []"
  "tlsSession (context_slots (fresh_client demo_link) ! 0) = None"
  "srv (world (fresh_client demo_link)) = 0"
  by (simp_all add: fresh_client_def context_slots_def zero_context_def)

lemma SCardEstablishContext_success_witness:
  "\<exists>c' p. SCardEstablishContext demo_pl 2 (fresh_client demo_link) =
      Inr (0, Some (ucast PP_CONTEXT_MAGIC), c') \<and>
    context_session demo_pl (ucast PP_CONTEXT_MAGIC) 0 p c' \<and> pcScContext p = 0x1001"
proof -
  from SCardEstablishContext_success [OF demo_connectable fresh_contexts_ok fresh_link(1)
      fresh_createContext, where lib = demo_lib and u = demo_uninit and dwScope = 2
        and res = 0 and hc = "0x1001" and s' = 1]
  show ?thesis by (auto simp: fresh_link)
qed

text \<open>A context whose slot has a session is established over it, and needs no connection.\<close>

lemma establish_same_connection:
  assumes "pp_createContext pl c = Inr (Some i, c1)" "get_context i c1 = Inr p" "tlsSession p \<noteq> None"
  shows "SCardEstablishContext (pl\<lparr>net_connect := f\<rparr>) dwScope c = SCardEstablishContext pl dwScope c"
proof -
  let ?pl = "pl\<lparr>net_connect := f\<rparr>"
  have set_up: "create_context_setup ?pl c0 = create_context_setup pl c0" for c0
    by (simp add: create_context_setup_def cong: option.case_cong)
  have slot: "create_context_slot ?pl k j q c0 = create_context_slot pl k j q c0" for k j q c0
    by (simp add: create_context_slot_def cong: option.case_cong if_cong)
  have create: "pp_createContext ?pl c = pp_createContext pl c"
    unfolding pp_createContext_def set_up slot by simp
  have ex: "pp_exchangeMsg ?pl i m c1 = pp_exchangeMsg pl i m c1" for m
    using assms(2,3) by (simp add: pp_exchangeMsg_def exchange_on_def tls_ops_def cong: option.case_cong)
  have rel: "pp_releaseContext ?pl h c0 = pp_releaseContext pl h c0" for h c0
    by (simp add: pp_releaseContext_def)
  show ?thesis
    unfolding SCardEstablishContext_def create rel using assms(1) ex by (simp add: Let_def)
qed

lemma createContext_credentials:
  assumes "pp_createContext pl c = Inr (Some i, c1)"
  shows "credentials pl"
proof -
  from assms obtain r0 c0 where s0: "create_context_setup pl (c\<lparr>pp_context_locked := True\<rparr>) = Inr (r0, c0)"
    by (auto simp: pp_createContext_def outcome_simps split: if_splits)
  with assms obtain arr k where "r0 = Some (arr, k)"
    by (cases r0) (auto simp: pp_createContext_def split: if_splits)
  with assms s0 have "create_context_slot pl k (first_free_context 0 arr)
      ((arr ! first_free_context 0 arr)\<lparr>ctx_id := of_nat (first_free_context 0 arr) + PP_CONTEXT_MAGIC\<rparr>) c0 = Inr (Some i, c1)"
    by (auto simp: pp_createContext_def Let_def split: if_splits)
  then show ?thesis
    by (auto simp: create_context_slot_def credentials_def outcome_simps Let_def split: if_splits option.splits)
qed

text \<open>The slot that is found is the first one free.\<close>

lemma createContext_again:
  assumes "contexts_ok pl c" "pp_createContext pl c = Inr (Some i, c1)"
    and "connectable lib N u pl" "contexts_ok pl c'" "context_used c' = context_used c"
  shows "\<exists>c2. pp_createContext pl c' = Inr (Some i, c2)"
proof -
  note slot = createContext_slots [OF assms(1,2)]
  let ?j = "first_free_context 0 (context_slots c')"
  have used: "context_used c' k \<longleftrightarrow> k < 64 \<and> ctx_id (context_slots c' ! k) \<noteq> 0" for k
    using context_slots_ok [OF assms(4)] assms(4)
    by (auto simp: context_used_def contexts_ok_def context_slots_def zero_context_def split: option.splits)
  have "length (context_slots c') = 64" using context_slots_ok [OF assms(4)] by simp
  note f = first_free_context_spec [of 0 "context_slots c'" ?j]
  have "?j = i"
    using f slot used [of i] used [of ?j] assms(5) \<open>length (context_slots c') = 64\<close>
    by (auto simp: linorder_neq_iff)
  with createContext_exists(1) [OF assms(4,3) createContext_credentials [OF assms(2)]] slot show ?thesis by simp
qed

text \<open>C35 SCardEstablishContext that the server refuses returns its code and frees the slot, but the
  session stays in it, and the next context, which gets this slot, speaks over the connection of this
  one: it is established even if no connection to the server can be made any more.\<close>

theorem SCardEstablishContext_refused_keeps_session:
  assumes "connectable lib N u pl" "contexts_ok pl c" "inbox (world c) = []"
    and "pp_createContext pl c = Inr (Some i, c1)"
    and "lib_EstablishContext lib (ucast (ucast dwScope :: u32)) (u_hContext u) (srv (world c)) =
      (res, hc, s')"
    and "ucast res \<noteq> (0 :: u32)"
  shows "\<exists>c'. SCardEstablishContext pl dwScope c = Inr (ucast (ucast res :: u32), None, c') \<and>
    contexts_ok pl c' \<and> context_used c' = context_used c \<and>
    tlsSession (context_slots c' ! i) \<noteq> None \<and>
    (\<forall>dwScope' res' hc' s''.
       lib_EstablishContext lib (ucast (ucast dwScope' :: u32)) (u_hContext u) s' = (res', hc', s'') \<longrightarrow>
       ucast res' = (0 :: u32) \<longrightarrow>
       (\<exists>c''. SCardEstablishContext (pl\<lparr>net_connect := \<lambda>_ _ _ w. Inr (-1, w)\<rparr>) dwScope' c' =
          Inr (0, Some (ucast (of_nat i + PP_CONTEXT_MAGIC :: u32)), c'') \<and> srv (world c'') = s''))"
proof -
  from establish_reply [OF assms(1-5)] assms(6) obtain p c2 k l where
    c2: "c2 = after s' (c\<lparr>pp_context_locked := False, pp_context_array := Some ((context_slots c)[i := p]),
      g_tlsopts := Some k, g_opts := l\<rparr>)"
    and p: "ctx_id p = of_nat i + PP_CONTEXT_MAGIC" "tlsSession p \<noteq> None"
    and r: "SCardEstablishContext pl dwScope c =
      bindo (pp_releaseContext pl (of_nat i + PP_CONTEXT_MAGIC) c2)
           (\<lambda>c. Inr (ucast (ucast res :: u32), None, c))" by auto
  note slot = createContext_slots [OF assms(2,4)]
  note new = establish_client [OF assms(1-4) p(1) c2]
  from contexts.release_handle [OF new(1), of i] slot obtain c' where
    c': "pp_releaseContext pl (of_nat i + PP_CONTEXT_MAGIC) c2 = Inr c'" "contexts_ok pl c'"
      "context_used c' = (context_used c2)(i := False)" by auto
  have e: "c' = set_context i (p\<lparr>ctx_id := 0\<rparr>) c2"
    using c'(1) new(1,4) slot
    by (auto simp: pp_releaseContext_def contexts_ok_def get_context_Inr unat_of_nat Let_def split: if_splits)
  then have session: "tlsSession (context_slots c' ! i) \<noteq> None"
    using new(4) p(2) by (auto simp: context_slots_def set_context_def get_context_Inr)
  have used: "context_used c' = context_used c" using c'(3) new(2) slot by (auto simp: fun_eq_iff)
  have world: "inbox (world c') = []" "srv (world c') = s'"
    using new(3) e c2 by (simp_all add: linked_def set_context_def)
  from createContext_again [OF assms(2,4,1) c'(2) used] obtain c3 where
    c3: "pp_createContext pl c' = Inr (Some i, c3)" by blast
  from createContext_link [OF c'(2) assms(1) c3] obtain q where
    q: "get_context i c3 = Inr q" "tlsSession q \<noteq> None"
    using session slot context_slots_ok [OF c'(2)] by (auto simp: get_context_def)
  have "\<exists>c''. SCardEstablishContext (pl\<lparr>net_connect := \<lambda>_ _ _ w. Inr (-1, w)\<rparr>) dwScope' c' =
      Inr (0, Some (ucast (of_nat i + PP_CONTEXT_MAGIC :: u32)), c'') \<and> srv (world c'') = s''"
    if "lib_EstablishContext lib (ucast (ucast dwScope' :: u32)) (u_hContext u) s' = (res', hc', s'')"
      "ucast res' = (0 :: u32)" for dwScope' res' hc' s''
    using establish_success [OF assms(1) c'(2) world(1) c3 _ that(2)] that(1) world(2)
      establish_same_connection [OF c3 q] by fastforce
  with r c'(1,2) used session show ?thesis by auto
qed

lemma SCardEstablishContext_refused_witness:
  "\<exists>c' c''. SCardEstablishContext (demo_platform (link_opts (demo_lib\<lparr>lib_EstablishContext :=
        \<lambda>scope _ n. (if scope = 2 then 0x8010001D else 0, 7, Suc n)\<rparr>) demo_network demo_uninit)) 2 (fresh_client demo_link) =
      Inr (0x8010001D, None, c') \<and> tlsSession (context_slots c' ! 0) \<noteq> None \<and>
    SCardEstablishContext ((demo_platform (link_opts (demo_lib\<lparr>lib_EstablishContext :=
        \<lambda>scope _ n. (if scope = 2 then 0x8010001D else 0, 7, Suc n)\<rparr>) demo_network demo_uninit))
        \<lparr>net_connect := \<lambda>_ _ _ w. Inr (-1, w)\<rparr>) 0 c' = Inr (0, Some 0x88345289, c'')"
proof -
  let ?lib = "demo_lib\<lparr>lib_EstablishContext := \<lambda>scope _ n. (if scope = 2 then 0x8010001D else 0, 7, Suc n)\<rparr>"
  from SCardEstablishContext_refused_keeps_session [OF demo_connectable fresh_contexts_ok
      fresh_link(1) fresh_createContext, where lib = ?lib and u = demo_uninit and dwScope = 2
        and res = "0x8010001D" and hc = 7 and s' = 1]
  obtain c' where c': "SCardEstablishContext (demo_platform (link_opts ?lib demo_network demo_uninit)) 2 (fresh_client demo_link) =
      Inr (0x8010001D, None, c')" "tlsSession (context_slots c' ! 0) \<noteq> None"
    and next_one: "\<forall>dwScope' res' hc' s''.
       lib_EstablishContext ?lib (ucast (ucast dwScope' :: u32)) (u_hContext demo_uninit) 1 = (res', hc', s'') \<longrightarrow>
       ucast res' = (0 :: u32) \<longrightarrow>
       (\<exists>c''. SCardEstablishContext ((demo_platform (link_opts ?lib demo_network demo_uninit))
          \<lparr>net_connect := \<lambda>_ _ _ w. Inr (-1, w)\<rparr>) dwScope' c' =
          Inr (0, Some (ucast (of_nat 0 + PP_CONTEXT_MAGIC :: u32)), c'') \<and> srv (world c'') = s'')"
    by (auto simp: fresh_link)
  from next_one [rule_format, of 0 0 7 2] c' show ?thesis by (auto simp: PP_CONTEXT_MAGIC_def)
qed

end
