(* ===== verification/TransparentData.thy ===== *)
theory TransparentData
  imports Transparent
begin

text \<open>
  Transparency of the functions that carry data: what is transmitted to the card and what the
  card answers, attributes, control data, status and lists, with the lengths the client and the
  server cut them to.
\<close>

section \<open>Lengths in 32 bits\<close>

lemma unat_ucast_32: "unat (x :: u64) < 2 ^ 32 \<Longrightarrow> unat (ucast x :: u32) = unat x"
  by (simp add: unsigned_ucast_eq take_bit_nat_eq_self)

lemma unat_ucast_64 [simp]: "unat (ucast (x :: u32) :: u64) = unat x"
proof -
  have "unat x < 2 ^ 32" using unsigned_less [of x, where 'a = nat] by simp
  then show ?thesis by (simp add: unsigned_ucast_eq take_bit_nat_eq_self)
qed

lemma ucast_back: "unat (x :: u64) < 2 ^ 32 \<Longrightarrow> ucast (ucast x :: u32) = x"
  by (simp add: word_unat_eq_iff unat_ucast_32)

lemma not_autoallocate: "unat x < 2 ^ 32 \<Longrightarrow> x \<noteq> SCARD_AUTOALLOCATE"
  by (auto simp: SCARD_AUTOALLOCATE_def unsigned_minus_1_eq_mask mask_eq_exp_minus_1)

text \<open>The smaller of a length and a capacity, as the code computes it with an \<open>if\<close>.\<close>

lemma unat_clip_32:
  "n < 2 ^ 32 \<Longrightarrow> unat (if of_nat n < x then of_nat n else x :: u32) = min (unat x) n"
  by (simp add: word_less_nat_alt unat_of_nat min_def)

lemma unat_clip_64:
  "n < 2 ^ 64 \<Longrightarrow> unat (if of_nat n < x then of_nat n else x :: u64) = min (unat x) n"
  by (simp add: word_less_nat_alt unat_of_nat min_def)

section \<open>Transmission\<close>

definition pci32 :: "SCARD_IO_REQUEST \<Rightarrow> SCARD_IO_REQUEST" where
  "pci32 p = \<lparr>dwProtocol = ucast (ucast (dwProtocol p) :: u32),
              cbPciLength = ucast (ucast (cbPciLength p) :: u32)\<rparr>"

definition transmit_request :: "u32 \<Rightarrow> SCARD_IO_REQUEST \<Rightarrow> u8 list \<Rightarrow> SCARD_IO_REQUEST option \<Rightarrow> u32 \<Rightarrow>
    buffer" where
  "transmit_request hid sp bs rp rl =
     (let m = request SCARD_TRANSMIT (37 + length bs);
        m = putf s_transmit F_hCard hid m;
        m = putf s_transmit F_ioSendPciProtocol (ucast (dwProtocol sp)) m;
        m = putf s_transmit F_ioSendPciLength (ucast (cbPciLength sp)) m;
        m = putf s_transmit F_cbBufferLength (of_nat (length bs)) m;
        m = blit 37 bs m;
        m = (case rp of
               None \<Rightarrow> m
             | Some pci \<Rightarrow>
                 putf s_transmit F_ioRecvPciLength (ucast (cbPciLength pci))
                   (putf s_transmit F_ioRecvPciProtocol (ucast (dwProtocol pci)) m))
      in putf s_transmit F_pcbRecvLength rl m)"

definition no_pci :: SCARD_IO_REQUEST where
  "no_pci = \<lparr>dwProtocol = 0, cbPciLength = 0\<rparr>"

lemma transmit_request_simps [msg_simps]:
  "msg_len (transmit_request hid sp bs rp rl) = of_nat (37 + length bs)"
  "msg_type (transmit_request hid sp bs rp rl) = command_code SCARD_TRANSMIT"
  "getf s_transmit F_hCard (transmit_request hid sp bs rp rl) = hid"
  "getf s_transmit F_ioSendPciProtocol (transmit_request hid sp bs rp rl) = ucast (dwProtocol sp)"
  "getf s_transmit F_ioSendPciLength (transmit_request hid sp bs rp rl) = ucast (cbPciLength sp)"
  "getf s_transmit F_ioRecvPciProtocol (transmit_request hid sp bs rp rl) =
     ucast (dwProtocol (case rp of None \<Rightarrow> no_pci | Some p \<Rightarrow> p))"
  "getf s_transmit F_ioRecvPciLength (transmit_request hid sp bs rp rl) =
     ucast (cbPciLength (case rp of None \<Rightarrow> no_pci | Some p \<Rightarrow> p))"
  "getf s_transmit F_cbBufferLength (transmit_request hid sp bs rp rl) = of_nat (length bs)"
  "getf s_transmit F_pcbRecvLength (transmit_request hid sp bs rp rl) = rl"
  "bytes 37 (length bs) (transmit_request hid sp bs rp rl) = bs"
  by (simp_all add: transmit_request_def no_pci_def msg_simps buf_simps Let_def split: option.splits)

lemma transmit_dispatch:
  fixes u :: uninit
  assumes "37 + length bs < PP_MAX_MESSAGE_LEN"
    and "lim = min (unat rl) max_transmit"
    and "lib_Transmit lib (scast hid) (pci32 sp) bs (pci32 (case rp of None \<Rightarrow> no_pci | Some p \<Rightarrow> p))
      (of_nat lim) s = (res, rp', (out, outlen), s')"
    and "length out \<le> lim"
  defines "b \<equiv> blit 0 (frame (transmit_request hid sp bs rp rl)) (u_msg u)"
  defines "r \<equiv> putf s_transmit F_rv (ucast res) (set_msg_len (37 + ucast outlen)
      (putf s_transmit F_ioRecvPciLength (ucast (cbPciLength rp'))
        (putf s_transmit F_ioRecvPciProtocol (ucast (dwProtocol rp'))
          (putf s_transmit F_cbBufferLength (ucast outlen) (blit 37 out b)))))"
  shows "dispatch lib u SCARD_TRANSMIT b s = Inr (r, s')"
proof -
  have n: "unat (of_nat (length bs) :: u32) = length bs" "unat (of_nat (37 + length bs) :: u32) = 37 + length bs"
    using assms(1) by (simp_all only: unat_of_nat) simp_all
  have fields: "getf s_transmit f b = getf s_transmit f (transmit_request hid sp bs rp rl)"
    if "fld s_transmit f \<le> 33" for f
    using n that unfolding b_def by (intro getf_frame) (simp add: msg_simps)
  have data: "bytes 37 (length bs) b = bs"
    using n unfolding b_def by (simp add: msg_simps)
  have "(if 66523 < (ucast rl :: u64) then 66523 else ucast rl) = (of_nat lim :: u64)"
    using assms(2)
    by (auto simp: word_less_nat_alt word_unat_eq_iff unat_of_nat min_def)
  moreover have "store_bytes 37 out b = Inr (blit 37 out b)"
    using assms(2,4) by (simp add: store_bytes_def)
  ultimately show ?thesis
    using assms(1,3) n fields data
    by (simp add: handleTransmit_def msg_simps r_def pci32_def Let_def
        split del: if_split cong del: if_weak_cong)
qed

text \<open>What the client makes of an answer that keeps to the lengths it gave.\<close>

lemma transmit_stored:
  assumes "getf s_transmit F_cbBufferLength x = ucast outlen" "getf s_transmit F_rv x = ucast res"
    and "getf s_transmit F_ioRecvPciProtocol x = ucast (dwProtocol rp)"
    and "getf s_transmit F_ioRecvPciLength x = ucast (cbPciLength rp)"
    and "bytes 37 (unat outlen) x = out" "t_pbRecvBuffer a = Some d"
    and "unat outlen \<le> unat rl" "unat outlen < max_transmit" "length out \<le> length d"
  shows "transmit_reply x rl a = Inr (ucast (ucast res :: u32),
      a\<lparr>t_pioRecvPci := map_option (\<lambda>_. pci32 rp) (t_pioRecvPci a),
        t_pbRecvBuffer := Some (out @ drop (length out) d), t_pcbRecvLength := Some outlen\<rparr>)"
proof -
  have "unat (ucast outlen :: u32) = unat outlen" using assms(8) by (simp add: unat_ucast_32)
  with assms show ?thesis
    by (simp add: transmit_reply_def word_less_nat_alt copy_to_app_def pci32_def ucast_back Let_def)
qed

text \<open>The exchange of the message, whatever length the library reports.\<close>

lemma transmit_exchange:
  fixes rl :: u64
  assumes "linked lib N u pl c" "card_session pl hCard cd c"
    and "length bs < max_transmit" "unat rl < 2 ^ 32"
    and "lib_Transmit lib (scast (pcScHandle cd)) (pci32 sp) bs
      (pci32 (case rpci of None \<Rightarrow> no_pci | Some p \<Rightarrow> p))
      (of_nat (min (unat rl) max_transmit)) (srv (world c)) = (res, rp, (out, outlen), s')"
    and "length out \<le> min (unat rl) max_transmit" "unat outlen < max_transmit"
  obtains x where
    "card_exchange pl cd (transmit_request (pcScHandle cd) sp bs rpci (ucast rl)) c = Inr (0, x, after s' c)"
    "getf s_transmit F_cbBufferLength x = ucast outlen" "getf s_transmit F_rv x = ucast res"
    "getf s_transmit F_ioRecvPciProtocol x = ucast (dwProtocol rp)"
    "getf s_transmit F_ioRecvPciLength x = ucast (cbPciLength rp)"
    "length out = unat outlen \<longrightarrow> bytes 37 (unat outlen) x = out"
proof -
  let ?m = "transmit_request (pcScHandle cd) sp bs rpci (ucast rl)"
  let ?b = "blit 0 (frame ?m) (u_msg u)"
  define r where "r = putf s_transmit F_rv (ucast res) (set_msg_len (37 + ucast outlen)
      (putf s_transmit F_ioRecvPciLength (ucast (cbPciLength rp))
        (putf s_transmit F_ioRecvPciProtocol (ucast (dwProtocol rp))
          (putf s_transmit F_cbBufferLength (ucast outlen) (blit 37 out ?b)))))"
  have len: "unat (of_nat (37 + length bs) :: u32) = 37 + length bs"
    using assms(3) by (simp only: unat_of_nat) simp
  have ol: "unat (ucast outlen :: u32) = unat outlen" "unat (37 + ucast outlen :: u32) = 37 + unat outlen"
    using assms(7) by (simp_all add: unat_ucast_32 unat_word_ariths)
  have "unat (ucast rl :: u32) = unat rl" using assms(4) by (simp add: unat_ucast_32)
  then have "dispatch lib u SCARD_TRANSMIT ?b (srv (world c)) = Inr (r, s')"
    unfolding r_def
    by (intro transmit_dispatch [where lim = "min (unat rl) max_transmit"]) (use assms(3,5,6) in simp_all)
  moreover have rl: "msg_len r = 37 + ucast outlen" by (simp add: r_def msg_simps)
  ultimately have x: "card_exchange pl cd ?m c = Inr (0, blit 0 (frame r) ?m, after s' c)"
    using len ol assms(3,7) by (intro link_card [OF assms(1,2)]) (auto simp: msg_simps)
  let ?x = "blit 0 (frame r) ?m"
  have fields: "getf s_transmit g ?x = getf s_transmit g r" if "fld s_transmit g \<le> 33" for g
    using that ol rl by (simp add: msg_simps)
  have "length out = unat outlen \<longrightarrow> bytes 37 (unat outlen) ?x = out"
    using ol rl by (simp add: msg_simps r_def buf_simps)
  moreover have "getf s_transmit F_cbBufferLength ?x = ucast outlen" "getf s_transmit F_rv ?x = ucast res"
    "getf s_transmit F_ioRecvPciProtocol ?x = ucast (dwProtocol rp)"
    "getf s_transmit F_ioRecvPciLength ?x = ucast (cbPciLength rp)"
    by (simp_all add: fields) (simp_all add: r_def msg_simps)
  ultimately show thesis using x that by blast
qed

text \<open>The function, up to what it makes of the answer.\<close>

lemma transmit_answer:
  assumes "card_session pl hCard cd c"
    and "unat cbSendLength = length bs" "4 \<le> length bs" "length bs < max_transmit" "t_pcbRecvLength a = Some rl"
    and "card_exchange pl cd (transmit_request (pcScHandle cd) sp bs (t_pioRecvPci a) (ucast rl)) c = Inr (0, x, c')"
  shows "SCardTransmit pl hCard (Some sp) (Some bs) cbSendLength a c =
    bindo (transmit_reply x rl a) (\<lambda>(rv, a). Inr (rv, a, c'))"
proof -
  obtain k where f: "pp_findCard pl (ucast hCard) c = Inr (Some k)" "get_card k c = Inr cd"
    using assms(1) by (rule card_found)
  have "ucast cbSendLength = (of_nat (length bs) :: u32)"
    using assms(2,4) by (simp add: word_unat_eq_iff unat_ucast_32 unat_of_nat)
  moreover have "app_bytes (unat cbSendLength) (Some bs) = Inr bs"
    using assms(2,3) by (auto simp: app_bytes_def)
  ultimately show ?thesis
    using f assms(2-6) by (simp add: SCardTransmit_def word_less_nat_alt transmit_request_def Let_def)
qed

lemma transmit_transparent:
  assumes "linked lib N u pl c" "card_session pl hCard cd c"
    and "unat cbSendLength = length bs" "4 \<le> length bs" "length bs < max_transmit"
    and "t_pcbRecvLength a = Some rl" "t_pbRecvBuffer a = Some d" "unat rl < 2 ^ 32"
    and "lib_Transmit lib (scast (pcScHandle cd)) (pci32 sp) bs
      (pci32 (case t_pioRecvPci a of None \<Rightarrow> no_pci | Some p \<Rightarrow> p))
      (of_nat (min (unat rl) max_transmit)) (srv (world c)) = (res, rp, (out, outlen), s')"
    and "length out = unat outlen" "unat outlen \<le> unat rl" "unat outlen < max_transmit"
      "length out \<le> length d"
  shows "SCardTransmit pl hCard (Some sp) (Some bs) cbSendLength a c =
    Inr (ucast (ucast res :: u32),
      a\<lparr>t_pioRecvPci := map_option (\<lambda>_. pci32 rp) (t_pioRecvPci a),
        t_pbRecvBuffer := Some (out @ drop (length out) d), t_pcbRecvLength := Some outlen\<rparr>,
      after s' c)"
proof -
  have "length out \<le> min (unat rl) max_transmit" using assms(10-12) by simp
  from transmit_exchange [OF assms(1,2,5,8,9) this assms(12)] obtain x where
    x: "card_exchange pl cd (transmit_request (pcScHandle cd) sp bs (t_pioRecvPci a) (ucast rl)) c = Inr (0, x, after s' c)"
    and vals: "getf s_transmit F_cbBufferLength x = ucast outlen" "getf s_transmit F_rv x = ucast res"
      "getf s_transmit F_ioRecvPciProtocol x = ucast (dwProtocol rp)"
      "getf s_transmit F_ioRecvPciLength x = ucast (cbPciLength rp)"
      "length out = unat outlen \<longrightarrow> bytes 37 (unat outlen) x = out" .
  from transmit_stored [OF vals(1-4) vals(5) [rule_format, OF assms(10)] assms(7,11-13)]
    transmit_answer [OF assms(2-6) x] show ?thesis by simp
qed

text \<open>An answer longer than the application's buffer is refused, with a code of the client's own and
  without the length.\<close>

lemma transmit_too_long:
  assumes "linked lib N u pl c" "card_session pl hCard cd c"
    and "unat cbSendLength = length bs" "4 \<le> length bs" "length bs < max_transmit"
    and "t_pcbRecvLength a = Some rl" "unat rl < 2 ^ 32"
    and "lib_Transmit lib (scast (pcScHandle cd)) (pci32 sp) bs
      (pci32 (case t_pioRecvPci a of None \<Rightarrow> no_pci | Some p \<Rightarrow> p))
      (of_nat (min (unat rl) max_transmit)) (srv (world c)) = (res, rp, (out, outlen), s')"
    and "length out \<le> unat rl" "unat rl < unat outlen" "unat outlen < max_transmit"
  shows "SCardTransmit pl hCard (Some sp) (Some bs) cbSendLength a c = Inr (SCARD_F_INTERNAL_ERROR, a, after s' c)"
proof -
  have "length out \<le> min (unat rl) max_transmit" using assms(9-11) by simp
  from transmit_exchange [OF assms(1,2,5,7,8) this assms(11)] obtain x where
    x: "card_exchange pl cd (transmit_request (pcScHandle cd) sp bs (t_pioRecvPci a) (ucast rl)) c = Inr (0, x, after s' c)"
    "getf s_transmit F_cbBufferLength x = ucast outlen" .
  have "unat (ucast outlen :: u32) = unat outlen" using assms(11) by (simp add: unat_ucast_32)
  then have "transmit_reply x rl a = Inr (SCARD_F_INTERNAL_ERROR, a)"
    using x(2) assms(10) by (simp add: transmit_reply_def word_less_nat_alt Let_def)
  with transmit_answer [OF assms(2-6) x(1)] show ?thesis by simp
qed

text \<open>C5 SCardTransmit: the command arrives at the server's card unchanged with the protocol
  headers, the library may answer up to the application's receive length (or what a message
  holds), and the answer, its length and its header are stored for the application.\<close>

theorem SCardTransmit_transparent:
  assumes "linked lib N u pl c" "card_session pl hCard cd c"
    and "unat cbSendLength = length bs" "4 \<le> length bs" "length bs < max_transmit"
    and "t_pcbRecvLength a = Some rl" "t_pbRecvBuffer a = Some d" "unat rl < 2 ^ 32"
    and "lib_Transmit lib (scast (pcScHandle cd)) (pci32 sp) bs
      (pci32 (case t_pioRecvPci a of None \<Rightarrow> no_pci | Some p \<Rightarrow> p))
      (of_nat (min (unat rl) max_transmit)) (srv (world c)) = (res, rp, (out, outlen), s')"
    and "length out = unat outlen" "unat outlen \<le> unat rl" "unat outlen < max_transmit"
      "length out \<le> length d"
  shows "SCardTransmit pl hCard (Some sp) (Some bs) cbSendLength a c =
    Inr (ucast (ucast res :: u32),
      a\<lparr>t_pioRecvPci := map_option (\<lambda>_. pci32 rp) (t_pioRecvPci a),
        t_pbRecvBuffer := Some (out @ drop (length out) d), t_pcbRecvLength := Some outlen\<rparr>,
      after s' c)"
  using assms by (rule transmit_transparent)

lemma SCardTransmit_transparent_witness:
  "SCardTransmit demo_pl 0x38345289 (Some no_pci) (Some [0, 0xA4, 4, 0]) 4
     \<lparr>t_pioRecvPci = None, t_pbRecvBuffer = Some [9, 9, 9, 9, 9], t_pcbRecvLength = Some 5\<rparr>
     (demo_client demo_link) =
   Inr (0, \<lparr>t_pioRecvPci = None, t_pbRecvBuffer = Some [0, 0xA4, 4, 0, 9], t_pcbRecvLength = Some 4\<rparr>,
     after 1 (demo_client demo_link))"
  using SCardTransmit_transparent [OF demo_linked demo_card_session, where bs = "[0, 0xA4, 4, 0]"
      and cbSendLength = 4 and sp = no_pci and rl = 5 and d = "[9, 9, 9, 9, 9]" and res = 0
      and out = "[0, 0xA4, 4, 0]" and outlen = 4 and s' = 1
      and rp = no_pci
      and a = "\<lparr>t_pioRecvPci = None, t_pbRecvBuffer = Some [9, 9, 9, 9, 9], t_pcbRecvLength = Some 5\<rparr>"]
  by (simp add: pci32_def no_pci_def)

section \<open>Status\<close>

lemma clip_twice:
  assumes "n < 2 ^ 31"
  shows "(if of_nat n < (ucast (if of_nat n < x then of_nat n else x) :: u64) then of_nat n
      else ucast (if of_nat n < x then of_nat n else x :: u32)) = (of_nat (min (unat x) n) :: u64)"
  using assms
  by (auto simp: word_less_nat_alt word_unat_eq_iff unat_of_nat min_def)

definition status_request :: "u32 \<Rightarrow> u32 \<Rightarrow> u32 \<Rightarrow> buffer" where
  "status_request hid n l =
     putf s_status F_pcbAtrLen (if 33 < l then 33 else l)
       (putf s_status F_pcchReaderLen (if 128 < n then 128 else n)
         (putf s_status F_hCard hid (request SCARD_STATUS 190)))"

lemma status_request_simps [msg_simps]:
  "msg_len (status_request hid n l) = 190"
  "msg_type (status_request hid n l) = command_code SCARD_STATUS"
  "getf s_status F_hCard (status_request hid n l) = hid"
  "getf s_status F_pcchReaderLen (status_request hid n l) = (if 128 < n then 128 else n)"
  "getf s_status F_pcbAtrLen (status_request hid n l) = (if 33 < l then 33 else l)"
  by (simp_all add: status_request_def msg_simps)

lemma status_dispatch:
  fixes u :: uninit
  assumes "lib_Status lib (scast hid) (of_nat (min (unat n) 128)) (of_nat (min (unat l) 33))
      (u_dwState u, u_dwProtocol u) s = (res, (name, nlen), (state, proto), (atr, alen), s')"
    and "length name \<le> 128" "length atr \<le> 33"
  defines "b \<equiv> blit 0 (frame (status_request hid n l)) (u_msg u)"
  shows "dispatch lib u SCARD_STATUS b s = Inr (putf s_status F_rv (ucast res)
    (putf s_status F_pcbAtrLen (ucast alen) (putf s_status F_dwProtocol (ucast proto)
      (putf s_status F_dwState (ucast state) (putf s_status F_pcchReaderLen (ucast nlen)
        (blit 149 atr (blit 9 name b)))))), s')"
proof -
  have "getf s_status f b = getf s_status f (status_request hid n l)" if "fld s_status f \<le> 186" for f
    using that unfolding b_def by (intro getf_frame) (simp add: msg_simps)
  moreover have "store_bytes 9 name m = Inr (blit 9 name m)" "store_bytes 149 atr m = Inr (blit 149 atr m)" for m
    using assms(2,3) by (auto simp: store_bytes_def)
  ultimately show ?thesis
    using assms(1) clip_twice [of 128 n] clip_twice [of 33 l]
    by (simp add: handleStatus_def msg_simps Let_def split del: if_split cong del: if_weak_cong)
qed

lemma copy_list:
  fixes l lim :: u64
  assumes "length bs = unat l" "unat l \<le> unat lim" "length bs \<le> length d" "ucast (ucast l :: u32) = l"
  shows "(if (ucast l :: u32) \<noteq> 0 \<and> ucast (ucast l :: u32) \<le> (lim :: u64)
     then copy_to_app bs (Some d) else Inr (Some d)) = Inr (Some (bs @ drop (length bs) d))"
  using assms by (auto simp: copy_to_app_def word_le_nat_alt unat_eq_0 dest: arg_cong [of _ _ unat])

lemma status_stored:
  assumes "getf s_status F_dwState x = ucast state" "getf s_status F_dwProtocol x = ucast proto"
    "getf s_status F_pcchReaderLen x = ucast nlen" "getf s_status F_pcbAtrLen x = ucast alen"
    "getf s_status F_rv x = ucast res"
    and "bytes 9 (unat nlen) x = name" "bytes 149 (unat alen) x = atr"
    and "a_mszReaderName a = Some dn" "a_pbAtr a = Some da"
    and "length name = unat nlen" "length name \<le> min (unat rl) 128" "length name \<le> length dn"
    and "length atr = unat alen" "length atr \<le> min (unat al) 33" "length atr \<le> length da"
  shows "status_reply x rl al a = Inr (ucast (ucast res :: u32),
      \<lparr>a_mszReaderName = Some (name @ drop (length name) dn), a_pcchReaderLen = Some nlen,
       a_pdwState = map_option (\<lambda>_. ucast (ucast state :: u32)) (a_pdwState a),
       a_pdwProtocol = map_option (\<lambda>_. ucast (ucast proto :: u32)) (a_pdwProtocol a),
       a_pbAtr = Some (atr @ drop (length atr) da), a_pcbAtrLen = Some alen\<rparr>)"
proof -
  have nl: "unat (ucast nlen :: u32) = unat nlen" "unat (ucast alen :: u32) = unat alen"
    "ucast (ucast nlen :: u32) = nlen" "ucast (ucast alen :: u32) = alen"
    using assms(10,11,13,14) by (simp_all add: unat_ucast_32 ucast_back)
  then show ?thesis
    using assms copy_list [of name nlen rl dn] copy_list [of atr alen al da]
    by (cases a) (simp add: status_reply_def Let_def split del: if_split cong del: if_weak_cong)
qed

text \<open>SCardStatus: the library is asked with the application's lengths cut to the sizes of the
  message's arrays, and the name, the state, the protocol and the ATR it reports are stored for
  the application.\<close>

theorem SCardStatus_transparent:
  assumes "linked lib N u pl c" "card_session pl hCard cd c"
    and "a_pcchReaderLen a = Some rl" "a_pcbAtrLen a = Some al" "unat rl < 2 ^ 32" "unat al < 2 ^ 32"
    and "a_mszReaderName a = Some dn" "a_pbAtr a = Some da"
    and "lib_Status lib (scast (pcScHandle cd)) (of_nat (min (unat rl) 128)) (of_nat (min (unat al) 33))
      (u_dwState u, u_dwProtocol u) (srv (world c)) =
      (res, (name, nlen), (state, proto), (atr, alen), s')"
    and "length name = unat nlen" "length name \<le> min (unat rl) 128" "length name \<le> length dn"
    and "length atr = unat alen" "length atr \<le> min (unat al) 33" "length atr \<le> length da"
  shows "SCardStatus pl hCard a c =
    Inr (ucast (ucast res :: u32),
      \<lparr>a_mszReaderName = Some (name @ drop (length name) dn), a_pcchReaderLen = Some nlen,
       a_pdwState = map_option (\<lambda>_. ucast (ucast state :: u32)) (a_pdwState a),
       a_pdwProtocol = map_option (\<lambda>_. ucast (ucast proto :: u32)) (a_pdwProtocol a),
       a_pbAtr = Some (atr @ drop (length atr) da), a_pcbAtrLen = Some alen\<rparr>,
      after s' c)"
proof -
  let ?m = "status_request (pcScHandle cd) (ucast rl) (ucast al)"
  let ?b = "blit 0 (frame ?m) (u_msg u)"
  define r where "r = putf s_status F_rv (ucast res)
    (putf s_status F_pcbAtrLen (ucast alen) (putf s_status F_dwProtocol (ucast proto)
      (putf s_status F_dwState (ucast state) (putf s_status F_pcchReaderLen (ucast nlen)
        (blit 149 atr (blit 9 name ?b))))))"
  obtain k where f: "pp_findCard pl (ucast hCard) c = Inr (Some k)" "get_card k c = Inr cd"
    using assms(2) by (rule card_found)
  have nl: "unat (ucast nlen :: u32) = unat nlen" "unat (ucast alen :: u32) = unat alen"
    "ucast (ucast nlen :: u32) = nlen" "ucast (ucast alen :: u32) = alen"
    using assms(10,11,13,14) by (simp_all add: unat_ucast_32 ucast_back)
  have "dispatch lib u SCARD_STATUS ?b (srv (world c)) = Inr (r, s')"
    unfolding r_def by (rule status_dispatch) (use assms(5,6,9,11,14) in \<open>simp_all add: unat_ucast_32\<close>)
  from link_card [OF assms(1,2) _ this]
  have x: "card_exchange pl cd ?m c = Inr (0, blit 0 (frame r) ?m, after s' c)"
    using assms(11,14) by (simp add: msg_simps r_def)
  let ?x = "blit 0 (frame r) ?m"
  have rl: "msg_len r = 190" using assms(11,14) by (simp add: r_def msg_simps)
  have fields: "getf s_status g ?x = getf s_status g r" if "fld s_status g \<le> 186" for g
    using that rl by (simp add: msg_simps)
  have data: "bytes 9 (unat nlen) ?x = name" "bytes 149 (unat alen) ?x = atr"
    using rl assms(10,11,13,14) by (simp_all add: msg_simps r_def buf_simps)
  have vals: "getf s_status F_dwState ?x = ucast state" "getf s_status F_dwProtocol ?x = ucast proto"
    "getf s_status F_pcchReaderLen ?x = ucast nlen" "getf s_status F_pcbAtrLen ?x = ucast alen"
    "getf s_status F_rv ?x = ucast res"
    by (simp_all add: fields) (simp_all add: r_def msg_simps)
  note status_stored [OF vals data assms(7,8,10-15)]
  moreover have "rl \<noteq> SCARD_AUTOALLOCATE" "al \<noteq> SCARD_AUTOALLOCATE"
    using assms(5,6) by (simp_all add: not_autoallocate)
  ultimately show ?thesis
    using f x assms(3,4)
    by (simp add: SCardStatus_def status_request_def Let_def split del: if_split cong del: if_weak_cong)
qed

lemma SCardStatus_transparent_witness:
  "SCardStatus demo_pl 0x38345289
     \<lparr>a_mszReaderName = Some [9, 9, 9, 9, 9], a_pcchReaderLen = Some 5, a_pdwState = Some 0,
      a_pdwProtocol = None, a_pbAtr = Some [9, 9], a_pcbAtrLen = Some 2\<rparr> (demo_client demo_link) =
   Inr (0, \<lparr>a_mszReaderName = Some [82, 49, 0, 0, 9], a_pcchReaderLen = Some 4,
       a_pdwState = Some 0x34, a_pdwProtocol = None, a_pbAtr = Some [0x3B, 0],
       a_pcbAtrLen = Some 2\<rparr>, after 1 (demo_client demo_link))"
  using SCardStatus_transparent [OF demo_linked demo_card_session, where rl = 5 and al = 2
      and dn = "[9, 9, 9, 9, 9]" and da = "[9, 9]" and res = 0 and name = "[82, 49, 0, 0]"
      and nlen = 4 and state = "0x34" and proto = 1 and atr = "[0x3B, 0]" and alen = 2 and s' = 1
      and a = "\<lparr>a_mszReaderName = Some [9, 9, 9, 9, 9], a_pcchReaderLen = Some 5, a_pdwState = Some 0,
      a_pdwProtocol = None, a_pbAtr = Some [9, 9], a_pcbAtrLen = Some 2\<rparr>"]
  by simp

section \<open>Attributes\<close>

definition attrib_request :: "u32 \<Rightarrow> u64 \<Rightarrow> u64 \<Rightarrow> buffer" where
  "attrib_request hid dwAttrId al =
     putf s_getset F_cbAttrLen (if 4096 < al then 4096 else ucast al) (putf s_getset F_dwAttrId (ucast dwAttrId)
       (putf s_getset F_hCard hid (request SCARD_GET_ATTRIB 4117)))"

lemma attrib_exchange:
  assumes "linked lib N u pl c" "card_session pl hCard cd c" "unat al < 2 ^ 32"
    and "lib_GetAttrib lib (scast (pcScHandle cd)) (ucast (ucast dwAttrId :: u32))
      (of_nat (min (unat al) PP_MAX_BUFFER_LEN)) (srv (world c)) = (res, (out, outlen), s')"
    and "length out \<le> PP_MAX_BUFFER_LEN"
  obtains x where "card_exchange pl cd (attrib_request (pcScHandle cd) dwAttrId al) c = Inr (0, x, after s' c)"
    "getf s_getset F_cbAttrLen x = ucast outlen" "getf s_getset F_rv x = ucast res" "bytes 13 (length out) x = out"
proof -
  let ?m = "attrib_request (pcScHandle cd) dwAttrId al"
  let ?b = "blit 0 (frame ?m) (u_msg u)"
  define r where "r = putf s_getset F_rv (ucast res) (putf s_getset F_cbAttrLen (ucast outlen) (blit 13 out ?b))"
  have al: "(ucast (if 4096 < al then 4096 else ucast al :: u32) :: u64) = of_nat (min (unat al) 4096)"
    using assms(3) by (auto simp: word_less_nat_alt word_unat_eq_iff unat_of_nat unat_ucast_32 min_def)
  have "store_bytes 13 out ?b = Inr (blit 13 out ?b)"
    using assms(5) by (simp add: store_bytes_def)
  then have "dispatch lib u SCARD_GET_ATTRIB ?b (srv (world c)) = Inr (r, s')"
    using assms(4) al by (simp add: handleGetAttrib_def attrib_request_def r_def msg_simps split del: if_split)
  from link_card [OF assms(1,2) _ this]
  have x: "card_exchange pl cd ?m c = Inr (0, blit 0 (frame r) ?m, after s' c)"
    by (simp add: attrib_request_def r_def msg_simps)
  have rl: "msg_len r = 4117" by (simp add: r_def attrib_request_def msg_simps)
  have "getf s_getset F_cbAttrLen (blit 0 (frame r) ?m) = ucast outlen"
    "getf s_getset F_rv (blit 0 (frame r) ?m) = ucast res"
    "bytes 13 (length out) (blit 0 (frame r) ?m) = out"
    using rl assms(5) by (simp_all add: msg_simps) (simp_all add: r_def msg_simps buf_simps)
  with x show thesis by (rule that)
qed

text \<open>SCardGetAttrib: the library is asked with the application's length cut to the size of the
  message's array, and its answer and length are stored for the application.\<close>

theorem SCardGetAttrib_transparent:
  assumes "linked lib N u pl c" "card_session pl hCard cd c"
    and "unat al < 2 ^ 32"
    and "lib_GetAttrib lib (scast (pcScHandle cd)) (ucast (ucast dwAttrId :: u32))
      (of_nat (min (unat al) PP_MAX_BUFFER_LEN)) (srv (world c)) = (res, (out, outlen), s')"
    and "length out = unat outlen" "length out \<le> PP_MAX_BUFFER_LEN" "length out \<le> length d"
  shows "SCardGetAttrib pl hCard dwAttrId (Some d) (Some al) c =
    Inr (ucast (ucast res :: u32), (Some (out @ drop (length out) d), Some outlen), after s' c)"
proof -
  obtain k where f: "pp_findCard pl (ucast hCard) c = Inr (Some k)" "get_card k c = Inr cd"
    using assms(2) by (rule card_found)
  have ol: "unat (ucast outlen :: u32) = unat outlen" "ucast (ucast outlen :: u32) = outlen"
    using assms(5,6) by (simp_all add: unat_ucast_32 ucast_back)
  obtain x where x: "card_exchange pl cd (attrib_request (pcScHandle cd) dwAttrId al) c = Inr (0, x, after s' c)"
    "getf s_getset F_cbAttrLen x = ucast outlen" "getf s_getset F_rv x = ucast res" "bytes 13 (length out) x = out"
    using attrib_exchange [OF assms(1-4,6)] .
  have "read_bytes 13 (unat outlen) x = Inr out" "copy_to_app out (Some d) = Inr (Some (out @ drop (length out) d))"
    using x(4) assms(5-7) by (auto simp: read_bytes_def copy_to_app_def)
  then show ?thesis
    using f x [unfolded attrib_request_def] ol assms(3)
    by (simp add: SCardGetAttrib_def not_autoallocate Let_def split del: if_split cong del: if_weak_cong)
qed

lemma SCardGetAttrib_transparent_witness:
  "SCardGetAttrib demo_pl 0x38345289 0x90303 (Some [1, 2, 3]) (Some 3) (demo_client demo_link) =
    Inr (0, (Some [7, 8, 3], Some 2), after 1 (demo_client demo_link))"
  using SCardGetAttrib_transparent [OF demo_linked demo_card_session, where al = 3
      and dwAttrId = "0x90303" and d = "[1, 2, 3]" and res = 0 and out = "[7, 8]" and outlen = 2
      and s' = 1]
  by simp

text \<open>SCardSetAttrib hands the application's bytes to the library and returns its code.\<close>

theorem SCardSetAttrib_transparent:
  assumes "linked lib N u pl c" "card_session pl hCard cd c"
    and "unat al = length bs" "bs \<noteq> []" "length bs \<le> PP_MAX_BUFFER_LEN"
    and "lib_SetAttrib lib (scast (pcScHandle cd)) (ucast (ucast dwAttrId :: u32)) bs
      (srv (world c)) = (res, s')"
  shows "SCardSetAttrib pl hCard dwAttrId (Some bs) al c = Inr (ucast (ucast res :: u32), after s' c)"
proof -
  define m where "m = blit 13 bs (putf s_getset F_cbAttrLen (ucast al) (putf s_getset F_dwAttrId
    (ucast dwAttrId) (putf s_getset F_hCard (pcScHandle cd) (request SCARD_SET_ATTRIB 4117))))"
  let ?b = "blit 0 (frame m) (u_msg u)"
  obtain k where f: "pp_findCard pl (ucast hCard) c = Inr (Some k)" "get_card k c = Inr cd"
    using assms(2) by (rule card_found)
  have al: "unat (ucast al :: u32) = length bs" "\<not> 4096 < al"
    using assms(3,5) by (simp_all add: unat_ucast_32 word_less_nat_alt)
  have "bytes 13 (length bs) ?b = bs"
    using assms(5) by (simp add: msg_simps m_def buf_simps)
  then have "dispatch lib u SCARD_SET_ATTRIB ?b (srv (world c)) =
      Inr (putf s_getset F_rv (ucast res) ?b, s')"
    using assms(5,6) al by (simp add: handleSetAttrib_def m_def msg_simps read_bytes_def)
  from link_card [OF assms(1,2) _ this] have "card_exchange pl cd m c =
      Inr (0, blit 0 (frame (putf s_getset F_rv (ucast res) ?b)) m, after s' c)"
    using assms(5) by (simp add: m_def msg_simps)
  moreover have "app_bytes (unat al) (Some bs) = Inr bs" "al \<noteq> 0"
    using assms(3,4) by (auto simp: app_bytes_def)
  ultimately show ?thesis
    using f al(2) assms(5) by (simp add: SCardSetAttrib_def m_def msg_simps)
qed

lemma SCardSetAttrib_transparent_witness:
  "SCardSetAttrib demo_pl 0x38345289 0x90303 (Some [1, 2]) 2 (demo_client demo_link) =
    Inr (0, after 1 (demo_client demo_link))"
  using SCardSetAttrib_transparent [OF demo_linked demo_card_session, where al = 2
      and dwAttrId = "0x90303" and bs = "[1, 2]" and res = 0 and s' = 1]
  by simp

section \<open>Control\<close>

definition control_request :: "u32 \<Rightarrow> u64 \<Rightarrow> u64 \<Rightarrow> u8 list \<Rightarrow> u64 \<Rightarrow> buffer" where
  "control_request hid code sl bs rl =
     blit 13 bs (putf s_control F_cbRecvLength (ucast (if 4096 < rl then 4096 else rl))
       (putf s_control F_cbSendLength (ucast sl) (putf s_control F_dwControlCode (ucast code)
         (putf s_control F_hCard hid (request SCARD_CONTROL 8221)))))"

lemma control_exchange:
  assumes "linked lib N u pl c" "card_session pl hCard cd c"
    and "unat sl = length bs" "length bs \<le> 4096"
    and "lib_Control lib (scast (pcScHandle cd)) (ucast (ucast code :: u32)) bs
      (of_nat (min (unat rl) PP_MAX_BUFFER_LEN)) 0 (srv (world c)) = (res, out, outlen, s')"
    and "length out \<le> 4096"
  obtains x where "card_exchange pl cd (control_request (pcScHandle cd) code sl bs rl) c = Inr (0, x, after s' c)"
    "getf s_control F_dwBytesReturned x = ucast outlen" "getf s_control F_rv x = ucast res"
    "bytes 4113 (length out) x = out"
proof -
  define m where "m = control_request (pcScHandle cd) code sl bs rl"
  note m_def = m_def [unfolded control_request_def]
  let ?b = "blit 0 (frame m) (u_msg u)"
  define r where "r = putf s_control F_rv (ucast res) (putf s_control F_dwBytesReturned (ucast outlen)
    (blit 4113 out ?b))"
  have sl: "unat (ucast sl :: u32) = length bs"
    using assms(3,4) by (simp add: unat_ucast_32)
  have rl: "ucast (ucast (if 4096 < rl then 4096 else rl) :: u32) = (of_nat (min (unat rl) 4096) :: u64)"
    by (auto simp: word_less_nat_alt word_unat_eq_iff unat_of_nat unat_ucast_32 min_def)
  have ml: "msg_len m = 8221" "msg_type m = command_code SCARD_CONTROL"
    using assms(4) by (simp_all add: m_def msg_simps)
  have fields: "getf s_control g ?b = getf s_control g m" if "fld s_control g \<le> 8217" for g
    using that ml by (simp add: msg_simps)
  have "read_bytes 13 (length bs) ?b = Inr bs" "store_bytes 4113 out ?b = Inr (blit 4113 out ?b)"
    using assms(4,6) ml
    by (simp_all add: read_bytes_def store_bytes_def msg_simps) (simp add: m_def buf_simps)
  then have "dispatch lib u SCARD_CONTROL ?b (srv (world c)) = Inr (r, s')"
    using assms(4,5) sl rl fields
    by (simp add: handleControl_def r_def) (simp add: m_def msg_simps split del: if_split)
  from link_card [OF assms(1,2) _ this]
  have x: "card_exchange pl cd m c = Inr (0, blit 0 (frame r) m, after s' c)"
    using ml assms(6) by (simp add: r_def msg_simps)
  have "msg_len r = 8221" using ml assms(6) by (simp add: r_def msg_simps)
  then have "getf s_control F_dwBytesReturned (blit 0 (frame r) m) = ucast outlen"
    "getf s_control F_rv (blit 0 (frame r) m) = ucast res" "bytes 4113 (length out) (blit 0 (frame r) m) = out"
    using assms(6) by (simp_all add: msg_simps) (simp_all add: r_def msg_simps buf_simps)
  with x [unfolded m_def] show thesis by (intro that [unfolded control_request_def]) (simp_all add: m_def)
qed

text \<open>SCardControl: code and input reach the library unchanged, and the output and its length are
  given back, as long as the library keeps to the length it was given.\<close>

theorem SCardControl_transparent:
  assumes "linked lib N u pl c" "card_session pl hCard cd c"
    and "unat sl = length bs" "length bs \<le> PP_MAX_BUFFER_LEN"
    and "lib_Control lib (scast (pcScHandle cd)) (ucast (ucast code :: u32)) bs
      (of_nat (min (unat rl) PP_MAX_BUFFER_LEN)) 0 (srv (world c)) = (res, out, outlen, s')"
    and "length out = unat outlen" "length out \<le> min (unat rl) PP_MAX_BUFFER_LEN"
      "length out \<le> length d"
  shows "SCardControl pl hCard code (Some bs) sl (Some d) rl (Some n) c =
    Inr (ucast (ucast res :: u32), (Some (out @ drop (length out) d), Some outlen), after s' c)"
proof -
  obtain k where f: "pp_findCard pl (ucast hCard) c = Inr (Some k)" "get_card k c = Inr cd"
    using assms(2) by (rule card_found)
  have len: "length bs \<le> 4096" "length out \<le> 4096" "\<not> 4096 < sl"
    using assms(3,4,7) by (simp_all add: word_less_nat_alt)
  obtain x where x: "card_exchange pl cd (control_request (pcScHandle cd) code sl bs rl) c = Inr (0, x, after s' c)"
    "getf s_control F_dwBytesReturned x = ucast outlen" "getf s_control F_rv x = ucast res"
    "bytes 4113 (length out) x = out"
    using control_exchange [OF assms(1-3) len(1) assms(5) len(2)] .
  have ol: "unat (ucast outlen :: u32) = unat outlen" "ucast (ucast outlen :: u32) = outlen"
    using assms(6,7) by (simp_all add: unat_ucast_32 ucast_back)
  have "read_bytes 4113 (unat outlen) x = Inr out"
    using x(4) assms(6) len(2) by (simp add: read_bytes_def)
  then have "(if (ucast outlen :: u32) \<noteq> 0 then read_bytes 4113 (unat outlen) x else Inr []) = Inr out"
    using assms(6) ol by (auto dest: arg_cong [of _ _ unat])
  moreover have "copy_to_app out (Some d) = Inr (Some (out @ drop (length out) d))"
    "app_bytes (unat sl) (Some bs) = Inr bs"
    using assms(3,8) by (auto simp: copy_to_app_def app_bytes_def)
  ultimately show ?thesis
    using f x [unfolded control_request_def] ol len(3)
    by (simp add: SCardControl_def Let_def split del: if_split cong del: if_weak_cong)
qed

lemma SCardControl_transparent_witness:
  "SCardControl demo_pl 0x38345289 0x42000D48 (Some [1, 2]) 2 (Some [5, 5, 5]) 3 (Some 0)
     (demo_client demo_link) =
    Inr (0, (Some [1, 2, 5], Some 2), after 1 (demo_client demo_link))"
  using SCardControl_transparent [OF demo_linked demo_card_session, where sl = 2 and bs = "[1, 2]"
      and code = "0x42000D48" and rl = 3 and d = "[5, 5, 5]" and n = 0 and res = 0
      and out = "[1, 2]" and outlen = 2 and s' = 1]
  by simp

section \<open>Lists of readers\<close>

lemma list_length_nat:
  assumes "unat len < 2 ^ 31"
  shows "list_length len (int mx) = int (min (unat len) mx)"
proof -
  have "unat (ucast len :: u32) = unat len" using assms by (simp add: unat_ucast_32)
  then have "uint (ucast len :: u32) = int (unat len)" by (metis of_nat_unat)
  then have "sint (ucast len :: u32) = int (unat len)"
    using assms by (simp only: sint_uint) (rule signed_take_bit_int_eq_self; simp)
  then show ?thesis by (simp add: list_length_def min_def)
qed

text \<open>
  The two list functions exchange the same message but for its command: the structures of readers
  and groups have the same layout, and the handlers differ in the library function they call.
\<close>

definition list_request :: "message_commands \<Rightarrow> u32 \<Rightarrow> u32 \<Rightarrow> u32 \<Rightarrow> buffer" where
  "list_request cmd hid n q =
     putf s_listreaders F_isSizeQueryOnly q (putf s_listreaders F_cchReaderLen n
       (putf s_listreaders F_hContext hid (request cmd 21)))"

definition list_function :: "'s pcsc \<Rightarrow> message_commands \<Rightarrow> u64 \<Rightarrow> bool \<Rightarrow> u64 \<Rightarrow> 's \<Rightarrow> u64 \<times> (u8 list \<times> u64) \<times> 's" where
  "list_function lib cmd = (if cmd = SCARD_LIST_GROUPS then lib_ListReaderGroups lib else lib_ListReaders lib)"

lemma list_names:
  "getf s_listgroups F_cchGroupLen = getf s_listreaders F_cchReaderLen"
  "getf s_listgroups F_hContext = getf s_listreaders F_hContext"
  "getf s_listgroups F_isSizeQueryOnly = getf s_listreaders F_isSizeQueryOnly"
  "getf s_listgroups F_rv = getf s_listreaders F_rv"
  "putf s_listgroups F_cchGroupLen = putf s_listreaders F_cchReaderLen"
  "putf s_listgroups F_hContext = putf s_listreaders F_hContext"
  "putf s_listgroups F_isSizeQueryOnly = putf s_listreaders F_isSizeQueryOnly"
  "putf s_listgroups F_rv = putf s_listreaders F_rv"
  by (simp_all add: getf_def putf_def fun_eq_iff)

lemma list_dispatch:
  assumes "cmd = SCARD_LIST_READERS \<or> cmd = SCARD_LIST_GROUPS"
  shows "dispatch lib u cmd b s = handleListReaders (lib\<lparr>lib_ListReaders := list_function lib cmd\<rparr>) b s"
  using assms
proof
  assume "cmd = SCARD_LIST_READERS"
  then have "lib\<lparr>lib_ListReaders := list_function lib cmd\<rparr> = lib" by (simp add: list_function_def)
  with \<open>cmd = SCARD_LIST_READERS\<close> show ?thesis by simp
next
  assume "cmd = SCARD_LIST_GROUPS"
  then show ?thesis
    by (simp add: handleListReaders_def handleListGroups_def list_function_def list_names Let_def)
qed

lemma list_request_simps [msg_simps]:
  "msg_len (list_request cmd hid n q) = 21" "msg_type (list_request cmd hid n q) = command_code cmd"
  "getf s_listreaders F_hContext (list_request cmd hid n q) = hid"
  "getf s_listreaders F_cchReaderLen (list_request cmd hid n q) = n"
  "getf s_listreaders F_isSizeQueryOnly (list_request cmd hid n q) = q"
  by (simp_all add: list_request_def msg_simps)

lemma list_fields:
  "fld s_listreaders g \<le> 17 \<Longrightarrow> getf s_listreaders g (blit 0 (frame (list_request cmd hid n q)) m) =
    getf s_listreaders g (list_request cmd hid n q)"
  by (simp add: msg_simps)

lemma list_fetch:
  assumes "linked lib N u pl c" "context_session pl hContext i p c"
    and "cmd = SCARD_LIST_READERS \<or> cmd = SCARD_LIST_GROUPS" "lim \<le> 66539"
    and "list_function lib cmd (scast (pcScContext p)) True (of_nat lim) (srv (world c)) = (res, (out, outlen), s')"
    and "length out \<le> unat outlen" "unat outlen < 66539"
  obtains x where "pp_exchangeMsg pl i (list_request cmd (pcScContext p) (of_nat lim) 0) c = Inr (0, x, after s' c)"
    "getf s_listreaders F_cchReaderLen x = ucast outlen" "getf s_listreaders F_rv x = ucast res"
    "length out = unat outlen \<longrightarrow> read_bytes 21 (unat outlen) x = Inr out"
proof -
  let ?m = "list_request cmd (pcScContext p) (of_nat lim) 0"
  let ?b = "blit 0 (frame ?m) (u_msg u)"
  define r where "r = putf s_listreaders F_rv (ucast res) (set_msg_len (ucast (21 + outlen))
    (putf s_listreaders F_cchReaderLen (ucast outlen) (blit 21 out ?b)))"
  have ol: "unat (ucast outlen :: u32) = unat outlen" "unat (ucast (21 + outlen) :: u32) = 21 + unat outlen"
    using assms(7) by (simp_all add: unat_ucast_32 unat_word_ariths)
  have n: "(ucast (of_nat lim :: u32) :: u64) = of_nat lim" "\<not> 66539 < (of_nat lim :: u64)"
    using assms(4) by (simp_all add: word_unat_eq_iff word_less_nat_alt unat_of_nat)
  have "store_bytes 21 out ?b = Inr (blit 21 out ?b)"
    using assms(6,7) by (simp add: store_bytes_def)
  moreover have "(22 + outlen - 1 :: u64) = 21 + outlen" by simp
  ultimately have "dispatch lib u cmd ?b (srv (world c)) = Inr (r, s')"
    using assms(5) n unfolding list_dispatch [OF assms(3)]
    by (simp add: handleListReaders_def r_def Let_def list_fields list_request_simps)
  from link_context [OF assms(1,2) _ this]
  have x: "pp_exchangeMsg pl i ?m c = Inr (0, blit 0 (frame r) ?m, after s' c)"
    using assms(6,7) ol by (simp add: r_def msg_simps)
  have rlen: "msg_len r = ucast (21 + outlen)" by (simp add: r_def msg_simps)
  have "getf s_listreaders F_cchReaderLen (blit 0 (frame r) ?m) = ucast outlen"
    "getf s_listreaders F_rv (blit 0 (frame r) ?m) = ucast res"
    using rlen ol by (simp_all add: msg_simps) (simp_all add: r_def msg_simps)
  moreover have "length out = unat outlen \<longrightarrow> read_bytes 21 (unat outlen) (blit 0 (frame r) ?m) = Inr out"
    using rlen assms(7) ol by (simp add: read_bytes_def msg_simps) (simp add: r_def msg_simps buf_simps)
  ultimately show thesis using x that by blast
qed

lemma list_size:
  assumes "linked lib N u pl c" "context_session pl hContext i p c"
    and "cmd = SCARD_LIST_READERS \<or> cmd = SCARD_LIST_GROUPS" "lim \<le> 66539"
    and "list_function lib cmd (scast (pcScContext p)) False (of_nat lim) (srv (world c)) = (res, (out, outlen), s')"
  obtains x where "pp_exchangeMsg pl i (list_request cmd (pcScContext p) (of_nat lim) 1) c = Inr (0, x, after s' c)"
    "getf s_listreaders F_cchReaderLen x = ucast outlen" "getf s_listreaders F_rv x = ucast res"
proof -
  let ?m = "list_request cmd (pcScContext p) (of_nat lim) 1"
  let ?b = "blit 0 (frame ?m) (u_msg u)"
  define r where "r = putf s_listreaders F_rv (ucast res) (putf s_listreaders F_cchReaderLen (ucast outlen) ?b)"
  have n: "(ucast (of_nat lim :: u32) :: u64) = of_nat lim"
    using assms(4) by (simp add: word_unat_eq_iff unat_of_nat)
  have "dispatch lib u cmd ?b (srv (world c)) = Inr (r, s')"
    using assms(5) n unfolding list_dispatch [OF assms(3)]
    by (simp add: handleListReaders_def r_def Let_def list_fields list_request_simps)
  from link_context [OF assms(1,2) _ this]
  have x: "pp_exchangeMsg pl i ?m c = Inr (0, blit 0 (frame r) ?m, after s' c)"
    by (simp add: r_def msg_simps)
  have rlen: "msg_len r = 21" by (simp add: r_def msg_simps)
  have "getf s_listreaders F_cchReaderLen (blit 0 (frame r) ?m) = ucast outlen"
    "getf s_listreaders F_rv (blit 0 (frame r) ?m) = ucast res"
    using rlen by (simp_all add: msg_simps) (simp_all add: r_def msg_simps)
  with x that show thesis by blast
qed

text \<open>SCardListReaders and SCardListReaderGroups with a buffer: the library's list reaches the
  application's buffer.  The length is given back only when no buffer is given, which is the size
  query.\<close>

lemma list_length_word:
  assumes "unat len < 2 ^ 31"
  shows "word_of_int (list_length len 66539) = (of_nat (min (unat len) 66539) :: u32)"
  using list_length_nat [OF assms, of 66539] by simp

lemma list_buffer:
  fixes len outlen :: u64
  assumes "unat len < 2 ^ 31" "length out = unat outlen" "length out \<le> unat len" "length out < 66539" "length out \<le> length d"
  shows "unat (ucast outlen :: u32) = unat outlen" "ucast (ucast outlen :: u32) = outlen" "\<not> len < outlen"
    "len \<noteq> SCARD_AUTOALLOCATE" "copy_to_app out (Some d) = Inr (Some (out @ drop (length out) d))"
  using assms
  by (auto simp: unat_ucast_32 ucast_back word_less_nat_alt not_autoallocate copy_to_app_def)

theorem SCardListReaders_transparent:
  assumes "linked lib N u pl c" "context_session pl hContext i p c"
    and "unat len < 2 ^ 31"
    and "lib_ListReaders lib (scast (pcScContext p)) True (of_nat (min (unat len) 66539)) (srv (world c)) =
      (res, (out, outlen), s')"
    and "length out = unat outlen" "length out \<le> unat len" "length out < 66539" "length out \<le> length d"
  shows "SCardListReaders pl hContext (Some d) (Some len) c =
    Inr (ucast (ucast res :: u32), (Some (out @ drop (length out) d), Some len), after s' c)"
proof -
  have "list_function lib SCARD_LIST_READERS = lib_ListReaders lib" by (simp add: list_function_def)
  with assms list_fetch [OF assms(1,2), of SCARD_LIST_READERS "min (unat len) 66539" res out outlen s']
  obtain x where x: "pp_exchangeMsg pl i (list_request SCARD_LIST_READERS (pcScContext p) (of_nat (min (unat len) 66539)) 0) c =
      Inr (0, x, after s' c)"
    "getf s_listreaders F_cchReaderLen x = ucast outlen" "getf s_listreaders F_rv x = ucast res"
    "length out = unat outlen \<longrightarrow> read_bytes 21 (unat outlen) x = Inr out" by auto
  note b = list_buffer [OF assms(3,5-8)]
  moreover have "read_bytes 21 (unat outlen) x = Inr out" using x(4) assms(5) by blast
  ultimately show ?thesis
    using context_found [OF assms(2)] x(1-3) list_length_word [OF assms(3)]
    by (simp add: SCardListReaders_def list_names Let_def split del: if_split cong del: if_weak_cong flip: list_request_def)
qed

lemma SCardListReaders_transparent_witness:
  "SCardListReaders demo_pl 0x88345289 (Some [1, 1, 1, 1, 1]) (Some 5) (demo_client demo_link) =
    Inr (0, (Some [82, 49, 0, 0, 1], Some 5), after 1 (demo_client demo_link))"
  using SCardListReaders_transparent [OF demo_linked demo_context_session, where len = 5
      and d = "[1, 1, 1, 1, 1]" and res = 0 and out = "[82, 49, 0, 0]" and outlen = 4 and s' = 1]
  by simp

theorem SCardListReaderGroups_transparent:
  assumes "linked lib N u pl c" "context_session pl hContext i p c"
    and "unat len < 2 ^ 31"
    and "lib_ListReaderGroups lib (scast (pcScContext p)) True (of_nat (min (unat len) 66539)) (srv (world c)) =
      (res, (out, outlen), s')"
    and "length out = unat outlen" "length out \<le> unat len" "length out < 66539" "length out \<le> length d"
  shows "SCardListReaderGroups pl hContext (Some d) (Some len) c =
    Inr (ucast (ucast res :: u32), (Some (out @ drop (length out) d), Some len), after s' c)"
proof -
  have "list_function lib SCARD_LIST_GROUPS = lib_ListReaderGroups lib" by (simp add: list_function_def)
  with assms list_fetch [OF assms(1,2), of SCARD_LIST_GROUPS "min (unat len) 66539" res out outlen s']
  obtain x where x: "pp_exchangeMsg pl i (list_request SCARD_LIST_GROUPS (pcScContext p) (of_nat (min (unat len) 66539)) 0) c =
      Inr (0, x, after s' c)"
    "getf s_listreaders F_cchReaderLen x = ucast outlen" "getf s_listreaders F_rv x = ucast res"
    "length out = unat outlen \<longrightarrow> read_bytes 21 (unat outlen) x = Inr out" by auto
  note b = list_buffer [OF assms(3,5-8)]
  moreover have "read_bytes 21 (unat outlen) x = Inr out" using x(4) assms(5) by blast
  ultimately show ?thesis
    using context_found [OF assms(2)] x(1-3) list_length_word [OF assms(3)]
    by (simp add: SCardListReaderGroups_def list_names Let_def split del: if_split cong del: if_weak_cong flip: list_request_def)
qed

lemma SCardListReaderGroups_transparent_witness:
  "SCardListReaderGroups demo_pl 0x88345289 (Some [1, 1, 1, 1]) (Some 4) (demo_client demo_link) =
    Inr (0, (Some [71, 0, 0, 1], Some 4), after 1 (demo_client demo_link))"
  using SCardListReaderGroups_transparent [OF demo_linked demo_context_session, where len = 4
      and d = "[1, 1, 1, 1]" and res = 0 and out = "[71, 0, 0]" and outlen = 3 and s' = 1]
  by simp

text \<open>A list longer than the buffer is refused, with a code of the client's own and without the length
  the application would need.\<close>

lemma SCardListReaders_too_long:
  assumes "linked lib N u pl c" "context_session pl hContext i p c" "unat len < 2 ^ 31"
    and "lib_ListReaders lib (scast (pcScContext p)) True (of_nat (unat len)) (srv (world c)) =
      (res, (out, outlen), s')"
    and "length out \<le> unat outlen" "unat len < unat outlen" "unat outlen < 66539"
  shows "SCardListReaders pl hContext (Some d) (Some len) c = Inr (SCARD_F_INTERNAL_ERROR, (Some d, Some len), after s' c)"
proof -
  have "list_function lib SCARD_LIST_READERS = lib_ListReaders lib" by (simp add: list_function_def)
  moreover have "min (unat len) 66539 = unat len" using assms(6,7) by simp
  moreover note assms list_fetch [OF assms(1,2), of SCARD_LIST_READERS "min (unat len) 66539" res out outlen s']
  ultimately obtain x where x: "pp_exchangeMsg pl i (list_request SCARD_LIST_READERS (pcScContext p) (of_nat (min (unat len) 66539)) 0) c =
      Inr (0, x, after s' c)"
    "getf s_listreaders F_cchReaderLen x = ucast outlen" by auto
  have "len \<noteq> SCARD_AUTOALLOCATE" "len < outlen" "ucast (ucast outlen :: u32) = outlen"
    using assms(3,6,7) by (simp_all add: not_autoallocate word_less_nat_alt ucast_back)
  with context_found [OF assms(2)] x list_length_word [OF assms(3)] show ?thesis
    by (simp add: SCardListReaders_def list_names Let_def split del: if_split cong del: if_weak_cong flip: list_request_def)
qed

lemma SCardListReaderGroups_too_long:
  assumes "linked lib N u pl c" "context_session pl hContext i p c" "unat len < 2 ^ 31"
    and "lib_ListReaderGroups lib (scast (pcScContext p)) True (of_nat (unat len)) (srv (world c)) =
      (res, (out, outlen), s')"
    and "length out \<le> unat outlen" "unat len < unat outlen" "unat outlen < 66539"
  shows "SCardListReaderGroups pl hContext (Some d) (Some len) c = Inr (SCARD_F_INTERNAL_ERROR, (Some d, Some len), after s' c)"
proof -
  have "list_function lib SCARD_LIST_GROUPS = lib_ListReaderGroups lib" by (simp add: list_function_def)
  moreover have "min (unat len) 66539 = unat len" using assms(6,7) by simp
  moreover note assms list_fetch [OF assms(1,2), of SCARD_LIST_GROUPS "min (unat len) 66539" res out outlen s']
  ultimately obtain x where x: "pp_exchangeMsg pl i (list_request SCARD_LIST_GROUPS (pcScContext p) (of_nat (min (unat len) 66539)) 0) c =
      Inr (0, x, after s' c)"
    "getf s_listreaders F_cchReaderLen x = ucast outlen" by auto
  have "len \<noteq> SCARD_AUTOALLOCATE" "len < outlen" "ucast (ucast outlen :: u32) = outlen"
    using assms(3,6,7) by (simp_all add: not_autoallocate word_less_nat_alt ucast_back)
  with context_found [OF assms(2)] x list_length_word [OF assms(3)] show ?thesis
    by (simp add: SCardListReaderGroups_def list_names Let_def split del: if_split cong del: if_weak_cong flip: list_request_def)
qed

text \<open>The size query: only the length comes back.\<close>

lemma SCardListReaders_size:
  assumes "linked lib N u pl c" "context_session pl hContext i p c" "unat len < 2 ^ 31"
    and "lib_ListReaders lib (scast (pcScContext p)) False (of_nat (min (unat len) 66539)) (srv (world c)) =
      (res, (out, outlen), s')"
  shows "SCardListReaders pl hContext None (Some len) c =
    Inr (ucast (ucast res :: u32), (None, Some (ucast (ucast outlen :: u32))), after s' c)"
proof -
  have "list_function lib SCARD_LIST_READERS = lib_ListReaders lib" by (simp add: list_function_def)
  with assms list_size [OF assms(1,2), of SCARD_LIST_READERS "min (unat len) 66539" res out outlen s']
  obtain x where x: "pp_exchangeMsg pl i (list_request SCARD_LIST_READERS (pcScContext p) (of_nat (min (unat len) 66539)) 1) c =
      Inr (0, x, after s' c)"
    "getf s_listreaders F_cchReaderLen x = ucast outlen" "getf s_listreaders F_rv x = ucast res" by auto
  have "len \<noteq> SCARD_AUTOALLOCATE" using assms(3) by (simp add: not_autoallocate)
  with context_found [OF assms(2)] x list_length_word [OF assms(3)] show ?thesis
    by (simp add: SCardListReaders_def list_names Let_def split del: if_split cong del: if_weak_cong flip: list_request_def)
qed

lemma SCardListReaderGroups_size:
  assumes "linked lib N u pl c" "context_session pl hContext i p c" "unat len < 2 ^ 31"
    and "lib_ListReaderGroups lib (scast (pcScContext p)) False (of_nat (min (unat len) 66539)) (srv (world c)) =
      (res, (out, outlen), s')"
  shows "SCardListReaderGroups pl hContext None (Some len) c =
    Inr (ucast (ucast res :: u32), (None, Some (ucast (ucast outlen :: u32))), after s' c)"
proof -
  have "list_function lib SCARD_LIST_GROUPS = lib_ListReaderGroups lib" by (simp add: list_function_def)
  with assms list_size [OF assms(1,2), of SCARD_LIST_GROUPS "min (unat len) 66539" res out outlen s']
  obtain x where x: "pp_exchangeMsg pl i (list_request SCARD_LIST_GROUPS (pcScContext p) (of_nat (min (unat len) 66539)) 1) c =
      Inr (0, x, after s' c)"
    "getf s_listreaders F_cchReaderLen x = ucast outlen" "getf s_listreaders F_rv x = ucast res" by auto
  have "len \<noteq> SCARD_AUTOALLOCATE" using assms(3) by (simp add: not_autoallocate)
  with context_found [OF assms(2)] x list_length_word [OF assms(3)] show ?thesis
    by (simp add: SCardListReaderGroups_def list_names Let_def split del: if_split cong del: if_weak_cong flip: list_request_def)
qed

end
