(* ===== verification/ClientSafe.thy ===== *)
theory ClientSafe
  imports TransparentData
begin

text \<open>
  The client against its environment: what a server's answer can do to the application's
  buffers, what the handle tables guarantee and where they leak, and the faults the environment
  or the application can provoke.
\<close>

section \<open>Answers of the server and the application's buffers\<close>

lemma copy_to_app_Inr: "length bs \<le> length d \<Longrightarrow> copy_to_app bs (Some d) = Inr (Some (bs @ drop (length bs) d))"
  by (simp add: copy_to_app_def)

text \<open>No answer of a server can make SCardTransmit write past the application's buffer: when the
  buffer has the length the application claims, the answer is refused or it fits.\<close>

theorem transmit_reply_safe:
  assumes "t_pbRecvBuffer a = Some d" "unat recvLength \<le> length d"
  shows "\<exists>rv a'. transmit_reply m recvLength a = Inr (rv, a') \<and>
    (\<exists>d'. t_pbRecvBuffer a' = Some d' \<and> length d' = length d)"
proof -
  let ?n = "getf s_transmit F_cbBufferLength m"
  show ?thesis
  proof (cases "max_transmit < unat ?n \<or> recvLength < ucast ?n")
    case True
    with assms show ?thesis by (auto simp: transmit_reply_def Let_def)
  next
    case False
    then have "unat ?n \<le> length d" using assms(2) by (simp add: word_less_nat_alt)
    with False assms(1) show ?thesis
      by (simp add: transmit_reply_def copy_to_app_Inr Let_def)
  qed
qed

lemma transmit_reply_safe_witness:
  "\<exists>rv a'. transmit_reply (putf s_transmit F_cbBufferLength 0x100 zeros) 2
     \<lparr>t_pioRecvPci = None, t_pbRecvBuffer = Some [1, 2], t_pcbRecvLength = Some 2\<rparr> = Inr (rv, a')"
  using transmit_reply_safe [of "\<lparr>t_pioRecvPci = None, t_pbRecvBuffer = Some [1, 2],
      t_pcbRecvLength = Some 2\<rparr>" "[1, 2]" 2 "putf s_transmit F_cbBufferLength 0x100 zeros"]
  by auto

text \<open>No answer of a server can make SCardStatus write past the application's two buffers.\<close>

theorem status_reply_safe:
  assumes "a_mszReaderName a = Some dn" "a_pbAtr a = Some da"
    and "unat readerLen \<le> length dn" "unat atrLen \<le> length da"
  shows "\<exists>rv a'. status_reply m readerLen atrLen a = Inr (rv, a')"
proof -
  have fits: "(if n \<noteq> 0 \<and> ucast (n :: u32) \<le> lim then copy_to_app (bytes off (unat n) m) (Some d)
      else Inr (Some d)) \<in> range (\<lambda>d. Inr (Some d))"
    if "unat (lim :: u64) \<le> length d" for n lim off d
    using that by (auto simp: copy_to_app_Inr word_le_nat_alt)
  obtain dn' where n: "(if getf s_status F_pcchReaderLen m \<noteq> 0 \<and>
        ucast (getf s_status F_pcchReaderLen m) \<le> readerLen
      then copy_to_app (bytes 9 (unat (getf s_status F_pcchReaderLen m)) m) (Some dn)
      else Inr (Some dn)) = Inr (Some dn')"
    using fits [OF assms(3)] by (meson rangeE)
  obtain da' where a: "(if getf s_status F_pcbAtrLen m \<noteq> 0 \<and>
        ucast (getf s_status F_pcbAtrLen m) \<le> atrLen
      then copy_to_app (bytes 149 (unat (getf s_status F_pcbAtrLen m)) m) (Some da)
      else Inr (Some da)) = Inr (Some da')"
    using fits [OF assms(4)] by (meson rangeE)
  show ?thesis
    using n a assms(1,2)
    by (cases "128 < unat (getf s_status F_pcchReaderLen m)";
        cases "33 < unat (getf s_status F_pcbAtrLen m)")
      (simp_all add: status_reply_def Let_def split del: if_split cong del: if_weak_cong)
qed

lemma status_reply_safe_witness:
  "\<exists>rv a'. status_reply (putf s_status F_pcbAtrLen 30 zeros) 1 2
     \<lparr>a_mszReaderName = Some [1], a_pcchReaderLen = Some 1, a_pdwState = None,
      a_pdwProtocol = None, a_pbAtr = Some [9, 9], a_pcbAtrLen = Some 2\<rparr> = Inr (rv, a')"
  using status_reply_safe [where dn = "[1]" and da = "[9, 9]" and readerLen = 1 and atrLen = 2
      and m = "putf s_status F_pcbAtrLen 30 zeros" and a = "\<lparr>a_mszReaderName = Some [1],
      a_pcchReaderLen = Some 1, a_pdwState = None, a_pdwProtocol = None, a_pbAtr = Some [9, 9],
      a_pcbAtrLen = Some 2\<rparr>"]
  by simp

text \<open>C38 SCardGetAttrib writes past the application's buffer when the library reports a longer
  attribute than there is room for, as it does with SCARD_E_INSUFFICIENT_BUFFER: the check of
  the length compares it with itself.\<close>

theorem SCardGetAttrib_overflow:
  assumes "linked lib N u pl c" "card_session pl hCard cd c" "unat al < 2 ^ 32"
    and "lib_GetAttrib lib (scast (pcScHandle cd)) (ucast (ucast dwAttrId :: u32))
      (of_nat (min (unat al) PP_MAX_BUFFER_LEN)) (srv (world c)) = (res, (out, outlen), s')"
    and "length out \<le> PP_MAX_BUFFER_LEN" "unat outlen < 2 ^ 32" "length d < unat outlen"
  shows "SCardGetAttrib pl hCard dwAttrId (Some d) (Some al) c = Inl OutOfBounds"
proof -
  obtain k where f: "pp_findCard pl (ucast hCard) c = Inr (Some k)" "get_card k c = Inr cd"
    using assms(2) by (rule card_found)
  have ol: "unat (ucast outlen :: u32) = unat outlen" "ucast (ucast outlen :: u32) = outlen"
    using assms(6) by (simp_all add: unat_ucast_32 ucast_back)
  obtain x where x: "card_exchange pl cd (attrib_request (pcScHandle cd) dwAttrId al) c = Inr (0, x, after s' c)"
    "getf s_getset F_cbAttrLen x = ucast outlen"
    using attrib_exchange [OF assms(1-5)] .
  have "bindo (read_bytes 13 (unat outlen) x) (\<lambda>out. bindo (copy_to_app out (Some d)) g) = Inl OutOfBounds"
    for g :: "u8 list option \<Rightarrow> (u64 \<times> (u8 list option \<times> u64 option) \<times> 'a link client) outcome"
    using assms(7) by (auto simp: read_bytes_def copy_to_app_def dest: arg_cong [of _ _ length])
  then show ?thesis
    using f x [unfolded attrib_request_def] ol assms(3)
    by (simp add: SCardGetAttrib_def not_autoallocate Let_def split del: if_split cong del: if_weak_cong)
qed

lemma SCardGetAttrib_overflow_witness:
  "SCardGetAttrib demo_pl 0x38345289 0x90303 (Some [1]) (Some 1) (demo_client demo_link) = Inl OutOfBounds"
  using SCardGetAttrib_overflow [OF demo_linked demo_card_session, where al = 1 and d = "[1]"
      and dwAttrId = "0x90303" and res = 0 and out = "[7]" and outlen = 2 and s' = 1]
  by simp

section \<open>Handles\<close>

text \<open>C24 The handle of a new context is found, is none of the valid ones, and leaves all of these
  valid and denoting the same slots.\<close>

theorem context_handle_fresh:
  assumes "contexts_ok pl c" "pp_createContext pl c = Inr (Some i, c')"
  shows "contexts_ok pl c' \<and> pp_findContext pl (of_nat i + PP_CONTEXT_MAGIC) c' = Inr (Some i) \<and>
    (\<forall>h j. pp_findContext pl h c = Inr (Some j) \<longrightarrow>
       h \<noteq> of_nat i + PP_CONTEXT_MAGIC \<and> pp_findContext pl h c' = Inr (Some j))"
  using contexts.create_slot [OF assms] contexts.created_found [OF assms]
    contexts.created_fresh [OF assms] by blast

lemma context_handle_fresh_witness:
  "pp_findContext demo_pl (of_nat 0 + PP_CONTEXT_MAGIC) (set_context 0
     (zero_context\<lparr>ctx_id := PP_CONTEXT_MAGIC, tlsContext := Some 0\<rparr>)
     ((fresh_client demo_link)\<lparr>pp_context_array := Some (replicate 64 zero_context),
        g_tlsopts := Some Nullenc\<rparr>)) = Inr (Some 0)"
  using context_handle_fresh [OF fresh_contexts_ok fresh_createContext] by blast

text \<open>Releasing a context kills its handle and no other.\<close>

theorem context_release:
  assumes "contexts_ok pl c" "i < PP_MAX_CONTEXT"
  shows "\<exists>c'. pp_releaseContext pl (of_nat i + PP_CONTEXT_MAGIC) c = Inr c' \<and> contexts_ok pl c' \<and>
    pp_findContext pl (of_nat i + PP_CONTEXT_MAGIC) c' = Inr None \<and>
    (\<forall>h j. pp_findContext pl h c = Inr (Some j) \<longrightarrow> j \<noteq> i \<longrightarrow> pp_findContext pl h c' = Inr (Some j))"
  by (rule contexts.released [OF assms]) blast

lemma context_release_witness:
  "\<exists>c'. pp_releaseContext demo_pl (of_nat 0 + PP_CONTEXT_MAGIC) (demo_client demo_link) = Inr c' \<and>
    pp_findContext demo_pl (of_nat 0 + PP_CONTEXT_MAGIC) c' = Inr None"
  using context_release [of demo_pl "demo_client demo_link" 0, OF demo_contexts_ok] by auto

text \<open>C15 The handle of a card table entry is found after its creation and is new; the table never
  holds more than 64 cards, and then hands out no further one.\<close>

theorem card_table:
  assumes "cards_ok pl c" "pp_createCard pl ctx c = Inr (r, c')"
  shows "cards_ok pl c' \<and> cards.in_use c' \<le> 64 \<and>
    (case r of
       None \<Rightarrow> card_used c' = card_used c
     | Some k \<Rightarrow> cards.in_use c' = Suc (cards.in_use c) \<and>
         pp_findCard pl (of_nat k + PP_CARD_MAGIC) c' = Inr (Some k) \<and>
         (\<forall>h j. pp_findCard pl h c = Inr (Some j) \<longrightarrow>
            h \<noteq> of_nat k + PP_CARD_MAGIC \<and> pp_findCard pl h c' = Inr (Some j))) \<and>
    (cards.in_use c = 64 \<longrightarrow> r = None)"
proof (cases r)
  case None
  with assms cards.create_none [OF assms(1)] cards.in_use_bound show ?thesis by fastforce
next
  case (Some k)
  note a = assms(1) assms(2) [unfolded Some]
  from cards.create_slot [OF a] cards.in_use_create [OF a] cards.created_found [OF a]
    cards.created_fresh [OF a] cards.in_use_bound [of pl c'] cards.in_use_full [OF assms(1) _ assms(2)] Some
  show ?thesis by auto
qed

lemma card_table_witness:
  "cards_ok demo_pl (set_card 1 (zero_card\<lparr>card_id := of_nat 1 + PP_CARD_MAGIC, clientContext := Some 0\<rparr>)
     (demo_client demo_link))"
  using card_table [of demo_pl "demo_client demo_link" 0 "Some 1", OF demo_cards_ok demo_createCard]
  by (rule conjunct1)

text \<open>A handle one past the last slot passes the range check, and the entry after the array is
  read.\<close>

theorem findContext_off_by_one:
  assumes "contexts_ok pl c" "pp_context_array c = Some arr"
  shows "pp_findContext pl (64 + PP_CONTEXT_MAGIC) c = Inl OutOfBounds"
  using assms by (simp add: pp_findContext_def contexts_ok_def)

lemma findContext_off_by_one_witness:
  "pp_findContext demo_pl 0x883452C9 (demo_client demo_link) = Inl OutOfBounds"
  using findContext_off_by_one [of demo_pl "demo_client demo_link", OF demo_contexts_ok]
  by (simp add: demo_client_def PP_CONTEXT_MAGIC_def)

text \<open>The handle of a released context comes back to life, for another context, with the next
  one that is created.\<close>

theorem released_handle_reused:
  assumes "contexts_ok pl c" "i < PP_MAX_CONTEXT" "\<forall>j < i. context_used c j"
    and "pp_releaseContext pl (of_nat i + PP_CONTEXT_MAGIC) c = Inr c1"
    and "pp_createContext pl c1 = Inr (Some k, c2)"
  shows "k = i \<and> pp_findContext pl (of_nat i + PP_CONTEXT_MAGIC) c2 = Inr (Some i)"
proof -
  have "k = i" by (rule contexts.slot_reused [OF assms])
  moreover have "contexts_ok pl c1" using contexts.release_handle [OF assms(1,2)] assms(4) by auto
  ultimately show ?thesis using contexts.created_found [OF _ assms(5)] by simp
qed

lemma demo_release:
  "pp_releaseContext demo_pl (of_nat 0 + PP_CONTEXT_MAGIC) (demo_client demo_link) =
     Inr (set_context 0 (demo_context\<lparr>ctx_id := 0\<rparr>) (demo_client demo_link))"
  by (simp add: pp_releaseContext_def demo_client_def)

lemma demo_recreate:
  "pp_createContext demo_pl (set_context 0 (demo_context\<lparr>ctx_id := 0\<rparr>) (demo_client demo_link)) =
     Inr (Some 0, set_context 0 demo_context (demo_client demo_link))"
  by (simp add: pp_createContext_def create_context_setup_def create_context_slot_def demo_client_def
      set_context_def demo_context_def)

lemma released_handle_reused_witness:
  "pp_findContext demo_pl (of_nat 0 + PP_CONTEXT_MAGIC)
     (set_context 0 demo_context (demo_client demo_link)) = Inr (Some 0)"
  using released_handle_reused [OF demo_contexts_ok _ _ demo_release demo_recreate] by simp

section \<open>What a call leaves of the card table\<close>

lemma set_context_cards [simp]: "pp_card_array (set_context i p c) = pp_card_array c"
  by (simp add: set_context_def)

lemma connect_context_cards:
  "connect_context pl i c = Inr (rv, c') \<Longrightarrow> pp_card_array c' = pp_card_array c"
  by (auto simp: connect_context_def outcome_simps Let_def split_beta split: option.splits if_splits)

lemma exchange_on_cards:
  "exchange_on pl session m c = Inr (rv, m', c') \<Longrightarrow> pp_card_array c' = pp_card_array c"
  by (auto simp: exchange_on_def outcome_simps split: if_splits)

lemma exchange_cards:
  "pp_exchangeMsg pl i m c = Inr (rv, m', c') \<Longrightarrow> pp_card_array c' = pp_card_array c"
  by (auto simp: pp_exchangeMsg_def outcome_simps dest!: connect_context_cards exchange_on_cards
      split: if_splits)

text \<open>C40 SCardDisconnect, on any network and with any result, never frees the slot of the card: with
  the 64th connection of a process its card table is full for good.\<close>

theorem SCardDisconnect_keeps_slot:
  assumes "SCardDisconnect pl hCard dwDisposition c = Inr (rv, c')"
  shows "card_used c' = card_used c \<and>
    (cards_ok pl c \<and> cards.in_use c = 64 \<longrightarrow>
      (\<forall>i r c''. pp_createCard pl i c' = Inr (r, c'') \<longrightarrow> r = None))"
proof -
  from assms have same: "pp_card_array c' = pp_card_array c"
    by (auto simp: SCardDisconnect_def card_exchange_def outcome_simps Let_def dest!: exchange_cards
        split: option.splits if_splits)
  then have used: "card_used c' = card_used c" by (auto simp: card_used_def fun_eq_iff)
  have "r = None" if "cards_ok pl c" "cards.in_use c = 64" "pp_createCard pl i c' = Inr (r, c'')" for i r c''
  proof -
    have ok: "cards_ok pl c'"
      using that(1,3) same by (auto simp: cards_ok_def pp_createCard_def split: if_splits)
    have "cards.in_use c' = 64" using that(2) used by (simp add: cards.in_use_def)
    with cards.in_use_full [OF ok _ that(3)] show ?thesis by simp
  qed
  with used show ?thesis by blast
qed

text \<open>A client whose server has been lost.\<close>

definition lost_client :: "nat link client" where
  "lost_client = set_context 0 (demo_context\<lparr>tlsSession := None\<rparr>) (demo_client demo_link)"

lemma lost_disconnect:
  "SCardDisconnect demo_pl 0x38345289 1 lost_client = Inr (SCARD_F_INTERNAL_ERROR, lost_client)"
  by (simp add: SCardDisconnect_def lost_client_def set_context_def pp_findCard_def demo_client_def
      demo_card_def get_card_def card_exchange_def pp_exchangeMsg_def get_context_def PP_CARD_MAGIC_def
      msg_simps command_code_inj)

lemma SCardDisconnect_keeps_slot_witness:
  "\<exists>rv c'. SCardDisconnect demo_pl 0x38345289 1 lost_client = Inr (rv, c') \<and>
     card_used c' = card_used lost_client"
  using SCardDisconnect_keeps_slot [OF lost_disconnect] lost_disconnect by blast

section \<open>Faults from the environment\<close>

text \<open>Without \<open>PCSC_NULLENC\<close> in the environment the first context of a process faults, in the
  comparison of the missing value.\<close>

theorem createContext_needs_variable:
  assumes "\<not> pp_context_locked c" "mutex_lock_rv pl = 0" "pp_context_array c = None"
    "malloc_contexts pl" "g_tlsopts c = None" "getenv pl ''PCSC_NULLENC'' = None"
  shows "pp_createContext pl c = Inl NullPointer"
  using assms by (simp add: pp_createContext_def create_context_setup_def)

lemma createContext_needs_variable_witness:
  "pp_createContext (demo_pl\<lparr>getenv := \<lambda>_. None\<rparr>) (fresh_client demo_link) = Inl NullPointer"
  by (rule createContext_needs_variable) (simp_all add: fresh_client_def)

text \<open>When the wanted kind of encryption is not built in, the first context fails and the mutex
  stays locked: the next call of any function on contexts never returns.\<close>

theorem createContext_keeps_lock:
  assumes "\<not> pp_context_locked c" "mutex_lock_rv pl = 0" "pp_context_array c = None"
    "malloc_contexts pl" "g_tlsopts c = None" "getenv pl ''PCSC_NULLENC'' = Some e"
    and "fst (pp_tlsopts_init_any (build_options pl) (strcaseeq e ''true'' \<or> strcaseeq e ''1'')) < 0"
  shows "\<exists>c'. pp_createContext pl c = Inr (None, c') \<and>
    (\<forall>h. pp_findContext pl h c' = Inl Blocked) \<and> pp_createContext pl c' = Inl Blocked"
  using assms
  by (cases "pp_tlsopts_init_any (build_options pl) (strcaseeq e ''true'' \<or> strcaseeq e ''1'')")
    (simp add: pp_createContext_def create_context_setup_def pp_findContext_def)

lemma createContext_keeps_lock_witness:
  "\<exists>c'. pp_createContext (demo_pl\<lparr>build_options :=
        \<lparr>ENABLE_NULLENC = False, USE_OPENSSL = True, USE_BLUETOOTH = False\<rparr>\<rparr>) (fresh_client demo_link) =
      Inr (None, c') \<and> pp_findContext demo_pl 0x88345289 c' = Inl Blocked"
proof -
  let ?pl = "demo_pl\<lparr>build_options := \<lparr>ENABLE_NULLENC = False, USE_OPENSSL = True, USE_BLUETOOTH = False\<rparr>\<rparr>"
  have "\<exists>c'. pp_createContext ?pl (fresh_client demo_link) = Inr (None, c') \<and>
      (\<forall>h. pp_findContext ?pl h c' = Inl Blocked) \<and> pp_createContext ?pl c' = Inl Blocked"
    by (rule createContext_keeps_lock [where e = "''true''"])
      (simp_all add: fresh_client_def pp_tlsopts_init_any_def strcaseeq_def)
  then show ?thesis by (auto simp: pp_findContext_def split: if_splits)
qed

section \<open>A server that has gone away\<close>

text \<open>C36 A server that closes the connection instead of answering makes the call succeed: the end of
  the stream is not an error for \<open>pp_exchangeMsg\<close>, and the zeroed result field of the request
  is read as SCARD_S_SUCCESS.\<close>

theorem closed_connection_is_success:
  assumes "pp_findCard pl (ucast hCard) c = Inr (Some k)" "get_card k c = Inr cd"
    "clientContext cd = Some i" "get_context i c = Inr p" "tlsSession p = Some q"
    and "tls_ops pl c = Inr pp_nullenc_opts" "heap (world c) q = Some sk"
    and "13 \<le> stream_room (Sock sk) (world c)" "rx (chan (world c) (Sock sk)) = Closed # es"
  shows "\<exists>c'. SCardBeginTransaction pl hCard c = Inr (SCARD_S_SUCCESS, c')"
proof -
  define m where "m = putf s_begin F_hCard (pcScHandle cd) (request SCARD_BEGIN_TRANSACTION 13)"
  from nullenc.send_frame [OF assms(7), of m] assms(8) obtain w1 where
    snd: "nullenc_tls_send (Some q) m (world c) = Inr (0, w1)"
    by (auto simp: m_def msg_simps)
  from nullenc_send_rx [OF assms(7) this] assms(7,9) have
    w1: "heap w1 q = Some sk" "rx (chan w1 (Sock sk)) = Closed # es" by simp_all
  have "recv_message m (Closed # es) = Inr ((0, m), Closed # es)"
    by (simp add: recv_message_def recv_header.simps [of 0])
  with w1 obtain w2 where "nullenc_tls_recv (Some q) m w1 = Inr (0, m, w2)"
    by (simp add: nullenc_tls_recv_def deref_def recv_on_def)
  with snd assms(1-6) have "SCardBeginTransaction pl hCard c =
      Inr (ucast (getf s_begin F_rv m), c\<lparr>world := w2\<rparr>)"
    by (simp add: SCardBeginTransaction_def card_exchange_def exchange_session exchange_on_def
        flip: m_def)
  then show ?thesis by (simp add: m_def msg_simps SCARD_S_SUCCESS_def)
qed

definition closed_net :: net where
  "closed_net = \<lparr>chan = (\<lambda>_. \<lparr>rx = [Closed], wx = [Accept 100], sent = []\<rparr>),
     heap = (\<lambda>p. if p = 1 then Some 7 else None), heap_next = 2, heap_left = 0\<rparr>"

lemma closed_connection_is_success_witness:
  "\<exists>c'. SCardBeginTransaction (demo_platform pp_nullenc_opts) 0x38345289 (demo_client closed_net) =
     Inr (SCARD_S_SUCCESS, c')"
  by (rule closed_connection_is_success [where k = 0 and cd = demo_card and i = 0 and p = demo_context
        and q = 1 and sk = 7 and es = "[]"])
    (simp_all add: pp_findCard_def demo_client_def get_card_def get_context_def tls_ops_def
      demo_card_def demo_context_def closed_net_def PP_CARD_MAGIC_def)

section \<open>Reader states\<close>

lemma pack_readerstates_overflow:
  "PP_MAX_MESSAGE_LEN < base + sizeof s_readerstate * n \<Longrightarrow> 0 < n \<Longrightarrow>
    pack_readerstates n base rs m = Inl OutOfBounds"
proof (induction n arbitrary: base rs m)
  case (Suc n)
  show ?case
  proof (cases rs)
    case (Cons r rs')
    show ?thesis
    proof (cases "PP_MAX_MESSAGE_LEN < base + sizeof s_readerstate")
      case True
      with Cons show ?thesis by (simp add: pack_readerstate_def)
    next
      case False
      then have "0 < n" using Suc.prems by (cases n) auto
      with Suc False Cons show ?thesis by (simp add: pack_readerstate_def Let_def)
    qed
  qed simp
qed simp

text \<open>SCardGetStatusChange checks that one reader state fits and then copies all of them: with 385
  or more the client writes past its message buffer.\<close>

theorem SCardGetStatusChange_overflow:
  assumes "context_session pl hContext i p c" "385 \<le> unat cReaders"
  shows "SCardGetStatusChange pl hContext dwTimeout (Some rs) cReaders c = Inl OutOfBounds"
proof -
  have "pack_readerstates (unat cReaders) 21 rs m = Inl OutOfBounds" for m
    by (rule pack_readerstates_overflow) (use assms(2) in simp_all)
  moreover have "cReaders \<noteq> 0" using assms(2) by auto
  ultimately show ?thesis
    using context_found [OF assms(1)] by (simp add: SCardGetStatusChange_def msg_simps)
qed

lemma SCardGetStatusChange_overflow_witness:
  "SCardGetStatusChange demo_pl 0x88345289 0 (Some (replicate 400 \<lparr>szReader = None,
     dwCurrentState = 0, dwEventState = 0, cbAtr = 0, rgbAtr = replicate 33 0\<rparr>)) 400
     (demo_client demo_link) = Inl OutOfBounds"
  by (rule SCardGetStatusChange_overflow [OF demo_context_session]) simp

section \<open>Cancelling\<close>

text \<open>C30 SCardCancel, which \<open>src/jni/winscard.h\<close> declares on a context, takes its argument for the handle
  of a card: a context handle of the library, whatever slot it names, is refused as an invalid value and
  nothing reaches the server, so that a pending SCardGetStatusChange is never cancelled.\<close>

theorem SCardCancel_refuses_contexts:
  assumes "cards_ok pl c" "i < PP_MAX_CONTEXT"
  shows "SCardCancel pl (ucast (of_nat i + PP_CONTEXT_MAGIC :: u32)) c = Inr (SCARD_E_INVALID_VALUE, c)"
proof -
  let ?h = "of_nat i + PP_CONTEXT_MAGIC :: u32"
  have "unat (?h - PP_CARD_MAGIC) = 0x50000000 + i"
  proof -
    have "?h - PP_CARD_MAGIC = of_nat (0x50000000 + i)"
      by (simp add: PP_CONTEXT_MAGIC_def PP_CARD_MAGIC_def)
    with assms(2) show ?thesis by (simp only: unat_of_nat) simp
  qed
  then have "pp_findCard pl ?h c = Inr None"
    using assms(1) by (auto simp: pp_findCard_def cards_ok_def Let_def split: option.splits)
  then show ?thesis by (simp add: SCardCancel_def)
qed

lemma SCardCancel_refuses_contexts_witness:
  "context_used (demo_client demo_link) 0 \<and>
   SCardCancel demo_pl 0x88345289 (demo_client demo_link) = Inr (SCARD_E_INVALID_VALUE, demo_client demo_link)"
  using SCardCancel_refuses_contexts [OF demo_cards_ok, of 0]
  by (simp add: PP_CONTEXT_MAGIC_def context_used_def demo_client_def demo_context_def)

end
