(* ===== verification/Calls.thy ===== *)
theory Calls
  imports Transparent
begin

text \<open>
  The interface of the client library as one type: a call with its arguments, one constructor for
  each PC/SC function \<open>src/src/client/client.c\<close> exports (\<open>SCardFreeMemory\<close> aside, which touches no
  state of the library), and what it returns.  The calls of an application are then the steps of a
  transition system, and the tables of contexts and cards an invariant of all its runs.
\<close>

section \<open>Calls and answers\<close>

text \<open>
  The arguments are those of the prototypes in \<open>src/jni/winscard.h\<close> (\<open>SCardSetTimeout\<close> and
  \<open>SCardCancelTransaction\<close> are exported without one), less the reserved pointers, which the code does
  not look at; where a pointer is for output alone it is taken not to be NULL and is left out.
\<close>

datatype call =
    EstablishContext u64
  | ReleaseContext u64
  | IsValidContext u64
  | SetTimeout u64 u64
  | Connect u64 "u8 list option" u64 u64
  | Reconnect u64 u64 u64 u64
  | Disconnect u64 u64
  | BeginTransaction u64
  | EndTransaction u64 u64
  | CancelTransaction u64
  | Cancel u64
  | Status u64 status_args
  | GetStatusChange u64 u64 "SCARD_READERSTATE list option" u64
  | Control u64 u64 "u8 list option" u64 "u8 list option" u64 "u64 option"
  | Transmit u64 "SCARD_IO_REQUEST option" "u8 list option" u64 transmit_args
  | GetAttrib u64 u64 "u8 list option" "u64 option"
  | SetAttrib u64 u64 "u8 list option" u64
  | ListReaders u64 "u8 list option" "u64 option"
  | ListReaderGroups u64 "u8 list option" "u64 option"

text \<open>What a call stores through its pointers, beside the code it returns.\<close>

datatype stored =
    Nothing
  | Number "u64 option"
  | Card "(u64 \<times> u64) option"
  | Status_of status_args
  | States "SCARD_READERSTATE list option"
  | Data "u8 list option" "u64 option"
  | Response transmit_args

type_synonym answer = "u64 \<times> stored"

definition coded :: "(u64 \<times> 'w client) outcome \<Rightarrow> (answer \<times> 'w client) outcome" where
  "coded x = bindo x (\<lambda>(rv, c). Inr ((rv, Nothing), c))"

definition storing :: "('a \<Rightarrow> stored) \<Rightarrow> (u64 \<times> 'a \<times> 'w client) outcome \<Rightarrow> (answer \<times> 'w client) outcome" where
  "storing f x = bindo x (\<lambda>(rv, out, c). Inr ((rv, f out), c))"

fun perform :: "'w platform \<Rightarrow> call \<Rightarrow> 'w client \<Rightarrow> (answer \<times> 'w client) outcome" where
  "perform pl (EstablishContext scope) c = storing Number (SCardEstablishContext pl scope c)"
| "perform pl (ReleaseContext h) c = coded (SCardReleaseContext pl h c)"
| "perform pl (IsValidContext h) c = coded (SCardIsValidContext pl h c)"
| "perform pl (SetTimeout h t) c = coded (SCardSetTimeout pl h t c)"
| "perform pl (Connect h reader share prots) c = storing Card (SCardConnect pl h reader share prots c)"
| "perform pl (Reconnect h share prots ini) c = storing Number (SCardReconnect pl h share prots ini c)"
| "perform pl (Disconnect h disp) c = coded (SCardDisconnect pl h disp c)"
| "perform pl (BeginTransaction h) c = coded (SCardBeginTransaction pl h c)"
| "perform pl (EndTransaction h disp) c = coded (SCardEndTransaction pl h disp c)"
| "perform pl (CancelTransaction h) c = coded (SCardCancelTransaction pl h c)"
| "perform pl (Cancel h) c = coded (SCardCancel pl h c)"
| "perform pl (Status h a) c = storing Status_of (SCardStatus pl h a c)"
| "perform pl (GetStatusChange h t rs n) c = storing States (SCardGetStatusChange pl h t rs n c)"
| "perform pl (Control h code input il out ol n) c =
     storing (\<lambda>(b, n). Data b n) (SCardControl pl h code input il out ol n c)"
| "perform pl (Transmit h pci input il a) c = storing Response (SCardTransmit pl h pci input il a c)"
| "perform pl (GetAttrib h i out n) c = storing (\<lambda>(b, n). Data b n) (SCardGetAttrib pl h i out n c)"
| "perform pl (SetAttrib h i input n) c = coded (SCardSetAttrib pl h i input n c)"
| "perform pl (ListReaders h out n) c = storing (\<lambda>(b, n). Data b n) (SCardListReaders pl h out n c)"
| "perform pl (ListReaderGroups h out n) c =
     storing (\<lambda>(b, n). Data b n) (SCardListReaderGroups pl h out n c)"

text \<open>The calls one after the other, with what each answers.\<close>

primrec perform_all :: "'w platform \<Rightarrow> call list \<Rightarrow> 'w client \<Rightarrow> (answer list \<times> 'w client) outcome" where
  "perform_all pl [] c = Inr ([], c)"
| "perform_all pl (x # xs) c =
     bindo (perform pl x c) (\<lambda>(a, c). bindo (perform_all pl xs c) (\<lambda>(as, c). Inr (a # as, c)))"

inductive client_step :: "'w platform \<Rightarrow> 'w client \<Rightarrow> 'w client \<Rightarrow> bool" for pl where
  returns: "perform pl x c = Inr (a, c') \<Longrightarrow> client_step pl c c'"

inductive_simps client_step_iff: "client_step pl c c'"

inductive client_run :: "'w platform \<Rightarrow> 'w client \<Rightarrow> 'w client \<Rightarrow> bool" for pl where
  stop: "client_run pl c c"
| go: "client_step pl c c' \<Longrightarrow> client_run pl c' c'' \<Longrightarrow> client_run pl c c''"

section \<open>What an exchange leaves of the tables\<close>

text \<open>Two clients whose tables differ in nothing but what a connection writes: sessions and the world.\<close>

definition same_tables :: "'w client \<Rightarrow> 'w client \<Rightarrow> bool" where
  "same_tables c c' \<longleftrightarrow>
     pp_card_array c' = pp_card_array c \<and> pp_context_locked c' = pp_context_locked c \<and>
     pp_card_locked c' = pp_card_locked c \<and> g_tlsopts c' = g_tlsopts c \<and>
     map_option (map ctx_id) (pp_context_array c') = map_option (map ctx_id) (pp_context_array c)"

lemma same_tables_refl [simp, intro!]: "same_tables c c"
  by (simp add: same_tables_def)

lemma same_tables_trans [trans]: "same_tables c c1 \<Longrightarrow> same_tables c1 c2 \<Longrightarrow> same_tables c c2"
  by (simp add: same_tables_def)

lemma same_tables_world [simp]:
  "same_tables c (c'\<lparr>world := w\<rparr>) = same_tables c c'" "same_tables (c\<lparr>world := w\<rparr>) c' = same_tables c c'"
  "same_tables c (c'\<lparr>g_opts := k\<rparr>) = same_tables c c'" "same_tables (c\<lparr>g_opts := k\<rparr>) c' = same_tables c c'"
  by (simp_all add: same_tables_def)

lemma same_tables_slot:
  assumes "pp_context_array c' = Some arr" "ctx_id q = ctx_id (arr ! i)"
  shows "same_tables c (set_context i q c') = same_tables c c'"
proof -
  have "map ctx_id (arr[i := q]) = map ctx_id arr"
    using assms(2) by (cases "i < length arr") (simp_all add: map_update list_update_same_conv list_update_beyond)
  with assms(1) show ?thesis by (simp add: same_tables_def set_context_def)
qed

lemma connect_context_same:
  assumes "connect_context pl i c = Inr (rv, c')"
  shows "same_tables c c'"
  using assms
  by (auto simp: connect_context_def outcome_simps Let_def split_beta get_context_Inr same_tables_slot
      split: option.splits if_splits)

lemma exchange_on_same: "exchange_on pl session m c = Inr (rv, m', c') \<Longrightarrow> same_tables c c'"
  by (auto simp: exchange_on_def outcome_simps split: if_splits)

lemma exchange_same: "pp_exchangeMsg pl i m c = Inr (rv, m', c') \<Longrightarrow> same_tables c c'"
  by (auto simp: pp_exchangeMsg_def outcome_simps dest!: connect_context_same exchange_on_same
      intro: same_tables_trans split: if_splits)

lemma card_exchange_same: "card_exchange pl cd m c = Inr (rv, m', c') \<Longrightarrow> same_tables c c'"
  by (auto simp: card_exchange_def split: option.splits dest: exchange_same)


text \<open>Every call but those that open or close a context or a card leaves the tables alone.\<close>

fun changes_tables :: "call \<Rightarrow> bool" where
  "changes_tables (EstablishContext _) = True"
| "changes_tables (ReleaseContext _) = True"
| "changes_tables (Connect _ _ _ _) = True"
| "changes_tables _ = False"

text \<open>
  What holds of the result of a function if it returns, by rules for the constructs of the model:
  the first rule that applies is the one to take.
\<close>

definition returns :: "'a outcome \<Rightarrow> ('a \<Rightarrow> bool) \<Rightarrow> bool" where
  "returns x P \<longleftrightarrow> (\<forall>y. x = Inr y \<longrightarrow> P y)"

lemma returns_Inr: "P y \<Longrightarrow> returns (Inr y) P"
  by (simp add: returns_def)

lemma returns_Inl: "returns (Inl e) P"
  by (simp add: returns_def)

lemma returns_if: "returns x P \<Longrightarrow> returns y P \<Longrightarrow> returns (if b then x else y) P"
  by simp

lemma returns_option: "returns x P \<Longrightarrow> (\<And>v. returns (f v) P) \<Longrightarrow> returns (case a of None \<Rightarrow> x | Some v \<Rightarrow> f v) P"
  by (cases a) simp_all

lemma returns_pair: "(\<And>v w. returns (f v w) P) \<Longrightarrow> returns (case a of (v, w) \<Rightarrow> f v w) P"
  by (cases a) simp

lemma returns_let: "returns (f v) P \<Longrightarrow> returns (Let v f) P"
  by simp

lemma returns_bind: "(\<And>y. returns (f y) P) \<Longrightarrow> returns (bindo x f) P"
  by (cases x) (simp_all add: returns_def)

lemma returns_exchange:
  assumes "\<And>rv m' c'. same_tables c c' \<Longrightarrow> returns (f rv m' c') P"
  shows "returns (bindo (pp_exchangeMsg pl i m c) (\<lambda>(rv, m, c). f rv m c)) P"
    "returns (bindo (card_exchange pl cd m c) (\<lambda>(rv, m, c). f rv m c)) P"
  using assms exchange_same [of pl i m c] card_exchange_same [of pl cd m c]
  by (force simp: returns_def outcome_simps)+

lemmas returns_rules =
  returns_exchange returns_let returns_if returns_option returns_pair returns_bind returns_Inl returns_Inr

text \<open>The tables of the client a call leaves are those it found.\<close>

definition tables_kept :: "'w client \<Rightarrow> (answer \<times> 'w client) outcome \<Rightarrow> bool" where
  "tables_kept c x \<longleftrightarrow> returns x (\<lambda>(a, c'). same_tables c c')"

lemma tables_keptI:
  "returns x (\<lambda>(rv, c'). same_tables c c') \<Longrightarrow> tables_kept c (coded x)"
  "returns y (\<lambda>(rv, out, c'). same_tables c c') \<Longrightarrow> tables_kept c (storing f y)"
  by (force simp: tables_kept_def returns_def coded_def storing_def outcome_simps)+

lemma SCardIsValidContext_same: "returns (SCardIsValidContext pl h c) (\<lambda>(rv, c'). same_tables c c')"
  unfolding SCardIsValidContext_def by (intro returns_rules) simp_all

lemma SCardSetTimeout_same: "returns (SCardSetTimeout pl h t c) (\<lambda>(rv, c'). same_tables c c')"
  unfolding SCardSetTimeout_def by (intro returns_rules) simp_all

lemma SCardGetStatusChange_same: "returns (SCardGetStatusChange pl h t rs n c) (\<lambda>(rv, out, c'). same_tables c c')"
  unfolding SCardGetStatusChange_def by (intro returns_rules) simp_all

lemma SCardListReaders_same: "returns (SCardListReaders pl h b l c) (\<lambda>(rv, out, c'). same_tables c c')"
  unfolding SCardListReaders_def by (intro returns_rules) simp_all

lemma SCardListReaderGroups_same: "returns (SCardListReaderGroups pl h b l c) (\<lambda>(rv, out, c'). same_tables c c')"
  unfolding SCardListReaderGroups_def by (intro returns_rules) simp_all

lemma SCardReconnect_same: "returns (SCardReconnect pl h sh pr ini c) (\<lambda>(rv, out, c'). same_tables c c')"
  unfolding SCardReconnect_def by (intro returns_rules) simp_all

lemma SCardDisconnect_same: "returns (SCardDisconnect pl h d c) (\<lambda>(rv, c'). same_tables c c')"
  unfolding SCardDisconnect_def by (intro returns_rules) simp_all

lemma SCardBeginTransaction_same: "returns (SCardBeginTransaction pl h c) (\<lambda>(rv, c'). same_tables c c')"
  unfolding SCardBeginTransaction_def by (intro returns_rules) simp_all

lemma SCardEndTransaction_same: "returns (SCardEndTransaction pl h d c) (\<lambda>(rv, c'). same_tables c c')"
  unfolding SCardEndTransaction_def by (intro returns_rules) simp_all

lemma SCardCancelTransaction_same: "returns (SCardCancelTransaction pl h c) (\<lambda>(rv, c'). same_tables c c')"
  unfolding SCardCancelTransaction_def by (intro returns_rules) simp_all

lemma SCardCancel_same: "returns (SCardCancel pl h c) (\<lambda>(rv, c'). same_tables c c')"
  unfolding SCardCancel_def by (intro returns_rules) simp_all

lemma SCardSetAttrib_same: "returns (SCardSetAttrib pl h i b n c) (\<lambda>(rv, c'). same_tables c c')"
  unfolding SCardSetAttrib_def by (intro returns_rules) simp_all

lemma SCardStatus_same: "returns (SCardStatus pl h a c) (\<lambda>(rv, out, c'). same_tables c c')"
  unfolding SCardStatus_def by (intro returns_rules) simp_all

lemma SCardControl_same: "returns (SCardControl pl h code b l d n k c) (\<lambda>(rv, out, c'). same_tables c c')"
  unfolding SCardControl_def by (intro returns_rules) simp_all

lemma SCardTransmit_same: "returns (SCardTransmit pl h pci b l t c) (\<lambda>(rv, out, c'). same_tables c c')"
  unfolding SCardTransmit_def by (intro returns_rules) simp_all

lemma SCardGetAttrib_same: "returns (SCardGetAttrib pl h i b k c) (\<lambda>(rv, out, c'). same_tables c c')"
  unfolding SCardGetAttrib_def by (intro returns_rules) simp_all

lemmas calls_same = SCardIsValidContext_same SCardSetTimeout_same SCardGetStatusChange_same SCardListReaders_same SCardListReaderGroups_same SCardReconnect_same SCardDisconnect_same SCardBeginTransaction_same SCardEndTransaction_same SCardCancelTransaction_same SCardCancel_same SCardSetAttrib_same SCardStatus_same SCardControl_same SCardTransmit_same SCardGetAttrib_same

lemma perform_same:
  assumes "perform pl x c = Inr (a, c')" "\<not> changes_tables x"
  shows "same_tables c c'"
proof -
  have "tables_kept c (perform pl x c)"
    using assms(2) by (cases x) (simp_all add: tables_keptI calls_same)
  with assms(1) show ?thesis by (simp add: tables_kept_def returns_def)
qed

section \<open>The invariant\<close>

text \<open>
  Both tables well formed, both mutexes free, and the context a card points to a slot of the table
  of contexts.
\<close>

definition client_ok :: "'w platform \<Rightarrow> 'w client \<Rightarrow> bool" where
  "client_ok pl c \<longleftrightarrow>
     contexts_ok pl c \<and> cards_ok pl c \<and>
     (\<forall>k. card_used c k \<longrightarrow>
        (\<exists>i < PP_MAX_CONTEXT. clientContext (card_slots c ! k) = Some i) \<and> pp_context_array c \<noteq> None)"

lemma same_tables_ids:
  assumes "same_tables c c'"
  shows "pp_context_array c' = None \<longleftrightarrow> pp_context_array c = None"
    "pp_context_array c = Some arr \<Longrightarrow> \<exists>arr'. pp_context_array c' = Some arr' \<and> map ctx_id arr' = map ctx_id arr"
  using assms by (cases "pp_context_array c'"; cases "pp_context_array c"; simp add: same_tables_def)+

lemma same_ids_nth: "map ctx_id xs = map ctx_id ys \<Longrightarrow> length xs = length ys \<and> (\<forall>i < length ys. ctx_id (xs ! i) = ctx_id (ys ! i))"
  by (metis length_map nth_map)

lemma same_tables_contexts_ok:
  assumes "same_tables c c'" "contexts_ok pl c"
  shows "contexts_ok pl c'" "context_used c' = context_used c"
proof -
  have b: "pp_context_locked c' = pp_context_locked c" "g_tlsopts c' = g_tlsopts c"
    using assms(1) by (simp_all add: same_tables_def)
  have "contexts_ok pl c' \<and> context_used c' = context_used c"
  proof (cases "pp_context_array c")
    case None
    with assms b same_tables_ids(1) [OF assms(1)] show ?thesis
      by (auto simp: contexts_ok_def tls_available_def context_used_def fun_eq_iff)
  next
    case (Some arr)
    from same_tables_ids(2) [OF assms(1) this] obtain arr' where
      "pp_context_array c' = Some arr'" "map ctx_id arr' = map ctx_id arr" by blast
    with assms(2) Some b same_ids_nth [of arr' arr] show ?thesis
      by (auto simp: contexts_ok_def tls_available_def context_used_def fun_eq_iff)
  qed
  then show "contexts_ok pl c'" "context_used c' = context_used c" by simp_all
qed

lemma same_tables_cards_ok:
  assumes "same_tables c c'"
  shows "cards_ok pl c' = cards_ok pl c" "card_used c' = card_used c" "card_slots c' = card_slots c"
  using assms by (simp_all add: same_tables_def cards_ok_def card_used_def card_slots_def fun_eq_iff)

lemma same_tables_ok: "same_tables c c' \<Longrightarrow> client_ok pl c \<Longrightarrow> client_ok pl c'"
  using same_tables_contexts_ok [of c c' pl] same_tables_cards_ok [of c c'] same_tables_ids(1) [of c c']
  by (simp add: client_ok_def)


text \<open>The invariant slot by slot, for the operations that write one slot.\<close>

definition card_slot_ok :: "'w client \<Rightarrow> nat \<Rightarrow> PP_CARD_CONTEXT \<Rightarrow> bool" where
  "card_slot_ok c k q \<longleftrightarrow>
     card_id q = 0 \<or> card_id q = of_nat k + PP_CARD_MAGIC \<and> pp_context_array c \<noteq> None \<and>
       (\<exists>i < PP_MAX_CONTEXT. clientContext q = Some i)"

lemma card_slot_ok: "client_ok pl c \<Longrightarrow> k < 64 \<Longrightarrow> card_slot_ok c k (card_slots c ! k)"
  using card_slots_ok [of pl c] by (auto simp: client_ok_def card_slot_ok_def card_used_slots)

lemma client_ok_cards:
  assumes "client_ok pl c" "length arr = 64" "\<And>k. k < 64 \<Longrightarrow> card_slot_ok c k (arr ! k)"
  shows "client_ok pl (c\<lparr>pp_card_array := Some arr\<rparr>)"
  using assms
  by (auto simp: client_ok_def card_slot_ok_def cards_ok_def contexts_ok_def tls_available_def card_used_def
      card_slots_def)

lemma client_ok_card:
  assumes "client_ok pl c" "card_slot_ok c k q"
  shows "client_ok pl (c\<lparr>pp_card_array := Some ((card_slots c)[k := q])\<rparr>)"
proof (rule client_ok_cards [OF assms(1)])
  have len: "length (card_slots c) = 64"
    using assms(1) card_slots_ok [of pl c] by (simp add: client_ok_def)
  then show "length ((card_slots c)[k := q]) = 64" by simp
  show "card_slot_ok c j ((card_slots c)[k := q] ! j)" if "j < 64" for j
    using that assms card_slot_ok len by (cases "j = k") simp_all
qed

lemma set_card_slots:
  "pp_card_array c \<noteq> None \<Longrightarrow> set_card k q c = c\<lparr>pp_card_array := Some ((card_slots c)[k := q])\<rparr>"
  by (auto simp: set_card_def card_slots_def)

lemma set_card_ok:
  assumes "client_ok pl c" "get_card k c = Inr cd" "card_id q = card_id cd" "clientContext q = clientContext cd"
  shows "client_ok pl (set_card k q c)"
proof -
  obtain arr where arr: "pp_card_array c = Some arr" "cd = card_slots c ! k" "k < length arr"
    using assms(2) by (auto simp: get_card_Inr card_slots_def)
  then have "k < 64" using assms(1) cards_ok_array [of pl c arr] by (simp add: client_ok_def)
  with card_slot_ok [OF assms(1)] assms(3,4) arr(2) have "card_slot_ok c k q" by (simp add: card_slot_ok_def)
  with client_ok_card [OF assms(1)] arr(1) show ?thesis by (simp add: set_card_slots)
qed

lemma releaseCard_ok:
  assumes "client_ok pl c" "pp_releaseCard pl h c = Inr c'"
  shows "client_ok pl c'"
proof -
  let ?i = "unat (h - PP_CARD_MAGIC)"
  let ?q = "(card_slots c ! ?i)\<lparr>card_id := 0\<rparr>"
  have "c' = c \<or> pp_card_array c \<noteq> None \<and> c' = set_card ?i ?q c"
    using assms(2) by (auto simp: pp_releaseCard_def card_slots_def Let_def split: if_splits option.splits)
  moreover have "card_slot_ok c ?i ?q" by (simp add: card_slot_ok_def)
  ultimately show ?thesis
    using client_ok_card [OF assms(1)] assms(1) by (auto simp: set_card_slots)
qed

lemma createCard_ok:
  assumes "client_ok pl c" "i < 64" "pp_context_array c \<noteq> None" "pp_createCard pl i c = Inr (r, c')"
  shows "client_ok pl c'"
proof -
  have ok: "cards_ok pl c" using assms(1) by (simp add: client_ok_def)
  let ?k = "first_free_card 0 (card_slots c)"
  let ?p = "(card_slots c ! ?k)\<lparr>card_id := of_nat ?k + PP_CARD_MAGIC, clientContext := Some i\<rparr>"
  have "c' = c\<lparr>pp_card_array := Some (card_slots c)\<rparr> \<or>
      c' = c\<lparr>pp_card_array := Some ((card_slots c)[?k := ?p])\<rparr>"
    using createCard_Inr [OF ok, of i r c'] assms(4) by (auto simp: Let_def split: if_splits)
  moreover have "card_slot_ok c ?k ?p" using assms(2,3) by (simp add: card_slot_ok_def)
  ultimately show ?thesis
    using client_ok_card [OF assms(1)] client_ok_cards [OF assms(1)] card_slot_ok [OF assms(1)]
      card_slots_ok [OF ok] by auto
qed

text \<open>An operation on the contexts that keeps their well-formedness and leaves the cards alone.\<close>

lemma client_ok_contexts:
  assumes "client_ok pl c" "contexts_ok pl c'" "pp_card_array c' = pp_card_array c"
    "pp_card_locked c' = pp_card_locked c" "pp_context_array c \<noteq> None \<Longrightarrow> pp_context_array c' \<noteq> None"
  shows "client_ok pl c'"
proof -
  have "cards_ok pl c'" "card_used c' = card_used c" "card_slots c' = card_slots c"
    using assms(1,3,4) by (simp_all add: client_ok_def cards_ok_def fun_eq_iff card_used_def card_slots_def)
  with assms(1,2,5) show ?thesis by (auto simp: client_ok_def)
qed

lemma free_context_ok:
  assumes "contexts_ok pl c" "ctx_id q = 0"
  shows "contexts_ok pl (set_context i q c)"
proof -
  have "ctx_id (xs[i := q] ! j) = (if i = j then 0 else ctx_id (xs ! j))"
    if "length xs = 64" "j < 64" for xs j
    using that assms(2) by (cases "i < 64") (auto simp: nth_list_update)
  with assms(1) show ?thesis
    by (cases "pp_context_array c") (auto simp: contexts_ok_def tls_available_def set_context_def)
qed

lemma releaseContext_ok:
  assumes "client_ok pl c" "pp_releaseContext pl h c = Inr c'"
  shows "client_ok pl c'"
proof (rule client_ok_contexts [OF assms(1)])
  let ?i = "unat (h - PP_CONTEXT_MAGIC)"
  let ?q = "(context_slots c ! ?i)\<lparr>ctx_id := 0\<rparr>"
  have c': "c' = c \<or> pp_context_array c \<noteq> None \<and> c' = set_context ?i ?q c"
    using assms(2)
    by (auto simp: pp_releaseContext_def context_slots_def Let_def split: if_splits option.splits)
  with assms(1) free_context_ok [of pl c ?q] show "contexts_ok pl c'" by (auto simp: client_ok_def)
qed (use assms(2) in \<open>auto simp: pp_releaseContext_def set_context_def Let_def split: if_splits option.splits\<close>)

lemma returns_seq: "returns x Q \<Longrightarrow> (\<And>y. Q y \<Longrightarrow> returns (f y) P) \<Longrightarrow> returns (bindo x f) P"
  by (cases x) (simp_all add: returns_def)

definition cards_untouched :: "'w client \<Rightarrow> 'w client \<Rightarrow> bool" where
  "cards_untouched c c' \<longleftrightarrow> pp_card_array c' = pp_card_array c \<and> pp_card_locked c' = pp_card_locked c"

lemma cards_untouched_simps [simp]:
  "cards_untouched c c"
  "cards_untouched c (c'\<lparr>pp_context_locked := b\<rparr>) = cards_untouched c c'"
  "cards_untouched c (c'\<lparr>world := w\<rparr>) = cards_untouched c c'"
  "cards_untouched c (c'\<lparr>g_tlsopts := k\<rparr>) = cards_untouched c c'"
  "cards_untouched c (c'\<lparr>pp_context_array := arr\<rparr>) = cards_untouched c c'"
  "cards_untouched c (set_context i p c') = cards_untouched c c'"
  by (simp_all add: cards_untouched_def set_context_def)

lemma context_setup_cards:
  "cards_untouched c0 c \<Longrightarrow> returns (create_context_setup pl c) (\<lambda>(r, c'). cards_untouched c0 c')"
  unfolding create_context_setup_def by (intro returns_rules) simp_all

lemma context_slot_cards:
  "cards_untouched c0 c \<Longrightarrow> returns (create_context_slot pl k i p c) (\<lambda>(r, c'). cards_untouched c0 c')"
  unfolding create_context_slot_def by (intro returns_rules) simp_all

lemma createContext_cards: "returns (pp_createContext pl c) (\<lambda>(r, c'). cards_untouched c c')"
  unfolding pp_createContext_def
proof (intro returns_if returns_seq [OF context_setup_cards [of c]], goal_cases)
  case (4 y)
  then show ?case
    by (cases y) (auto intro!: returns_Inr context_slot_cards simp: Let_def split: option.splits)
qed (simp_all add: returns_Inl returns_Inr)

lemma createContext_ok:
  assumes "client_ok pl c" "pp_createContext pl c = Inr (r, c')"
  shows "client_ok pl c'"
proof (rule client_ok_contexts [OF assms(1)])
  have ok: "contexts_ok pl c" using assms(1) by (simp add: client_ok_def)
  show "contexts_ok pl c'" using createContext_slots [OF ok assms(2)] by simp
  show "pp_context_array c' \<noteq> None" using createContext_Inr [OF ok assms(2)] by auto
  show "pp_card_array c' = pp_card_array c" "pp_card_locked c' = pp_card_locked c"
    using createContext_cards [of pl c] assms(2) by (auto simp: returns_def cards_untouched_def)
qed


section \<open>The calls that open and close\<close>

lemma returns_weaken: "returns x Q \<Longrightarrow> (\<And>y. Q y \<Longrightarrow> P y) \<Longrightarrow> returns x P"
  by (auto simp: returns_def)

text \<open>Sequencing with the client of the invariant in hand.\<close>

lemma returns_ok_exchange:
  assumes "client_ok pl c" "\<And>rv m' c'. client_ok pl c' \<Longrightarrow> same_tables c c' \<Longrightarrow> returns (f rv m' c') P"
  shows "returns (bindo (pp_exchangeMsg pl i m c) (\<lambda>(rv, m, c). f rv m c)) P"
  by (rule returns_exchange) (use assms same_tables_ok in blast)

lemma returns_releaseCard:
  assumes "client_ok pl c" "\<And>c'. client_ok pl c' \<Longrightarrow> returns (f c') P"
  shows "returns (bindo (pp_releaseCard pl h c) f) P"
  using assms releaseCard_ok [of pl c h] by (force simp: returns_def outcome_simps)

lemma returns_releaseContext:
  assumes "client_ok pl c" "\<And>c'. client_ok pl c' \<Longrightarrow> returns (f c') P"
  shows "returns (bindo (pp_releaseContext pl h c) f) P"
  using assms releaseContext_ok [of pl c h] by (force simp: returns_def outcome_simps)

lemma returns_get_card:
  assumes "\<And>cd. get_card k c = Inr cd \<Longrightarrow> returns (f cd) P"
  shows "returns (bindo (get_card k c) f) P"
  using assms by (force simp: returns_def outcome_simps)

lemma returns_get_context:
  assumes "\<And>p. get_context i c = Inr p \<Longrightarrow> returns (f p) P"
  shows "returns (bindo (get_context i c) f) P"
  using assms by (force simp: returns_def outcome_simps)

lemma set_context_ok:
  assumes "client_ok pl c" "get_context i c = Inr p" "ctx_id q = ctx_id p"
  shows "client_ok pl (set_context i q c)"
proof -
  have "same_tables c (set_context i q c)"
    using assms(2,3) by (auto simp: get_context_Inr same_tables_slot)
  with assms(1) show ?thesis by (rule same_tables_ok [rotated])
qed

lemma client_ok_world [simp]: "client_ok pl (c\<lparr>world := w\<rparr>) = client_ok pl c"
  by (simp add: client_ok_def contexts_ok_def cards_ok_def tls_available_def card_used_def card_slots_def)

lemma returns_createContext:
  assumes "client_ok pl c" "\<And>r c'. client_ok pl c' \<Longrightarrow> returns (f r c') P"
  shows "returns (bindo (pp_createContext pl c) (\<lambda>(r, c). f r c)) P"
  using assms createContext_ok [of pl c] by (force simp: returns_def outcome_simps)

lemma returns_createCard:
  assumes "client_ok pl c" "i < 64" "pp_context_array c \<noteq> None" "\<And>r c'. client_ok pl c' \<Longrightarrow> returns (f r c') P"
  shows "returns (bindo (pp_createCard pl i c) (\<lambda>(r, c). f r c)) P"
  using assms createCard_ok [of pl c i] by (force simp: returns_def outcome_simps)

lemma returns_findContext:
  assumes "client_ok pl c" "returns x P"
    "\<And>i. i < 64 \<Longrightarrow> pp_context_array c \<noteq> None \<Longrightarrow> returns (f i) P"
  shows "returns (bindo (pp_findContext pl h c) (case_option x f)) P"
proof (cases "pp_findContext pl h c")
  case (Inr r)
  have "contexts_ok pl c" using assms(1) by (simp add: client_ok_def)
  from find_context_Inr [OF this, of h r] Inr assms(2,3) show ?thesis by (cases r) auto
qed (simp add: returns_Inl)

lemmas returns_ok_rules =
  returns_findContext returns_createContext returns_createCard returns_ok_exchange returns_get_context
  returns_get_card returns_releaseContext returns_releaseCard returns_rules

lemma SCardEstablishContext_ok:
  "client_ok pl c \<Longrightarrow> returns (SCardEstablishContext pl scope c) (\<lambda>(rv, h, c'). client_ok pl c')"
  unfolding SCardEstablishContext_def
  by (intro returns_ok_rules) (auto elim: set_context_ok)

lemma SCardConnect_ok:
  "client_ok pl c \<Longrightarrow> returns (SCardConnect pl h reader share prots c) (\<lambda>(rv, out, c'). client_ok pl c')"
  unfolding SCardConnect_def
  by (intro returns_ok_rules) (auto elim: set_card_ok)

lemma SCardReleaseContext_ok:
  "client_ok pl c \<Longrightarrow> returns (SCardReleaseContext pl h c) (\<lambda>(rv, c'). client_ok pl c')"
  unfolding SCardReleaseContext_def
  by (intro returns_ok_rules) (auto elim: set_context_ok [OF iffD2 [OF client_ok_world]])


section \<open>All runs of a client\<close>

lemma perform_ok:
  assumes "client_ok pl c" "perform pl x c = Inr (a, c')"
  shows "client_ok pl c'"
proof (cases "changes_tables x")
  case True
  then show ?thesis
    using assms SCardEstablishContext_ok [OF assms(1)] SCardConnect_ok [OF assms(1)]
      SCardReleaseContext_ok [OF assms(1)]
    by (cases x) (auto simp: coded_def storing_def outcome_simps returns_def)
next
  case False
  with assms perform_same same_tables_ok show ?thesis by blast
qed

lemma run_ok: "client_run pl c c' \<Longrightarrow> client_ok pl c \<Longrightarrow> client_ok pl c'"
  by (induction rule: client_run.induct) (auto simp: client_step_iff intro: perform_ok)

text \<open>A process in its first call: no tables yet, and both allocations answered.\<close>

lemma fresh_ok:
  "tls_available pl (fresh_client w) \<Longrightarrow> mutex_lock_rv pl = 0 \<Longrightarrow> malloc_contexts pl \<Longrightarrow> malloc_cards pl \<Longrightarrow>
    client_ok pl (fresh_client w)"
  by (simp add: client_ok_def contexts_ok_def cards_ok_def fresh_client_def card_used_def)

text \<open>C4 All runs of a client whose mutexes can be locked, that has memory for its two tables, and that
  finds a TLS module for its environment (without one \<open>pp_createContext\<close> keeps its mutex, see
  \<open>createContext_keeps_lock\<close>), whatever the application calls, in which order and with which
  arguments, and whatever the operations of the TLS module, the network and the server answer: after
  every call that returns both mutexes are free, the identifier in every slot of the two tables is 0
  or the one of that slot, and every open card belongs to a slot of the table of contexts.  So at
  every moment a handle of the application denotes at most one context and one card.\<close>

theorem client_runs_keep_tables:
  assumes "tls_available pl (fresh_client w)" "mutex_lock_rv pl = 0" "malloc_contexts pl" "malloc_cards pl"
    and "client_run pl (fresh_client w) c"
  shows "contexts_ok pl c \<and> cards_ok pl c \<and>
    (\<forall>k. card_used c k \<longrightarrow> (\<exists>i < PP_MAX_CONTEXT. clientContext (card_slots c ! k) = Some i)) \<and>
    (\<forall>h i. pp_findContext pl h c = Inr (Some i) \<longrightarrow> h = of_nat i + PP_CONTEXT_MAGIC \<and> i < PP_MAX_CONTEXT) \<and>
    (\<forall>h k. pp_findCard pl h c = Inr (Some k) \<longrightarrow> h = of_nat k + PP_CARD_MAGIC \<and> k < PP_MAX_CONTEXT)"
proof -
  have ok: "client_ok pl c" using run_ok [OF assms(5) fresh_ok [OF assms(1-4)]] .
  then have t: "contexts_ok pl c" "cards_ok pl c" by (simp_all add: client_ok_def)
  show ?thesis
    using ok contexts.find_iff [OF t(1)] cards.find_iff [OF t(2)]
      contexts.used_bound [OF t(1)] cards.used_bound [OF t(2)]
    by (auto simp: client_ok_def)
qed


lemma client_runs_keep_tables_witness:
  "\<exists>c. client_run demo_pl (fresh_client demo_link) c \<and> context_used c 0 \<and> cards_ok demo_pl c \<and>
    (\<forall>h i. pp_findContext demo_pl h c = Inr (Some i) \<longrightarrow> h = of_nat i + PP_CONTEXT_MAGIC \<and> i < PP_MAX_CONTEXT)"
proof -
  from establish_success [OF demo_connectable fresh_contexts_ok fresh_link(1) fresh_createContext,
      where lib = demo_lib and u = demo_uninit and dwScope = 2 and res = 0 and hc = "0x1001" and s' = 1]
  obtain c where c: "SCardEstablishContext demo_pl 2 (fresh_client demo_link) = Inr (0, Some (ucast PP_CONTEXT_MAGIC), c)"
    "context_used c 0" by (auto simp: fresh_link)
  then have "perform demo_pl (EstablishContext 2) (fresh_client demo_link) =
      Inr ((0, Number (Some (ucast PP_CONTEXT_MAGIC))), c)" by (simp add: storing_def)
  then have run: "client_run demo_pl (fresh_client demo_link) c"
    by (intro client_run.go [OF client_step.returns client_run.stop])
  have "tls_available demo_pl (fresh_client demo_link)"
    using fresh_contexts_ok [of "link_opts demo_lib demo_network demo_uninit" demo_link]
    by (simp add: contexts_ok_def)
  from client_runs_keep_tables [OF this _ _ _ run] run c(2) show ?thesis by auto
qed

end
