(* ===== verification/ReaderStates.thy ===== *)
theory ReaderStates
  imports TransparentData
begin

text \<open>
  The array of reader states in a status change message: what the client packs into the message
  is, byte for byte, the concatenation of encoded states; the server reads the same states back;
  what the server writes over them the client unpacks.
\<close>

section \<open>The encoding of a reader state\<close>

text \<open>A name that fits and has no zero byte, and an ATR array of full size.\<close>

definition wf_readerstate :: "SCARD_READERSTATE \<Rightarrow> bool" where
  "wf_readerstate r \<longleftrightarrow>
     (case szReader r of None \<Rightarrow> True | Some s \<Rightarrow> length s < MAX_READERNAME \<and> (\<forall>b \<in> set s. b \<noteq> 0)) \<and>
     length (rgbAtr r) = MAX_ATR_SIZE"

definition clipped_atr :: "SCARD_READERSTATE \<Rightarrow> nat" where
  "clipped_atr r = min (unat (ucast (cbAtr r) :: u32)) MAX_ATR_SIZE"

definition reader_name :: "SCARD_READERSTATE \<Rightarrow> u8 list" where
  "reader_name r = (case szReader r of None \<Rightarrow> [] | Some s \<Rightarrow> s)"

definition encode_readerstate :: "SCARD_READERSTATE \<Rightarrow> u8 list" where
  "encode_readerstate r =
     reader_name r @ replicate (128 - length (reader_name r)) 0 @
     le32 (ucast (dwCurrentState r)) @ le32 (ucast (dwEventState r)) @
     take (clipped_atr r) (rgbAtr r) @ replicate (33 - clipped_atr r) 0 @ le32 (of_nat (clipped_atr r))"

text \<open>What arrives of a state: an empty name is no name, the numbers have 32 bits.\<close>

definition arrived_readerstate :: "SCARD_READERSTATE \<Rightarrow> SCARD_READERSTATE" where
  "arrived_readerstate r =
     \<lparr>szReader = (if reader_name r = [] then None else Some (reader_name r)),
      dwCurrentState = ucast (ucast (dwCurrentState r) :: u32),
      dwEventState = ucast (ucast (dwEventState r) :: u32),
      cbAtr = of_nat (clipped_atr r),
      rgbAtr = take (clipped_atr r) (rgbAtr r) @ replicate (33 - clipped_atr r) 0\<rparr>"

lemma clipped_atr_le: "clipped_atr r \<le> 33"
  by (simp add: clipped_atr_def)

lemma clip_atr: "(if 33 < (ucast (cbAtr r) :: u32) then 33 else ucast (cbAtr r)) = (of_nat (clipped_atr r) :: u32)"
  by (auto simp: clipped_atr_def word_less_nat_alt word_unat_eq_iff unat_of_nat min_def)

lemma reader_name_length: "wf_readerstate r \<Longrightarrow> length (reader_name r) \<le> 127"
  by (auto simp: wf_readerstate_def reader_name_def split: option.splits)

lemma length_encode [simp]: "wf_readerstate r \<Longrightarrow> length (encode_readerstate r) = 173"
  using reader_name_length [of r] clipped_atr_le [of r]
  by (simp add: encode_readerstate_def wf_readerstate_def)

text \<open>Reading one part of a byte string laid out at an offset.\<close>

lemma bytes_split:
  "bytes off n b = xs @ ys \<Longrightarrow> bytes off (length xs) b = xs \<and> bytes (off + length xs) (length ys) b = ys"
proof -
  assume a: "bytes off n b = xs @ ys"
  then have "n = length xs + length ys" by (metis length_append length_bytes)
  with a show ?thesis by (simp add: bytes_add)
qed

lemma get32_bytes: "bytes off 4 b = le32 v \<Longrightarrow> get32 off b = v"
proof -
  assume a: "bytes off 4 b = le32 v"
  have "bytes off 4 b = [b off, b (off + 1), b (off + 2), b (off + 3)]"
    by (simp add: bytes_def numeral_eq_Suc upt_rec)
  with a show ?thesis by (simp add: get32_def le32_def of_le32_le32)
qed

lemma encoded_parts:
  assumes "wf_readerstate r" "bytes base 173 b = encode_readerstate r"
  shows "bytes base 128 b = reader_name r @ replicate (128 - length (reader_name r)) 0"
    "get32 (base + 128) b = ucast (dwCurrentState r)" "get32 (base + 132) b = ucast (dwEventState r)"
    "bytes (base + 136) 33 b = take (clipped_atr r) (rgbAtr r) @ replicate (33 - clipped_atr r) 0"
    "get32 (base + 169) b = of_nat (clipped_atr r)"
proof -
  have n: "length (reader_name r) \<le> 127" "length (rgbAtr r) = 33"
    using assms(1) reader_name_length by (simp_all add: wf_readerstate_def)
  let ?n = "reader_name r @ replicate (128 - length (reader_name r)) 0"
  let ?a = "take (clipped_atr r) (rgbAtr r) @ replicate (33 - clipped_atr r) 0"
  have ln: "length ?n = 128" and la: "length ?a = 33"
    using n clipped_atr_le [of r] by simp_all
  have e: "bytes base 173 b = ?n @ (le32 (ucast (dwCurrentState r)) @ (le32 (ucast (dwEventState r)) @
      (?a @ le32 (of_nat (clipped_atr r)))))"
    using assms(2) by (simp add: encode_readerstate_def)
  note p1 = bytes_split [OF e, unfolded ln]
  then show "bytes base 128 b = ?n" by simp
  note p2 = bytes_split [OF p1 [THEN conjunct2]]
  then show "get32 (base + 128) b = ucast (dwCurrentState r)"
    using get32_bytes [of "base + 128" b] by simp
  note p3 = bytes_split [OF p2 [THEN conjunct2]]
  then show "get32 (base + 132) b = ucast (dwEventState r)"
    using get32_bytes [of "base + 132" b] by (simp add: ac_simps)
  note p4 = bytes_split [OF p3 [THEN conjunct2], unfolded la]
  then show "bytes (base + 136) 33 b = ?a" by (simp add: ac_simps)
  from p4 show "get32 (base + 169) b = of_nat (clipped_atr r)"
    using get32_bytes [of "base + 169" b] by (simp add: ac_simps)
qed

lemma read_encoded:
  assumes "wf_readerstate r" "bytes base 173 b = encode_readerstate r"
    and "base + 173 \<le> PP_MAX_MESSAGE_LEN"
  shows "read_readerstate base b = Inr (arrived_readerstate r)"
proof -
  note p = encoded_parts [OF assms(1,2)]
  have n: "length (reader_name r) \<le> 127" by (rule reader_name_length [OF assms(1)])
  have nz: "\<forall>c \<in> set (reader_name r). c \<noteq> 0"
    using assms(1) by (auto simp: wf_readerstate_def reader_name_def split: option.splits)
  have s: "bytes base (Suc (length (reader_name r))) b = reader_name r @ [0]"
  proof -
    have "bytes base 128 b = (reader_name r @ [0]) @ replicate (127 - length (reader_name r)) 0"
      using p(1) n by (simp add: Suc_diff_le replicate_append_same flip: replicate_Suc)
    from bytes_split [OF this] show ?thesis by simp
  qed
  have str: "read_string base b = Inr (reader_name r)"
    unfolding read_string_def by (rule cstring_found [OF nz _ s]) (use assms(3) n in simp)
  have "b base = hd (reader_name r @ [0])"
    using s by (simp add: bytes_Suc) (metis list.sel(1))
  then have first: "b base \<noteq> 0 \<longleftrightarrow> reader_name r \<noteq> []"
    using nz by (cases "reader_name r") auto
  have cb: "(if 33 < (ucast (get32 (base + 169) b) :: u64) then 33 else ucast (get32 (base + 169) b)) =
      (of_nat (clipped_atr r) :: u64)"
    using p(5) clipped_atr_le [of r]
    by (auto simp: word_less_nat_alt word_unat_eq_iff unat_of_nat)
  have atr: "bytes (base + 136) (clipped_atr r) b @ replicate (33 - clipped_atr r) 0 =
      take (clipped_atr r) (rgbAtr r) @ replicate (33 - clipped_atr r) 0"
    using bytes_split [OF p(4)] clipped_atr_le [of r] assms(1) by (simp add: wf_readerstate_def)
  have u: "unat (of_nat (clipped_atr r) :: u64) = clipped_atr r"
    using clipped_atr_le [of r] by (simp add: unat_of_nat)
  show ?thesis
    using assms(3) str first p(2,3) cb atr u
    by (simp add: read_readerstate_def arrived_readerstate_def Let_def split del: if_split cong del: if_weak_cong)
      (simp split: if_splits)
qed

section \<open>Packing\<close>

lemma bytes_readerstate:
  "bytes base 173 b = bytes base 128 b @ bytes (base + 128) 4 b @ bytes (base + 132) 4 b @
     bytes (base + 136) 33 b @ bytes (base + 169) 4 b"
  using bytes_add [of base 128 45 b] bytes_add [of "base + 128" 4 41 b] bytes_add [of "base + 132" 4 37 b]
    bytes_add [of "base + 136" 33 4 b] by (simp add: ac_simps)

lemma bytes_zero_part:
  "bytes base n b = replicate n 0 \<Longrightarrow> k + l \<le> n \<Longrightarrow> bytes (base + k) l b = replicate l 0"
  by (auto simp: list_eq_iff_nth_eq nth_bytes add.assoc)

definition named :: "nat \<Rightarrow> SCARD_READERSTATE \<Rightarrow> buffer \<Rightarrow> buffer" where
  "named base r m = (case szReader r of None \<Rightarrow> m | Some s \<Rightarrow> strncpy base s (MAX_READERNAME - 1) m)"

lemma named_name:
  assumes "wf_readerstate r" "bytes base 128 m = replicate 128 0"
  shows "bytes base 128 (named base r m) = reader_name r @ replicate (128 - length (reader_name r)) 0"
proof (cases "szReader r")
  case None
  with assms(2) show ?thesis by (simp add: named_def reader_name_def)
next
  case (Some s)
  with assms(1) have l: "length s \<le> 127" by (auto simp: wf_readerstate_def)
  have z: "m (base + 127) = 0"
    using bytes_zero_part [OF assms(2), of 127 1] by (simp add: bytes_Suc)
  have "(strncpy base s 127 m)(base + 127 := 0) = strncpy base s 127 m"
    using l z by (auto simp: strncpy_def blit_def fun_eq_iff)
  with strncpy_field [OF l, of base m] Some show ?thesis by (simp add: named_def reader_name_def)
qed

lemma named_other: "wf_readerstate r \<Longrightarrow> i < base \<or> base + 128 \<le> i \<Longrightarrow> named base r m i = m i"
  by (auto simp: named_def strncpy_def blit_def wf_readerstate_def split: option.splits)

lemma pack_one:
  assumes "wf_readerstate r" "base + 173 \<le> PP_MAX_MESSAGE_LEN" "bytes base 173 m = replicate 173 0"
  shows "\<exists>m'. pack_readerstate base r m = Inr m' \<and> bytes base 173 m' = encode_readerstate r \<and>
    (\<forall>i. i < base \<or> base + 173 \<le> i \<longrightarrow> m' i = m i)"
proof -
  let ?c = "clipped_atr r"
  define m1 where "m1 = put32 (base + 169) (of_nat ?c) (put32 (base + 132) (ucast (dwEventState r))
    (put32 (base + 128) (ucast (dwCurrentState r)) (named base r m)))"
  define m' where "m' = blit (base + 136) (take ?c (rgbAtr r)) m1"
  have c: "?c \<le> 33" "length (rgbAtr r) = 33"
    using assms(1) by (simp_all add: clipped_atr_le wf_readerstate_def)
  have u: "unat (of_nat ?c :: u32) = ?c" using c(1) by (simp add: unat_of_nat)
  have "pack_readerstate base r m = Inr m'"
    using assms(2) clip_atr [of r] u
    by (simp add: pack_readerstate_def m'_def m1_def named_def Let_def split del: if_split cong del: if_weak_cong)
  moreover have "bytes base 128 m' = reader_name r @ replicate (128 - length (reader_name r)) 0"
    using named_name [OF assms(1)] bytes_zero_part [OF assms(3), of 0 128] c
    by (simp add: m'_def m1_def buf_simps)
  moreover have "bytes (base + 128) 4 m' = le32 (ucast (dwCurrentState r))"
    "bytes (base + 132) 4 m' = le32 (ucast (dwEventState r))" "bytes (base + 169) 4 m' = le32 (of_nat ?c)"
    using c by (simp_all add: m'_def m1_def buf_simps)
  moreover have "bytes (base + 136) 33 m' = take ?c (rgbAtr r) @ replicate (33 - ?c) 0"
  proof -
    have "bytes (base + 136) ?c m' = take ?c (rgbAtr r)"
      using c by (simp add: m'_def buf_simps)
    moreover have "bytes (base + 136 + ?c) (33 - ?c) m' = replicate (33 - ?c) 0"
    proof -
      have "bytes (base + 136 + ?c) (33 - ?c) m' = bytes (base + 136 + ?c) (33 - ?c) (named base r m)"
        using c by (simp add: m'_def m1_def buf_simps)
      also have "\<dots> = bytes (base + 136 + ?c) (33 - ?c) m"
        using named_other [OF assms(1)] by (simp add: bytes_eq_iff)
      also have "\<dots> = replicate (33 - ?c) 0"
        using bytes_zero_part [OF assms(3), of "136 + ?c" "33 - ?c"] c by (simp add: ac_simps)
      finally show ?thesis .
    qed
    ultimately show ?thesis using bytes_add [of "base + 136" ?c "33 - ?c" m'] c by simp
  qed
  moreover have "m' i = m i" if "i < base \<or> base + 173 \<le> i" for i
    using that c named_other [OF assms(1), of i base m]
    by (auto simp: m'_def m1_def buf_simps)
  ultimately show ?thesis
    by (simp add: bytes_readerstate encode_readerstate_def)
qed

lemma bytes_concat: "bytes base (k + n) b = bytes base k b @ bytes (base + k) n b"
  by (rule bytes_add)

lemma pack_all:
  assumes "5 \<le> base" "\<forall>r \<in> set rs. wf_readerstate r" "base + 173 * length rs \<le> PP_MAX_MESSAGE_LEN"
    "bytes base (173 * length rs) m = replicate (173 * length rs) 0"
  shows "\<exists>m'. pack_readerstates (length rs) base rs m = Inr m' \<and>
    bytes base (173 * length rs) m' = concat (map encode_readerstate rs) \<and>
    (\<forall>i. 5 \<le> i \<longrightarrow> i < base \<or> base + 173 * length rs \<le> i \<longrightarrow> m' i = m i) \<and>
    msg_type m' = msg_type m \<and> msg_len m' = msg_len m + of_nat (173 * length rs)"
  using assms
proof (induction rs arbitrary: base m)
  case (Cons r rs)
  let ?n = "173 * length rs"
  have z: "bytes base 173 m = replicate 173 0" "bytes (base + 173) ?n m = replicate ?n 0"
    using bytes_zero_part [OF Cons.prems(4), of 0 173] bytes_zero_part [OF Cons.prems(4), of 173 ?n] by simp_all
  from pack_one [OF _ _ z(1), of r] Cons.prems(2,3) obtain m1 where
    m1: "pack_readerstate base r m = Inr m1" "bytes base 173 m1 = encode_readerstate r"
      "\<forall>i. i < base \<or> base + 173 \<le> i \<longrightarrow> m1 i = m i" by auto
  define m2 where "m2 = set_msg_len (msg_len m1 + 173) m1"
  have h: "msg_len m1 = msg_len m" "msg_type m1 = msg_type m"
    using m1(3) Cons.prems(1) by (auto simp: msg_len_def msg_type_def intro!: get32_cong)
  have m2: "m2 i = m1 i" if "5 \<le> i" for i
    using that by (simp add: m2_def set_msg_len_def buf_simps)
  have "bytes (base + 173) ?n m2 = replicate ?n 0"
    using z(2) m1(3) m2 Cons.prems(1) by (simp add: bytes_eq_iff list_eq_iff_nth_eq nth_bytes)
  with Cons.IH [of "base + 173" m2] Cons.prems obtain m' where
    m': "pack_readerstates (length rs) (base + 173) rs m2 = Inr m'"
      "bytes (base + 173) ?n m' = concat (map encode_readerstate rs)"
      "\<forall>i. 5 \<le> i \<longrightarrow> i < base + 173 \<or> base + 173 + ?n \<le> i \<longrightarrow> m' i = m2 i"
      "msg_type m' = msg_type m2" "msg_len m' = msg_len m2 + of_nat ?n" by auto
  have "bytes base 173 m' = encode_readerstate r"
    using m1(2) m'(3) m2 Cons.prems(1) by (simp add: bytes_eq_iff flip: m1(2))
  moreover have "pack_readerstates (length (r # rs)) base (r # rs) m = Inr m'"
    using m1(1) m'(1) by (simp add: m2_def)
  moreover have "\<forall>i. 5 \<le> i \<longrightarrow> i < base \<or> base + 173 * length (r # rs) \<le> i \<longrightarrow> m' i = m i"
    using m'(3) m2 m1(3) by auto
  ultimately show ?case
    using m' h bytes_concat [of base 173 ?n m']
    by (intro exI [of _ m']) (simp add: m2_def msg_simps algebra_simps)
qed simp

section \<open>Reading the array\<close>

lemma read_all:
  assumes "\<forall>r \<in> set rs. wf_readerstate r" "base + 173 * length rs \<le> PP_MAX_MESSAGE_LEN"
    and "bytes base (173 * length rs) b = concat (map encode_readerstate rs)"
  shows "read_readerstates (length rs) base b = Inr (map arrived_readerstate rs)"
  using assms
proof (induction rs arbitrary: base)
  case (Cons r rs)
  have "bytes base (173 * length (r # rs)) b = encode_readerstate r @ concat (map encode_readerstate rs)"
    using Cons.prems(3) by simp
  from bytes_split [OF this] Cons.prems(1) have
    b: "bytes base 173 b = encode_readerstate r"
      "bytes (base + 173) (length (concat (map encode_readerstate rs))) b = concat (map encode_readerstate rs)"
    by simp_all
  have "length (concat (map encode_readerstate rs)) = 173 * length rs"
    using Cons.prems(1) by (induction rs) auto
  with b(2) Cons have "read_readerstates (length rs) (base + 173) b = Inr (map arrived_readerstate rs)"
    by simp
  with read_encoded [OF _ b(1)] Cons.prems(1,2) show ?case by simp
qed simp

section \<open>The server's answer\<close>

text \<open>What the client stores in its state \<open>r\<close> for the state \<open>l\<close> the library reported.\<close>

definition returned_readerstate :: "SCARD_READERSTATE \<Rightarrow> SCARD_READERSTATE \<Rightarrow> SCARD_READERSTATE" where
  "returned_readerstate l r =
     r\<lparr>dwCurrentState := ucast (ucast (dwCurrentState l) :: u32),
       dwEventState := ucast (ucast (dwEventState l) :: u32), cbAtr := of_nat (clipped_atr l),
       rgbAtr := take (clipped_atr l) (rgbAtr l) @ drop (clipped_atr l) (rgbAtr r)\<rparr>"

lemma unpack_cong:
  assumes "\<forall>i. base + 128 \<le> i \<longrightarrow> i < base + 173 \<longrightarrow> b i = b' i"
  shows "unpack_readerstate base b r = unpack_readerstate base b' r"
proof -
  have g: "get32 (base + 128) b = get32 (base + 128) b'" "get32 (base + 132) b = get32 (base + 132) b'"
    "get32 (base + 169) b = get32 (base + 169) b'"
    using assms by (auto intro!: get32_cong)
  have c: "unat (if 33 < (ucast (get32 (base + 169) b') :: u64) then 33 else ucast (get32 (base + 169) b') :: u64) \<le> 33"
    by (auto simp: word_less_nat_alt)
  have "bytes (base + 136) k b = bytes (base + 136) k b'" if "k \<le> 33" for k
    using assms that by (auto simp: bytes_eq_iff)
  with g c show ?thesis
    by (simp add: unpack_readerstate_def Let_def split del: if_split cong del: if_weak_cong)
qed

lemma write_one:
  assumes "length (rgbAtr l) = 33" "base + 173 \<le> PP_MAX_MESSAGE_LEN"
  shows "\<exists>m'. write_readerstate base l m = Inr m' \<and> unpack_readerstate base m' r = returned_readerstate l r \<and>
    (\<forall>i. i < base \<or> base + 173 \<le> i \<longrightarrow> m' i = m i)"
proof -
  let ?c = "clipped_atr l"
  define m1 where "m1 = put32 (base + 169) (of_nat ?c) (put32 (base + 132) (ucast (dwEventState l))
    (put32 (base + 128) (ucast (dwCurrentState l)) m))"
  define m' where "m' = blit (base + 136) (take ?c (rgbAtr l)) m1"
  have c: "?c \<le> 33" by (rule clipped_atr_le)
  have u: "unat (of_nat ?c :: u32) = ?c" "unat (of_nat ?c :: u64) = ?c"
    using c by (simp_all add: unat_of_nat)
  have w: "write_readerstate base l m = Inr m'"
    using assms(2) clip_atr [of l] u
    by (simp add: write_readerstate_def m'_def m1_def Let_def split del: if_split cong del: if_weak_cong)
  have f: "get32 (base + 128) m' = ucast (dwCurrentState l)" "get32 (base + 132) m' = ucast (dwEventState l)"
    "get32 (base + 169) m' = of_nat ?c" "bytes (base + 136) ?c m' = take ?c (rgbAtr l)"
    using c assms(1) by (simp_all add: m'_def m1_def buf_simps)
  have cb: "(if 33 < (ucast (of_nat ?c :: u32) :: u64) then 33 else ucast (of_nat ?c :: u32)) = (of_nat ?c :: u64)"
    using c u by (auto simp: word_less_nat_alt word_unat_eq_iff)
  have "unpack_readerstate base m' r = returned_readerstate l r"
    using f cb u
    by (simp add: unpack_readerstate_def returned_readerstate_def Let_def split del: if_split cong del: if_weak_cong)
  moreover have "m' i = m i" if "i < base \<or> base + 173 \<le> i" for i
    using that c by (auto simp: m'_def m1_def buf_simps)
  ultimately show ?thesis using w by blast
qed

lemma unpack_all_cong:
  "\<forall>i. base \<le> i \<longrightarrow> i < base + 173 * n \<longrightarrow> b i = b' i \<Longrightarrow>
     unpack_readerstates n base b rs = unpack_readerstates n base b' rs"
proof (induction n base b rs rule: unpack_readerstates.induct)
  case (1 n base b r rs)
  then show ?case using unpack_cong [of base b b' r] by simp
qed simp_all

lemma write_all:
  assumes "length ls = length rs" "\<forall>l \<in> set ls. length (rgbAtr l) = 33"
    "base + 173 * length rs \<le> PP_MAX_MESSAGE_LEN"
  shows "\<exists>m'. write_readerstates base ls m = Inr m' \<and>
    unpack_readerstates (length rs) base m' rs = map2 returned_readerstate ls rs \<and>
    (\<forall>i. i < base \<or> base + 173 * length rs \<le> i \<longrightarrow> m' i = m i)"
  using assms
proof (induction ls rs arbitrary: base m rule: list_induct2)
  case (Cons l ls r rs)
  from write_one [of l base m r] Cons.prems obtain m1 where
    m1: "write_readerstate base l m = Inr m1" "unpack_readerstate base m1 r = returned_readerstate l r"
      "\<forall>i. i < base \<or> base + 173 \<le> i \<longrightarrow> m1 i = m i" by auto
  from Cons.IH [of "base + 173" m1] Cons.prems obtain m' where
    m': "write_readerstates (base + 173) ls m1 = Inr m'"
      "unpack_readerstates (length rs) (base + 173) m' rs = map2 returned_readerstate ls rs"
      "\<forall>i. i < base + 173 \<or> base + 173 + 173 * length rs \<le> i \<longrightarrow> m' i = m1 i" by auto
  have "unpack_readerstate base m' r = returned_readerstate l r"
    using m1(2) m'(3) unpack_cong [of base m' m1 r] by simp
  with m1 m' show ?case by (intro exI [of _ m']) auto
qed simp

section \<open>Waiting for status changes\<close>

definition change_header :: "u32 \<Rightarrow> u64 \<Rightarrow> nat \<Rightarrow> buffer" where
  "change_header hid timeout n =
     putf s_getstatuschange F_cReaders (of_nat n) (putf s_getstatuschange F_dwTimeout (ucast timeout)
       (putf s_getstatuschange F_hContext hid (request SCARD_GET_STATUS_CHANGE 21)))"

lemma packed_request:
  assumes "\<forall>r \<in> set rs. wf_readerstate r" "21 + 173 * length rs \<le> PP_MAX_MESSAGE_LEN"
  shows "\<exists>m. pack_readerstates (length rs) 21 rs (change_header hid timeout (length rs)) = Inr m \<and>
    bytes 21 (173 * length rs) m = concat (map encode_readerstate rs) \<and>
    getf s_getstatuschange F_hContext m = hid \<and>
    getf s_getstatuschange F_dwTimeout m = ucast timeout \<and>
    getf s_getstatuschange F_cReaders m = of_nat (length rs) \<and>
    msg_type m = command_code SCARD_GET_STATUS_CHANGE \<and> msg_len m = of_nat (21 + 173 * length rs)"
proof -
  let ?m = "change_header hid timeout (length rs)"
  have zero: "?m i = 0" if "21 \<le> i" for i
    using that by (simp add: change_header_def request_def putf_def set_msg_len_def set_msg_type_def buf_simps)
  have "bytes 21 (173 * length rs) ?m = replicate (173 * length rs) 0"
    by (rule nth_equalityI) (simp_all add: nth_bytes zero)
  from pack_all [OF _ assms this] obtain m where
    m: "pack_readerstates (length rs) 21 rs ?m = Inr m"
      "bytes 21 (173 * length rs) m = concat (map encode_readerstate rs)"
      "\<forall>i. 5 \<le> i \<longrightarrow> i < 21 \<or> 21 + 173 * length rs \<le> i \<longrightarrow> m i = ?m i"
      "msg_type m = msg_type ?m" "msg_len m = msg_len ?m + of_nat (173 * length rs)" by auto
  have "getf s_getstatuschange g m = getf s_getstatuschange g ?m"
    if "5 \<le> fld s_getstatuschange g" "fld s_getstatuschange g \<le> 17" for g
    unfolding getf_def by (rule get32_cong) (use m(3) le_trans [OF that(1)] that(2) in fastforce)
  with m show ?thesis by (simp add: change_header_def msg_simps)
qed

lemma write_readings:
  assumes "length ls = n" "\<forall>l \<in> set ls. length (rgbAtr l) = 33" "base + 173 * n \<le> PP_MAX_MESSAGE_LEN"
  shows "\<exists>m'. write_readerstates base ls m = Inr m' \<and>
    (\<forall>i. i < base \<or> base + 173 * n \<le> i \<longrightarrow> m' i = m i) \<and>
    (\<forall>qs. length qs = n \<longrightarrow> unpack_readerstates n base m' qs = map2 returned_readerstate ls qs)"
proof -
  from write_all [of ls ls base m] assms obtain m' where
    m': "write_readerstates base ls m = Inr m'" "\<forall>i. i < base \<or> base + 173 * n \<le> i \<longrightarrow> m' i = m i" by auto
  have "unpack_readerstates n base m' qs = map2 returned_readerstate ls qs" if "length qs = n" for qs
    using write_all [of ls qs base m] assms that m'(1) by auto
  with m' show ?thesis by blast
qed

lemma change_dispatch:
  fixes u :: uninit
  assumes "bytes 21 (173 * length rs) m = concat (map encode_readerstate rs)"
    "getf s_getstatuschange F_hContext m = hid" "getf s_getstatuschange F_dwTimeout m = t"
    "getf s_getstatuschange F_cReaders m = of_nat (length rs)" "msg_len m = of_nat (21 + 173 * length rs)"
    and "\<forall>r \<in> set rs. wf_readerstate r" "21 + 173 * length rs < PP_MAX_MESSAGE_LEN"
    and "u_malloc u (sizeof_SCARD_READERSTATE * length rs)"
    and "lib_GetStatusChange lib (ucast hid) (ucast t) (map arrived_readerstate rs) s = (res, ls, s')"
    and "length ls = length rs" "\<forall>l \<in> set ls. length (rgbAtr l) = 33"
  shows "\<exists>r. dispatch lib u SCARD_GET_STATUS_CHANGE (blit 0 (frame m) (u_msg u)) s = Inr (r, s') \<and>
    msg_len r = msg_len m \<and> getf s_getstatuschange F_rv r = ucast res \<and>
    (\<forall>qs. length qs = length rs \<longrightarrow>
       unpack_readerstates (length rs) 21 r qs = map2 returned_readerstate ls qs)"
proof -
  let ?b = "blit 0 (frame m) (u_msg u)" and ?n = "length rs"
  have n: "unat (of_nat ?n :: u32) = ?n" "unat (of_nat (21 + 173 * ?n) :: u32) = 21 + 173 * ?n"
    using assms(7) by (simp_all only: unat_of_nat) simp_all
  have fields: "getf s_getstatuschange g ?b = getf s_getstatuschange g m"
    if "fld s_getstatuschange g \<le> 17" for g
    using that n assms(5) by (intro getf_frame) simp
  have "bytes 21 (173 * ?n) ?b = concat (map encode_readerstate rs)"
    using n assms(1,5) by (simp add: msg_simps)
  from read_all [OF assms(6) _ this] assms(7)
  have "read_readerstates ?n 21 ?b = Inr (map arrived_readerstate rs)" by simp
  moreover have "\<exists>m'. write_readerstates 21 ls ?b = Inr m' \<and>
    (\<forall>i. i < 21 \<or> 21 + 173 * ?n \<le> i \<longrightarrow> m' i = ?b i) \<and>
    (\<forall>qs. length qs = ?n \<longrightarrow> unpack_readerstates ?n 21 m' qs = map2 returned_readerstate ls qs)"
    by (rule write_readings) (use assms(7,10,11) in simp_all)
  then obtain m' where m': "write_readerstates 21 ls ?b = Inr m'"
    "\<forall>i. i < 21 \<or> 21 + 173 * ?n \<le> i \<longrightarrow> m' i = ?b i"
    "\<forall>qs. length qs = ?n \<longrightarrow> unpack_readerstates ?n 21 m' qs = map2 returned_readerstate ls qs" by blast
  ultimately have d: "dispatch lib u SCARD_GET_STATUS_CHANGE ?b s =
      Inr (putf s_getstatuschange F_rv (ucast res) m', s')"
    using assms(2-4,8,9) n fields
    by (simp add: handleGetStatusChange_def msg_simps)
  have "msg_len m' = msg_len ?b"
    using m'(2) by (auto simp: msg_len_def intro!: get32_cong)
  then have "msg_len m' = msg_len m"
    using n assms(5) by (simp add: msg_simps)
  moreover have "unpack_readerstates ?n 21 (putf s_getstatuschange F_rv v m') qs =
      unpack_readerstates ?n 21 m' qs" for v qs
    by (intro unpack_all_cong) (auto simp: putf_def msg_simps buf_simps)
  ultimately show ?thesis
    using d m'(3) by (intro exI [of _ "putf s_getstatuschange F_rv (ucast res) m'"]) (simp add: msg_simps)
qed

lemma status_change_transparent:
  assumes "linked lib N u pl c" "context_session pl hContext i p c"
    and "unat cReaders = length rs" "\<forall>r \<in> set rs. wf_readerstate r"
    and "21 + 173 * length rs < PP_MAX_MESSAGE_LEN"
    and "u_malloc u (sizeof_SCARD_READERSTATE * length rs)"
    and "lib_GetStatusChange lib (ucast (pcScContext p)) (ucast (ucast dwTimeout :: u32))
      (map arrived_readerstate rs) (srv (world c)) = (res, ls, s')"
    and "length ls = length rs" "\<forall>l \<in> set ls. length (rgbAtr l) = MAX_ATR_SIZE"
  shows "SCardGetStatusChange pl hContext dwTimeout (Some rs) cReaders c =
    Inr (ucast (ucast res :: u32), Some (map2 returned_readerstate ls rs), after s' c)"
proof -
  let ?n = "length rs"
  let ?h = "change_header (pcScContext p) dwTimeout ?n"
  from packed_request [OF assms(4), of "pcScContext p" dwTimeout] assms(5) obtain m where
    m: "pack_readerstates ?n 21 rs ?h = Inr m"
      "bytes 21 (173 * ?n) m = concat (map encode_readerstate rs)"
      "getf s_getstatuschange F_hContext m = pcScContext p"
      "getf s_getstatuschange F_dwTimeout m = ucast dwTimeout"
      "getf s_getstatuschange F_cReaders m = of_nat ?n"
      "msg_type m = command_code SCARD_GET_STATUS_CHANGE" "msg_len m = of_nat (21 + 173 * ?n)" by auto
  from change_dispatch [OF m(2-5,7) assms(4-6,7,8)] assms(9) obtain r where
    r: "dispatch lib u SCARD_GET_STATUS_CHANGE (blit 0 (frame m) (u_msg u)) (srv (world c)) = Inr (r, s')"
      "msg_len r = msg_len m" "getf s_getstatuschange F_rv r = ucast res"
      "unpack_readerstates ?n 21 r rs = map2 returned_readerstate ls rs" by auto
  note f = context_found [OF assms(2)]
  have len: "unat (msg_len m) = 21 + 173 * ?n"
    unfolding m(7) using assms(5) by (simp only: unat_of_nat) simp
  with link_context [OF assms(1,2) m(6) r(1)] r(2) assms(5)
  have x: "pp_exchangeMsg pl i m c = Inr (0, blit 0 (frame r) m, after s' c)" by simp
  let ?x = "blit 0 (frame r) m"
  have "unpack_readerstates ?n 21 ?x rs = unpack_readerstates ?n 21 r rs"
    by (rule unpack_all_cong) (use len r(2) in \<open>simp add: frame_def blit_def nth_bytes\<close>)
  moreover have "getf s_getstatuschange F_rv ?x = ucast res"
    using len r(2,3) by (simp add: msg_simps)
  moreover have "ucast cReaders = (of_nat ?n :: u32)"
    using assms(3,5) by (simp add: word_unat_eq_iff unat_ucast_32 unat_of_nat)
  moreover have "rs = []" "m = ?h" if "cReaders = 0"
    using that assms(3) m(1) by auto
  moreover have "unat (msg_len ?h) = 21" by (simp add: change_header_def msg_simps)
  ultimately show ?thesis
    using f x m(1) r(4) assms(3,5)
    by (auto simp: SCardGetStatusChange_def change_header_def Let_def)
qed

text \<open>C9 SCardGetStatusChange: every reader state of the application arrives at the server's library
  with its name, its state bits and its ATR, and the states the library reports are stored in the
  application's array in order, whatever their number as long as they fit in a message.\<close>

theorem SCardGetStatusChange_transparent:
  assumes "linked lib N u pl c" "context_session pl hContext i p c"
    and "unat cReaders = length rs" "\<forall>r \<in> set rs. wf_readerstate r"
    and "21 + 173 * length rs < PP_MAX_MESSAGE_LEN"
    and "u_malloc u (sizeof_SCARD_READERSTATE * length rs)"
    and "lib_GetStatusChange lib (ucast (pcScContext p)) (ucast (ucast dwTimeout :: u32))
      (map arrived_readerstate rs) (srv (world c)) = (res, ls, s')"
    and "length ls = length rs" "\<forall>l \<in> set ls. length (rgbAtr l) = MAX_ATR_SIZE"
  shows "SCardGetStatusChange pl hContext dwTimeout (Some rs) cReaders c =
    Inr (ucast (ucast res :: u32), Some (map2 returned_readerstate ls rs), after s' c)"
  using assms by (rule status_change_transparent)

lemma SCardGetStatusChange_transparent_witness:
  "SCardGetStatusChange demo_pl 0x88345289 7
     (Some [\<lparr>szReader = Some [82, 49], dwCurrentState = 1, dwEventState = 0, cbAtr = 1, rgbAtr = replicate 33 5\<rparr>])
     1 (demo_client demo_link) =
   Inr (0, Some [\<lparr>szReader = Some [82, 49], dwCurrentState = 1, dwEventState = 0x22, cbAtr = 1,
     rgbAtr = replicate 33 5\<rparr>], after 1 (demo_client demo_link))"
proof -
  let ?r = "\<lparr>szReader = Some [82, 49], dwCurrentState = 1, dwEventState = 0, cbAtr = 1,
    rgbAtr = replicate 33 5\<rparr> :: SCARD_READERSTATE"
  let ?l = "\<lparr>szReader = Some [82, 49], dwCurrentState = 1, dwEventState = 0x22, cbAtr = 1,
    rgbAtr = 5 # replicate 32 0\<rparr> :: SCARD_READERSTATE"
  have wf: "wf_readerstate ?r" by (simp add: wf_readerstate_def)
  have c: "clipped_atr ?r = 1" "clipped_atr ?l = 1" by (simp_all add: clipped_atr_def)
  have a: "(arrived_readerstate ?r)\<lparr>dwEventState := 0x22\<rparr> = ?l"
    unfolding arrived_readerstate_def c by (simp add: reader_name_def)
  have "5 # replicate 32 5 = replicate 33 (5 :: u8)"
    by (simp add: numeral_eq_Suc)
  then have b: "returned_readerstate ?l ?r = ?r\<lparr>dwEventState := 0x22\<rparr>"
    unfolding returned_readerstate_def c by simp
  show ?thesis
    using SCardGetStatusChange_transparent [OF demo_linked demo_context_session, where cReaders = 1
        and rs = "[?r]" and dwTimeout = 7 and res = 0 and ls = "[?l]" and s' = 1] wf a b
    by (simp add: demo_uninit_def sizeof_SCARD_READERSTATE_def)
qed

end
