(* ===== verification/Proxy.thy ===== *)
theory Proxy
  imports Calls ReaderStates
begin

text \<open>
  What an application may rely on: a table of context handles and a table of card handles, each
  naming a handle of the server's PC/SC library, and every call the library's call on the handle
  named.  The specification is executable and knows no messages, buffers, sessions or sockets; the
  theory \<open>Programs\<close> shows that the client library over a link implements it.
\<close>

section \<open>The specification\<close>

text \<open>
  The contexts and cards by slot, a card with the slot of its context; the slots whose connection to
  the server is open; and the state of the server's PC/SC library.
\<close>

record 's proxy =
  p_contexts :: "nat \<Rightarrow> u32 option"
  p_cards :: "nat \<Rightarrow> (u32 \<times> nat) option"
  p_open :: "nat \<Rightarrow> bool"
  p_state :: 's

definition narrow :: "u64 \<Rightarrow> u64" where
  "narrow x = ucast (ucast x :: u32)"

definition context_slot :: "u64 \<Rightarrow> nat" where
  "context_slot h = unat (ucast h - PP_CONTEXT_MAGIC :: u32)"

definition card_slot :: "u64 \<Rightarrow> nat" where
  "card_slot h = unat (ucast h - PP_CARD_MAGIC :: u32)"

text \<open>
  A call of the library on the handle a slot names.  Nothing is promised for the handle one past the
  table.  A card whose context has been released has no connection.
\<close>

definition on_context :: "u64 \<Rightarrow> stored \<Rightarrow> (u32 \<Rightarrow> 's \<Rightarrow> (u64 \<times> stored \<times> 's) option) \<Rightarrow> 's proxy \<Rightarrow>
    (answer \<times> 's proxy) option" where
  "on_context h none f st =
     (if context_slot h = PP_MAX_CONTEXT then None
      else
        (case p_contexts st (context_slot h) of
           None \<Rightarrow> Some ((SCARD_F_INTERNAL_ERROR, none), st)
         | Some hc \<Rightarrow>
             map_option (\<lambda>(res, out, s). ((narrow res, out), st\<lparr>p_state := s\<rparr>)) (f hc (p_state st))))"

definition on_card :: "u64 \<Rightarrow> stored \<Rightarrow> (u32 \<Rightarrow> 's \<Rightarrow> (u64 \<times> stored \<times> 's) option) \<Rightarrow> 's proxy \<Rightarrow>
    (answer \<times> 's proxy) option" where
  "on_card h none f st =
     (if card_slot h = PP_MAX_CONTEXT then None
      else
        (case p_cards st (card_slot h) of
           None \<Rightarrow> Some ((SCARD_E_INVALID_VALUE, none), st)
         | Some (hc, i) \<Rightarrow>
             if p_open st i
             then map_option (\<lambda>(res, out, s). ((narrow res, out), st\<lparr>p_state := s\<rparr>)) (f hc (p_state st))
             else Some ((SCARD_F_INTERNAL_ERROR, none), st)))"

text \<open>The bytes \<open>bs\<close> stored at the front of the buffer \<open>d\<close>.\<close>

definition front :: "u8 list \<Rightarrow> u8 list option \<Rightarrow> u8 list option" where
  "front bs = map_option (\<lambda>d. bs @ drop (length bs) d)"

definition capacity :: "u8 list option \<Rightarrow> nat" where
  "capacity d = (case d of None \<Rightarrow> 0 | Some d \<Rightarrow> length d)"

text \<open>
  The calls that move data, on the server's handle: what the library stores and the lengths it
  reports have to agree and to fit, otherwise nothing is promised.  Transmission and the lists also
  promise that an answer longer than the application's buffer is refused with the proxy's own code:
  neither the library's code nor the length needed is given back.
\<close>

definition status_call :: "'s pcsc \<Rightarrow> uninit \<Rightarrow> status_args \<Rightarrow> u32 \<Rightarrow> 's \<Rightarrow> (u64 \<times> stored \<times> 's) option" where
  "status_call lib u a hc s =
     (let n = min (unat (the (a_pcchReaderLen a))) MAX_READERNAME;
        l = min (unat (the (a_pcbAtrLen a))) MAX_ATR_SIZE;
        (res, (name, nlen), (state, proto), (atr, alen), s') =
          lib_Status lib (scast hc) (of_nat n) (of_nat l) (u_dwState u, u_dwProtocol u) s
      in if length name = unat nlen \<and> length name \<le> min n (capacity (a_mszReaderName a)) \<and>
            length atr = unat alen \<and> length atr \<le> min l (capacity (a_pbAtr a))
         then Some (res,
           Status_of \<lparr>a_mszReaderName = front name (a_mszReaderName a), a_pcchReaderLen = Some nlen,
             a_pdwState = map_option (\<lambda>_. narrow state) (a_pdwState a),
             a_pdwProtocol = map_option (\<lambda>_. narrow proto) (a_pdwProtocol a),
             a_pbAtr = front atr (a_pbAtr a), a_pcbAtrLen = Some alen\<rparr>, s')
         else None)"

definition change_call :: "'s pcsc \<Rightarrow> u64 \<Rightarrow> SCARD_READERSTATE list \<Rightarrow> u32 \<Rightarrow> 's \<Rightarrow> (u64 \<times> stored \<times> 's) option" where
  "change_call lib t rs hc s =
     (let (res, ls, s') = lib_GetStatusChange lib (ucast hc) (narrow t) (map arrived_readerstate rs) s
      in if length ls = length rs \<and> (\<forall>l \<in> set ls. length (rgbAtr l) = MAX_ATR_SIZE)
         then Some (res, States (Some (map2 returned_readerstate ls rs)), s') else None)"

definition control_call :: "'s pcsc \<Rightarrow> u64 \<Rightarrow> u8 list \<Rightarrow> u8 list option \<Rightarrow> u64 \<Rightarrow> u32 \<Rightarrow> 's \<Rightarrow> (u64 \<times> stored \<times> 's) option" where
  "control_call lib code bs d rl hc s =
     (let n = min (unat rl) PP_MAX_BUFFER_LEN;
        (res, out, outlen, s') = lib_Control lib (scast hc) (narrow code) bs (of_nat n) 0 s
      in if length out = unat outlen \<and> length out \<le> min n (capacity d)
         then Some (res, Data (front out d) (Some outlen), s') else None)"

definition transmit_call :: "'s pcsc \<Rightarrow> SCARD_IO_REQUEST \<Rightarrow> u8 list \<Rightarrow> transmit_args \<Rightarrow> u32 \<Rightarrow> 's \<Rightarrow> (u64 \<times> stored \<times> 's) option" where
  "transmit_call lib pci bs a hc s =
     (let n = unat (the (t_pcbRecvLength a));
        (res, rp, (out, outlen), s') =
          lib_Transmit lib (scast hc) (pci32 pci) bs (pci32 (case t_pioRecvPci a of None \<Rightarrow> no_pci | Some p \<Rightarrow> p))
            (of_nat (min n max_transmit)) s
      in if length out = unat outlen \<and> length out \<le> min n (capacity (t_pbRecvBuffer a)) \<and> length out < max_transmit
         then Some (res,
           Response (a\<lparr>t_pioRecvPci := map_option (\<lambda>_. pci32 rp) (t_pioRecvPci a),
             t_pbRecvBuffer := front out (t_pbRecvBuffer a), t_pcbRecvLength := Some outlen\<rparr>), s')
         else if length out \<le> n \<and> n < unat outlen \<and> unat outlen < max_transmit
         then Some (SCARD_F_INTERNAL_ERROR, Response a, s')
         else None)"

definition attrib_call :: "'s pcsc \<Rightarrow> u64 \<Rightarrow> u8 list option \<Rightarrow> u64 \<Rightarrow> u32 \<Rightarrow> 's \<Rightarrow> (u64 \<times> stored \<times> 's) option" where
  "attrib_call lib i d al hc s =
     (let n = min (unat al) PP_MAX_BUFFER_LEN;
        (res, (out, outlen), s') = lib_GetAttrib lib (scast hc) (narrow i) (of_nat n) s
      in if length out = unat outlen \<and> length out \<le> min PP_MAX_BUFFER_LEN (capacity d)
         then Some (res, Data (front out d) (Some outlen), s') else None)"

text \<open>With no buffer the length of the list is asked for; with one its length is not stored.\<close>

definition list_call :: "(u64 \<Rightarrow> bool \<Rightarrow> u64 \<Rightarrow> 's \<Rightarrow> u64 \<times> (u8 list \<times> u64) \<times> 's) \<Rightarrow> u8 list option \<Rightarrow> u64 \<Rightarrow>
    u32 \<Rightarrow> 's \<Rightarrow> (u64 \<times> stored \<times> 's) option" where
  "list_call L d len hc s =
     (let (res, (out, outlen), s') =
        L (scast hc) (d \<noteq> None) (of_nat (min (unat len) (PP_MAX_MESSAGE_LEN - 21))) s
      in case d of
           None \<Rightarrow> Some (res, Data None (Some (narrow outlen)), s')
         | Some b \<Rightarrow>
             if length out = unat outlen \<and> length out \<le> min (unat len) (length b) \<and>
                length out < PP_MAX_MESSAGE_LEN - 21
             then Some (res, Data (front out d) (Some len), s')
             else if length out \<le> unat outlen \<and> unat len < unat outlen \<and> unat outlen < PP_MAX_MESSAGE_LEN - 21
             then Some (SCARD_F_INTERNAL_ERROR, Data d (Some len), s')
             else None)"

definition free_slot :: "(nat \<Rightarrow> 'a option) \<Rightarrow> nat option" where
  "free_slot t = List.find (\<lambda>i. t i = None) [0 ..< PP_MAX_CONTEXT]"

text \<open>One call.  A timeout is accepted and forgotten, the result of a release is not looked at, and
  \<open>SCardCancel\<close> asks the library about the application's own handle.\<close>

fun proxy_call :: "'s pcsc \<Rightarrow> uninit \<Rightarrow> call \<Rightarrow> 's proxy \<Rightarrow> (answer \<times> 's proxy) option" where
  "proxy_call lib u (EstablishContext scope) st =
     (case free_slot (p_contexts st) of
        None \<Rightarrow> Some ((SCARD_F_INTERNAL_ERROR, Number None), st)
      | Some i \<Rightarrow>
          let (res, hc, s) = lib_EstablishContext lib (narrow scope) (u_hContext u) (p_state st)
          in if narrow res = SCARD_S_SUCCESS
             then Some ((SCARD_S_SUCCESS, Number (Some (ucast (of_nat i + PP_CONTEXT_MAGIC :: u32)))),
               st\<lparr>p_contexts := (p_contexts st)(i \<mapsto> ucast hc), p_open := (p_open st)(i := True), p_state := s\<rparr>)
             else Some ((narrow res, Number None), st\<lparr>p_open := (p_open st)(i := True), p_state := s\<rparr>))"
| "proxy_call lib u (ReleaseContext h) st =
     (let i = context_slot h in
      if i = PP_MAX_CONTEXT then None
      else
        (case p_contexts st i of
           None \<Rightarrow> Some ((SCARD_F_INTERNAL_ERROR, Nothing), st)
         | Some hc \<Rightarrow>
             let (res, s) = lib_ReleaseContext lib (ucast hc) (p_state st)
             in Some ((SCARD_S_SUCCESS, Nothing),
                  st\<lparr>p_contexts := (p_contexts st)(i := None), p_open := (p_open st)(i := False), p_state := s\<rparr>)))"
| "proxy_call lib u (IsValidContext h) st =
     on_context h Nothing (\<lambda>hc s. let (res, s) = lib_IsValidContext lib (ucast hc) s in Some (res, Nothing, s)) st"
| "proxy_call lib u (SetTimeout h t) st = on_context h Nothing (\<lambda>hc s. Some (SCARD_S_SUCCESS, Nothing, s)) st"
| "proxy_call lib u (Connect h reader share prots) st =
     (if MAX_READERNAME \<le> length (the reader) then Some ((SCARD_E_INVALID_VALUE, Card None), st)
      else if context_slot h = PP_MAX_CONTEXT then None
      else
        (case p_contexts st (context_slot h) of
           None \<Rightarrow> Some ((SCARD_F_INTERNAL_ERROR, Card None), st)
         | Some hc \<Rightarrow>
             (case free_slot (p_cards st) of
                None \<Rightarrow> Some ((SCARD_F_INTERNAL_ERROR, Card None), st)
              | Some k \<Rightarrow>
                  let (res, (hcard, prot), s) =
                    lib_Connect lib (ucast hc) (the reader) (narrow share) (narrow prots)
                      (u_hCard u, u_dwActiveProtocol u) (p_state st)
                  in if narrow res = SCARD_S_SUCCESS
                     then Some ((SCARD_S_SUCCESS,
                         Card (Some (ucast (of_nat k + PP_CARD_MAGIC :: u32), narrow prot))),
                       st\<lparr>p_cards := (p_cards st)(k \<mapsto> (ucast hcard, context_slot h)), p_state := s\<rparr>)
                     else Some ((narrow res, Card None), st\<lparr>p_state := s\<rparr>))))"
| "proxy_call lib u (Reconnect h share prots ini) st =
     on_card h (Number None) (\<lambda>hc s.
       let (res, prot, s) = lib_Reconnect lib (scast hc) (narrow share) (narrow prots) (narrow ini) (u_dwActiveProtocol u) s
       in Some (res, Number (Some (narrow prot)), s)) st"
| "proxy_call lib u (Disconnect h disp) st =
     on_card h Nothing (\<lambda>hc s. let (res, s) = lib_Disconnect lib (scast hc) (narrow disp) s in Some (res, Nothing, s)) st"
| "proxy_call lib u (BeginTransaction h) st =
     on_card h Nothing (\<lambda>hc s. let (res, s) = lib_BeginTransaction lib (scast hc) s in Some (res, Nothing, s)) st"
| "proxy_call lib u (EndTransaction h disp) st =
     on_card h Nothing (\<lambda>hc s. let (res, s) = lib_EndTransaction lib (scast hc) (narrow disp) s in Some (res, Nothing, s)) st"
| "proxy_call lib u (CancelTransaction h) st =
     on_card h Nothing (\<lambda>hc s. let (res, s) = lib_Cancel lib (scast hc) s in Some (res, Nothing, s)) st"
| "proxy_call lib u (Cancel h) st =
     on_card h Nothing (\<lambda>hc s. let (res, s) = lib_Cancel lib (scast (ucast h :: u32)) s in Some (res, Nothing, s)) st"
| "proxy_call lib u (Status h a) st = on_card h (Status_of a) (status_call lib u a) st"
| "proxy_call lib u (GetStatusChange h t rs n) st = on_context h (States rs) (change_call lib t (the rs)) st"
| "proxy_call lib u (Control h code input il out ol n) st =
     on_card h (Data out n) (control_call lib code (the input) out ol) st"
| "proxy_call lib u (Transmit h pci input il a) st =
     on_card h (Response a) (transmit_call lib (the pci) (the input) a) st"
| "proxy_call lib u (GetAttrib h i out n) st = on_card h (Data out n) (attrib_call lib i out (the n)) st"
| "proxy_call lib u (SetAttrib h i input n) st =
     on_card h Nothing (\<lambda>hc s. let (res, s) = lib_SetAttrib lib (scast hc) (narrow i) (the input) s in Some (res, Nothing, s)) st"
| "proxy_call lib u (ListReaders h out n) st = on_context h (Data out n) (list_call (lib_ListReaders lib) out (the n)) st"
| "proxy_call lib u (ListReaderGroups h out n) st =
     on_context h (Data out n) (list_call (lib_ListReaderGroups lib) out (the n)) st"

text \<open>
  The arguments a program may pass: no NULL where a value or buffer is needed, lengths that are those
  of the buffers and fit in a message and in 32 bits.
\<close>

fun args_ok :: "uninit \<Rightarrow> call \<Rightarrow> bool" where
  "args_ok u (Connect h reader share prots) \<longleftrightarrow> (case reader of None \<Rightarrow> False | Some s \<Rightarrow> 0 \<notin> set s)"
| "args_ok u (Status h a) \<longleftrightarrow>
     (case (a_pcchReaderLen a, a_pcbAtrLen a) of
        (Some rl, Some al) \<Rightarrow> unat rl < 2 ^ 32 \<and> unat al < 2 ^ 32 \<and> a_mszReaderName a \<noteq> None \<and> a_pbAtr a \<noteq> None
      | _ \<Rightarrow> False)"
| "args_ok u (GetStatusChange h t rs n) \<longleftrightarrow>
     (case rs of None \<Rightarrow> False
      | Some rs \<Rightarrow> unat n = length rs \<and> (\<forall>r \<in> set rs. wf_readerstate r) \<and>
          21 + 173 * length rs < PP_MAX_MESSAGE_LEN \<and> u_malloc u (sizeof_SCARD_READERSTATE * length rs))"
| "args_ok u (Control h code input il out ol n) \<longleftrightarrow>
     (case input of None \<Rightarrow> False | Some bs \<Rightarrow> unat il = length bs \<and> length bs \<le> PP_MAX_BUFFER_LEN) \<and>
     out \<noteq> None \<and> n \<noteq> None"
| "args_ok u (Transmit h pci input il a) \<longleftrightarrow>
     pci \<noteq> None \<and> (case input of None \<Rightarrow> False
       | Some bs \<Rightarrow> unat il = length bs \<and> 4 \<le> length bs \<and> length bs < max_transmit) \<and>
     (case t_pcbRecvLength a of None \<Rightarrow> False | Some rl \<Rightarrow> unat rl < 2 ^ 32) \<and> t_pbRecvBuffer a \<noteq> None"
| "args_ok u (GetAttrib h i out n) \<longleftrightarrow> out \<noteq> None \<and> (case n of None \<Rightarrow> False | Some al \<Rightarrow> unat al < 2 ^ 32)"
| "args_ok u (SetAttrib h i input n) \<longleftrightarrow>
     (case input of None \<Rightarrow> False | Some bs \<Rightarrow> unat n = length bs \<and> bs \<noteq> [] \<and> length bs \<le> PP_MAX_BUFFER_LEN)"
| "args_ok u (ListReaders h out n) \<longleftrightarrow> (case n of None \<Rightarrow> False | Some len \<Rightarrow> unat len < 2 ^ 31)"
| "args_ok u (ListReaderGroups h out n) \<longleftrightarrow> (case n of None \<Rightarrow> False | Some len \<Rightarrow> unat len < 2 ^ 31)"
| "args_ok u _ \<longleftrightarrow> True"

primrec proxy_calls :: "'s pcsc \<Rightarrow> uninit \<Rightarrow> call list \<Rightarrow> 's proxy \<Rightarrow> (answer list \<times> 's proxy) option" where
  "proxy_calls lib u [] st = Some ([], st)"
| "proxy_calls lib u (x # xs) st =
     (if args_ok u x
      then Option.bind (proxy_call lib u x st) (\<lambda>(a, st). map_option (\<lambda>(as, st). (a # as, st)) (proxy_calls lib u xs st))
      else None)"

text \<open>An application that has not called yet.\<close>

definition no_handles :: "'s \<Rightarrow> 's proxy" where
  "no_handles s = \<lparr>p_contexts = (\<lambda>_. None), p_cards = (\<lambda>_. None), p_open = (\<lambda>_. False), p_state = s\<rparr>"

end
