(* ===== verification/PcscTest.thy ===== *)
theory PcscTest
  imports TransparentData
begin

text \<open>
  The test programs of \<open>src/src/client/pcsctest.c\<close>: applications of the client library that list
  the reader groups (\<open>test1\<close>) and the readers (\<open>test2\<close>, which \<open>main\<close> runs).  Standard output is
  the list of the bytes written to it; messages to standard error are left out.
\<close>

section \<open>The programs\<close>

definition ascii :: "string \<Rightarrow> u8 list" where
  "ascii s = map of_char s"

definition newline :: u8 where
  "newline = 10"

definition SCARD_SCOPE_SYSTEM :: u64 where
  "SCARD_SCOPE_SYSTEM = 2"

definition SCARD_E_INSUFFICIENT_BUFFER :: u64 where
  "SCARD_E_INSUFFICIENT_BUFFER = 0x80100008"

text \<open>
  The loop over the strings of a multi-string, each closed by a zero byte and the whole by an
  empty one; the end of the block without a zero is passed by a read outside of it.
\<close>

function print_strings :: "u8 list \<Rightarrow> u8 list outcome" where
  "print_strings p =
     (case p of
        [] \<Rightarrow> Inl OutOfBounds
      | b # _ \<Rightarrow>
          if b = 0 then Inr []
          else
            (case dropWhile (\<lambda>b. b \<noteq> 0) p of
               [] \<Rightarrow> Inl OutOfBounds
             | _ # q \<Rightarrow>
                 bindo (print_strings q)
                   (\<lambda>out. Inr (ascii '' '' @ takeWhile (\<lambda>b. b \<noteq> 0) p @ [newline] @ out))))"
  by pat_completeness auto
termination
proof (relation "measure length")
  fix p x xs q qs
  assume "p = x # xs" "dropWhile (\<lambda>b. b \<noteq> 0) p = q # (qs :: u8 list)"
  then have "length (q # qs) \<le> length p" by (metis length_dropWhile_le)
  then show "(qs, p) \<in> measure length" by simp
qed simp

declare print_strings.simps [simp del]

definition print_block :: "u8 list option \<Rightarrow> u8 list outcome" where
  "print_block block = (case block of None \<Rightarrow> Inl NullPointer | Some p \<Rightarrow> print_strings p)"

text \<open>\<open>fits\<close> says for which sizes \<open>malloc\<close> succeeds, and \<open>fill\<close> what the new block holds.\<close>

definition test1 :: "(nat \<Rightarrow> bool) \<Rightarrow> u8 \<Rightarrow> u64 \<Rightarrow> 'w platform \<Rightarrow> 'w client \<Rightarrow> (int \<times> u8 list \<times> 'w client) outcome" where
  "test1 fits fill dwGroups pl c =
     bindo (SCardEstablishContext pl SCARD_SCOPE_SYSTEM c) (\<lambda>(rv, h, c).
     if rv \<noteq> SCARD_S_SUCCESS then Inr (2, [], c)
     else
       let hContext = the h in
       bindo (SCardListReaderGroups pl hContext None (Some dwGroups) c) (\<lambda>(rv, (_, dwGroups), c).
       if rv \<noteq> SCARD_S_SUCCESS then Inr (2, [], c)
       else
         let n = unat (the dwGroups);
           mszGroups = (if fits n then Some (replicate n fill) else None) in
         bindo (SCardListReaderGroups pl hContext mszGroups dwGroups c) (\<lambda>(rv, (mszGroups, _), c).
         if rv \<noteq> SCARD_S_SUCCESS then Inr (2, [], c)
         else
           bindo (print_block mszGroups) (\<lambda>out.
           Inr (0, ascii ''Reader Groups:'' @ [newline] @ out, c)))))"

definition test2 :: "(nat \<Rightarrow> bool) \<Rightarrow> 'w platform \<Rightarrow> 'w client \<Rightarrow> (int \<times> u8 list \<times> 'w client) outcome" where
  "test2 fits pl c =
     bindo (SCardEstablishContext pl SCARD_SCOPE_SYSTEM c) (\<lambda>(rv, h, c).
     if rv \<noteq> SCARD_S_SUCCESS then Inr (2, [], c)
     else
       let hContext = the h in
       bindo (SCardListReaders pl hContext None (Some 0) c) (\<lambda>(rv, (_, dwReaders), c).
       if rv \<noteq> SCARD_S_SUCCESS \<and> rv \<noteq> SCARD_E_INSUFFICIENT_BUFFER then Inr (2, [], c)
       else
         let n = unat (the dwReaders);
           mszReaders = (if fits n then Some (replicate n 0) else None) in
         bindo (check (mszReaders \<noteq> None \<or> n = 0) NullPointer) (\<lambda>_.
         bindo (SCardListReaders pl hContext mszReaders dwReaders c) (\<lambda>(rv, (mszReaders, _), c).
         if rv \<noteq> SCARD_S_SUCCESS then Inr (2, [], c)
         else
           bindo (print_block mszReaders) (\<lambda>out.
           let out = ascii ''Readers:'' @ [newline] @ out in
           bindo (SCardReleaseContext pl hContext c) (\<lambda>(rv, c).
           if rv \<noteq> SCARD_S_SUCCESS then Inr (2, out, c) else Inr (0, out, c)))))))"

definition pcsctest_main :: "(nat \<Rightarrow> bool) \<Rightarrow> 'w platform \<Rightarrow> 'w client \<Rightarrow> (int \<times> u8 list \<times> 'w client) outcome" where
  "pcsctest_main fits pl c = test2 fits pl c"

section \<open>Printing a multi-string\<close>

text \<open>The encoding of a list of names, and what is printed for it.\<close>

definition multi_string :: "u8 list list \<Rightarrow> u8 list" where
  "multi_string ns = concat (map (\<lambda>n. n @ [0]) ns) @ [0]"

definition lines_of :: "u8 list list \<Rightarrow> u8 list" where
  "lines_of ns = concat (map (\<lambda>n. ascii '' '' @ n @ [newline]) ns)"

lemma print_multi_string:
  "\<forall>n \<in> set ns. n \<noteq> [] \<and> 0 \<notin> set n \<Longrightarrow> print_strings (multi_string ns @ junk) = Inr (lines_of ns)"
proof (induction ns)
  case Nil
  show ?case by (subst print_strings.simps) (simp add: multi_string_def lines_of_def)
next
  case (Cons n ns)
  from Cons.prems have n: "\<forall>b \<in> set n. b \<noteq> 0" "n \<noteq> []" by auto
  let ?p = "multi_string (n # ns) @ junk"
  have p: "?p = n @ 0 # multi_string ns @ junk" by (simp add: multi_string_def)
  have "dropWhile (\<lambda>b. b \<noteq> 0) ?p = 0 # multi_string ns @ junk" "takeWhile (\<lambda>b. b \<noteq> 0) ?p = n"
    using n(1) by (simp_all add: p dropWhile_append3 dropWhile_append2 takeWhile_append2)
  moreover obtain b t where "n = b # t" "b \<noteq> 0" using n by (cases n) simp_all
  then have "?p = b # t @ 0 # multi_string ns @ junk" "b \<noteq> 0" using p by simp_all
  moreover have "lines_of (n # ns) = ascii '' '' @ n @ [newline] @ lines_of ns" by (simp add: lines_of_def)
  ultimately show ?case using Cons by (subst print_strings.simps) simp
qed


section \<open>What the program prints\<close>

text \<open>The calls change the state of the server only.\<close>

lemma after_session [simp]:
  "linked lib N u pl (after s c) = linked lib N u pl c"
  "context_session pl h i p (after s c) = context_session pl h i p c"
  "contexts_ok pl (after s c) = contexts_ok pl c"
  by (simp_all add: linked_def tls_ops_def context_session_def pp_findContext_def get_context_def contexts_ok_def
      tls_available_def)

text \<open>A size query and the fetch of a list of that size.\<close>

lemma list_readers_twice:
  assumes "linked lib N u pl c" "context_session pl h i p c" "length names = n" "n < 66539"
    and "lib_ListReaders lib (scast (pcScContext p)) False 0 (srv (world c)) = (0, (none, of_nat n), sb)"
    and "lib_ListReaders lib (scast (pcScContext p)) True (of_nat n) sb = (0, (names, of_nat n), sc)"
  shows "SCardListReaders pl h None (Some 0) c = Inr (0, (None, Some (of_nat n)), after sb c)"
    "SCardListReaders pl h (Some (replicate n 0)) (Some (of_nat n)) (after sb c) =
      Inr (0, (Some names, Some (of_nat n)), after sc c)"
proof -
  have small: "n < 2 ^ 31" "n < 2 ^ 32" "n < 2 ^ 64" using assms(4) by simp_all
  have un: "unat (of_nat n :: u64) = n" "(ucast (ucast (of_nat n :: u64) :: u32) :: u64) = of_nat n"
    using small by (simp_all add: unat_of_nat word_unat_eq_iff unat_ucast_32 unat_ucast_64)
  have "lib_ListReaders lib (scast (pcScContext p)) False (of_nat (min (unat (0 :: u64)) 66539)) (srv (world c)) =
      (0, (none, of_nat n), sb)"
    using assms(5) by simp
  from SCardListReaders_size [OF assms(1,2) _ this] un
  show "SCardListReaders pl h None (Some 0) c = Inr (0, (None, Some (of_nat n)), after sb c)" by simp
  have l: "lib_ListReaders lib (scast (pcScContext p)) True (of_nat (min (unat (of_nat n :: u64)) 66539))
      (srv (world (after sb c))) = (0, (names, of_nat n), sc)"
    using assms(4,6) un by (simp add: min_def)
  have "unat (of_nat n :: u64) < 2 ^ 31" "length names = unat (of_nat n :: u64)"
    "length names \<le> unat (of_nat n :: u64)" "length names < 66539" "length names \<le> length (replicate n (0 :: u8))"
    using un(1) small(1) assms(3,4) by (simp_all only: length_replicate order_refl)
  from SCardListReaders_transparent [OF _ _ this(1) l this(2-5)] assms(1-3)
  show "SCardListReaders pl h (Some (replicate n 0)) (Some (of_nat n)) (after sb c) =
      Inr (0, (Some names, Some (of_nat n)), after sc c)"
    by (simp add: drop_all)
qed

text \<open>C20 Run against a server with readers, the test program ends with 0 and prints the name of each
  reader on a line, however the messages are cut on their way: its four calls reach the server's
  library, and the context is released again.\<close>

theorem pcsctest_prints_readers:
  assumes "connectable lib N u pl" "contexts_ok pl c" "inbox (world c) = []" "close_fd pl = (\<lambda>_ w. w)"
    and "pp_createContext pl c = Inr (Some i, c1)"
    and "lib_EstablishContext lib 2 (u_hContext u) (srv (world c)) = (0, hc, sa)"
    and "lib_ListReaders lib (scast (ucast hc :: u32)) False 0 sa = (0, (none, of_nat n), sb)"
    and "lib_ListReaders lib (scast (ucast hc :: u32)) True (of_nat n) sb = (0, (multi_string names, of_nat n), sc)"
    and "lib_ReleaseContext lib (ucast (ucast hc :: u32)) sc = (res, sd)"
    and "n = length (multi_string names)" "n < 66539" "fits n" "\<forall>r \<in> set names. r \<noteq> [] \<and> 0 \<notin> set r"
  shows "\<exists>c'. pcsctest_main fits pl c = Inr (0, ascii ''Readers:'' @ [newline] @ lines_of names, c') \<and>
    srv (world c') = sd \<and> contexts_ok pl c'"
proof -
  let ?h = "ucast (of_nat i + PP_CONTEXT_MAGIC :: u32) :: u64"
  have "lib_EstablishContext lib (ucast (ucast SCARD_SCOPE_SYSTEM :: u32)) (u_hContext u) (srv (world c)) = (0, hc, sa)"
    using assms(6) by (simp add: SCARD_SCOPE_SYSTEM_def)
  from establish_success [OF assms(1-3,5) this] obtain c2 p where
    e: "SCardEstablishContext pl SCARD_SCOPE_SYSTEM c = Inr (0, Some ?h, c2)"
    and c2: "context_session pl ?h i p c2" "pcScContext p = ucast hc" "linked lib N u pl c2" "srv (world c2) = sa"
      "contexts_ok pl c2"
    by auto
  note l = list_readers_twice [OF c2(3,1) assms(10) [symmetric] assms(11), unfolded c2(2,4), OF assms(7,8)]
  have c3: "linked lib N u pl (after sc c2)" "context_session pl ?h i p (after sc c2)" "contexts_ok pl (after sc c2)"
    using c2 by simp_all
  have "lib_ReleaseContext lib (ucast (pcScContext p)) (srv (world (after sc c2))) = (res, sd)"
    using assms(9) c2(2) by simp
  from SCardReleaseContext_result_lost [OF c3 assms(4) this] obtain c' where
    c': "SCardReleaseContext pl ?h (after sc c2) = Inr (SCARD_S_SUCCESS, c')" "srv (world c') = sd" "contexts_ok pl c'"
    by blast
  have "unat (of_nat n :: u64) = n" using assms(11) by (simp add: unat_of_nat)
  moreover have "print_strings (multi_string names) = Inr (lines_of names)"
    using print_multi_string [of names "[]"] assms(13) by simp
  ultimately show ?thesis using e l c' assms(12)
    by (auto simp: pcsctest_main_def test2_def SCARD_S_SUCCESS_def print_block_def Let_def)
qed

lemma pcsctest_prints_readers_witness:
  "\<exists>c'. pcsctest_main (\<lambda>_. True) demo_pl (fresh_client demo_link) =
      Inr (0, ascii ''Readers:'' @ [newline] @ ascii '' R1'' @ [newline], c') \<and> srv (world c') = 4"
proof -
  have m: "multi_string [[82, 49]] = [82, 49, 0, 0]" by (simp add: multi_string_def)
  have lib: "lib_EstablishContext demo_lib 2 (u_hContext demo_uninit) (srv (world (fresh_client demo_link))) = (0, 0x1001, 1)"
    "lib_ListReaders demo_lib (scast (ucast (0x1001 :: u64) :: u32)) False 0 1 = (0, ([], of_nat 4), 2)"
    "lib_ListReaders demo_lib (scast (ucast (0x1001 :: u64) :: u32)) True (of_nat 4) 2 =
      (0, (multi_string [[82, 49]], of_nat 4), 3)"
    "lib_ReleaseContext demo_lib (ucast (ucast (0x1001 :: u64) :: u32)) 3 = (0, 4)"
    by (simp_all add: fresh_link m)
  have "4 = length (multi_string [[82, 49]])" "(4 :: nat) < 66539"
    "\<forall>r \<in> set [[82, 49 :: u8]]. r \<noteq> [] \<and> 0 \<notin> set r" "close_fd demo_pl = (\<lambda>_ w. w)"
    by (simp_all add: m)
  from pcsctest_prints_readers [OF demo_connectable fresh_contexts_ok fresh_link(1) this(4) fresh_createContext
      lib this(1,2) _ this(3), of "\<lambda>_. True"]
  show ?thesis by (simp add: lines_of_def ascii_def) blast
qed

end
