(* ===== verification/Programs.thy ===== *)
theory Programs
  imports Proxy PcscTest
begin

text \<open>
  Whole programs of PC/SC calls: the client library, its tables and its messages, against a server
  behind any network that loses nothing, answers every program as the specification in \<open>Proxy\<close>
  does.  The state of the specification is a function of the client's.
\<close>

section \<open>The view of a client\<close>

definition view :: "'s link client \<Rightarrow> 's proxy" where
  "view c =
     \<lparr>p_contexts = (\<lambda>i. if context_used c i then Some (pcScContext (context_slots c ! i)) else None),
      p_cards = (\<lambda>k. if card_used c k
        then map_option (\<lambda>i. (pcScHandle (card_slots c ! k), i)) (clientContext (card_slots c ! k)) else None),
      p_open = (\<lambda>i. i < PP_MAX_CONTEXT \<and> tlsSession (context_slots c ! i) \<noteq> None),
      p_state = srv (world c)\<rparr>"

text \<open>The installation, and the invariant of a client in it.\<close>

definition installed :: "'s pcsc \<Rightarrow> network \<Rightarrow> uninit \<Rightarrow> 's link platform \<Rightarrow> bool" where
  "installed lib N u pl \<longleftrightarrow>
     connectable lib N u pl \<and> close_fd pl = (\<lambda>_ w. w) \<and> credentials pl"

definition proxy_ok :: "'s link platform \<Rightarrow> 's link client \<Rightarrow> bool" where
  "proxy_ok pl c \<longleftrightarrow>
     client_ok pl c \<and> inbox (world c) = [] \<and> (pp_context_array c \<noteq> None \<longrightarrow> g_tlsopts c \<noteq> None) \<and>
     (\<forall>i. context_used c i \<longrightarrow> tlsSession (context_slots c ! i) \<noteq> None)"

lemma view_after [simp]: "view (after s c) = (view c)\<lparr>p_state := s\<rparr>"
  by (simp add: view_def fun_eq_iff context_used_def card_used_def context_slots_def card_slots_def)

lemma proxy_ok_after [simp]: "proxy_ok pl (after s c) = proxy_ok pl c"
  by (simp add: proxy_ok_def context_used_def context_slots_def)

lemma view_state [simp]: "p_state (view c) = srv (world c)"
  by (simp add: view_def)

lemma proxy_ok_tables: "proxy_ok pl c \<Longrightarrow> contexts_ok pl c" "proxy_ok pl c \<Longrightarrow> cards_ok pl c"
  by (simp_all add: proxy_ok_def client_ok_def)

lemma proxy_linked:
  "installed lib N u pl \<Longrightarrow> proxy_ok pl c \<Longrightarrow> pp_context_array c \<noteq> None \<Longrightarrow> linked lib N u pl c"
  by (auto simp: installed_def connectable_def proxy_ok_def linked_def tls_ops_def)

section \<open>Finding what a handle names\<close>

lemma slot_handle:
  "ucast h = of_nat (context_slot h) + PP_CONTEXT_MAGIC" "ucast h = of_nat (card_slot h) + PP_CARD_MAGIC"
  using magic_handle [of "ucast h" PP_CONTEXT_MAGIC "context_slot h"] magic_handle [of "ucast h" PP_CARD_MAGIC "card_slot h"]
  by (simp_all add: context_slot_def card_slot_def)

lemma context_missing:
  assumes "proxy_ok pl c" "context_slot h \<noteq> PP_MAX_CONTEXT" "p_contexts (view c) (context_slot h) = None"
  shows "pp_findContext pl (ucast h) c = Inr None"
  using assms find_context_Inr [OF proxy_ok_tables(1) [OF assms(1)], of "ucast h" None]
  by (simp add: view_def context_slot_def split: if_splits)

lemma context_named:
  assumes "installed lib N u pl" "proxy_ok pl c" "p_contexts (view c) (context_slot h) = Some hc"
  obtains i p where "context_session pl h i p c" "linked lib N u pl c" "pcScContext p = hc" "i = context_slot h"
    "ucast h = of_nat i + PP_CONTEXT_MAGIC"
proof -
  let ?i = "context_slot h"
  have u: "context_used c ?i" and hc: "hc = pcScContext (context_slots c ! ?i)"
    using assms(3) by (simp_all add: view_def split: if_splits)
  note t = proxy_ok_tables(1) [OF assms(2)]
  note h = slot_handle(1) [of h]
  from u obtain arr where arr: "pp_context_array c = Some arr" "?i < 64"
    by (auto simp: context_used_def split: option.splits)
  have "length arr = 64" using t arr(1) by (simp add: contexts_ok_def)
  with arr have "get_context ?i c = Inr (context_slots c ! ?i)" by (simp add: get_context_def context_slots_def)
  moreover have "pp_findContext pl (ucast h) c = Inr (Some ?i)"
    using contexts.find_iff [OF t] u h by blast
  moreover have "tlsSession (context_slots c ! ?i) \<noteq> None" using assms(2) u by (simp add: proxy_ok_def)
  ultimately show thesis
    using that [of ?i "context_slots c ! ?i"] proxy_linked [OF assms(1,2)] arr(1) hc h
    by (simp add: context_session_def)
qed

text \<open>A card in the table whose context has no connection.\<close>

definition card_offline :: "'w platform \<Rightarrow> u64 \<Rightarrow> PP_CARD_CONTEXT \<Rightarrow> 'w client \<Rightarrow> bool" where
  "card_offline pl hCard cd c \<longleftrightarrow>
     (\<exists>k i p. pp_findCard pl (ucast hCard) c = Inr (Some k) \<and> get_card k c = Inr cd \<and>
        clientContext cd = Some i \<and> get_context i c = Inr p \<and> tlsSession p = None)"

lemma card_missing:
  assumes "proxy_ok pl c" "card_slot h \<noteq> PP_MAX_CONTEXT" "p_cards (view c) (card_slot h) = None"
  shows "pp_findCard pl (ucast h) c = Inr None"
proof -
  have "\<not> card_used c (card_slot h)"
    using assms(1,3) by (auto simp: view_def proxy_ok_def client_ok_def split: if_splits)
  then show ?thesis
    using assms(2) find_card_Inr [OF proxy_ok_tables(2) [OF assms(1)], of "ucast h" None]
    by (simp add: card_slot_def)
qed

lemma card_named:
  assumes "installed lib N u pl" "proxy_ok pl c" "p_cards (view c) (card_slot h) = Some (hc, i)"
  obtains cd where "linked lib N u pl c" "pcScHandle cd = hc"
    "if p_open (view c) i then card_session pl h cd c else card_offline pl h cd c"
proof -
  let ?k = "card_slot h"
  let ?cd = "card_slots c ! ?k"
  have u: "card_used c ?k" and hc: "hc = pcScHandle ?cd" and i: "clientContext ?cd = Some i"
    using assms(3) by (auto simp: view_def split: if_splits)
  have ok: "client_ok pl c" using assms(2) by (simp add: proxy_ok_def)
  with u i obtain xs where xs: "pp_context_array c = Some xs" "i < 64" by (auto simp: client_ok_def)
  note h = slot_handle(2) [of h]
  from u obtain arr where arr: "pp_card_array c = Some arr" "?k < 64"
    by (auto simp: card_used_def split: option.splits)
  have len: "length xs = 64" "length arr = 64"
    using ok xs(1) arr(1) cards_ok_array [of pl c arr] by (simp_all add: client_ok_def contexts_ok_def)
  have "get_card ?k c = Inr ?cd" "get_context i c = Inr (context_slots c ! i)"
    using arr xs len by (simp_all add: get_card_def get_context_def card_slots_def context_slots_def)
  moreover have "pp_findCard pl (ucast h) c = Inr (Some ?k)"
    using cards.find_iff [OF proxy_ok_tables(2) [OF assms(2)]] u h by blast
  ultimately have "if p_open (view c) i then card_session pl h ?cd c else card_offline pl h ?cd c"
    using i xs(2) by (auto simp: view_def card_session_def card_offline_def)
  with that [of ?cd] proxy_linked [OF assms(1,2)] xs(1) hc show thesis by simp
qed


section \<open>Calls on a context and on a card\<close>

text \<open>What a call does and what the specification says agree, and the invariant holds.\<close>

definition agrees :: "'s link platform \<Rightarrow> (answer \<times> 's link client) outcome \<Rightarrow> (answer \<times> 's proxy) option \<Rightarrow> bool" where
  "agrees pl x y \<longleftrightarrow>
     (\<forall>a st. y = Some (a, st) \<longrightarrow> (\<exists>c. x = Inr (a, c) \<and> view c = st \<and> proxy_ok pl c))"

lemma agrees_same: "proxy_ok pl c \<Longrightarrow> x = Inr (a, c) \<Longrightarrow> agrees pl x (Some (a, view c))"
  by (simp add: agrees_def)

lemma context_call_agrees:
  assumes "installed lib N u pl" "proxy_ok pl c"
    and "pp_findContext pl (ucast h) c = Inr None \<Longrightarrow> x = Inr ((SCARD_F_INTERNAL_ERROR, none), c)"
    and "\<And>i p res out s. context_session pl h i p c \<Longrightarrow> linked lib N u pl c \<Longrightarrow>
      f (pcScContext p) (srv (world c)) = Some (res, out, s) \<Longrightarrow> x = Inr ((narrow res, out), after s c)"
  shows "agrees pl x (on_context h none f (view c))"
proof (cases "context_slot h = PP_MAX_CONTEXT")
  case False
  show ?thesis
  proof (cases "p_contexts (view c) (context_slot h)")
    case None
    with False assms(2,3) context_missing [OF assms(2) False] show ?thesis
      by (simp add: on_context_def agrees_def)
  next
    case (Some hc)
    from context_named [OF assms(1,2) this] obtain i p where
      "context_session pl h i p c" "linked lib N u pl c" "pcScContext p = hc" by metis
    with False Some assms(2,4) show ?thesis
      by (auto simp: on_context_def agrees_def)
  qed
qed (simp add: on_context_def agrees_def)

lemma card_call_agrees:
  assumes "installed lib N u pl" "proxy_ok pl c"
    and "pp_findCard pl (ucast h) c = Inr None \<Longrightarrow> x = Inr ((SCARD_E_INVALID_VALUE, none), c)"
    and "\<And>cd. card_offline pl h cd c \<Longrightarrow> x = Inr ((SCARD_F_INTERNAL_ERROR, none), c)"
    and "\<And>cd res out s. card_session pl h cd c \<Longrightarrow> linked lib N u pl c \<Longrightarrow>
      f (pcScHandle cd) (srv (world c)) = Some (res, out, s) \<Longrightarrow> x = Inr ((narrow res, out), after s c)"
  shows "agrees pl x (on_card h none f (view c))"
proof (cases "card_slot h = PP_MAX_CONTEXT")
  case False
  show ?thesis
  proof (cases "p_cards (view c) (card_slot h)")
    case None
    with False assms(2,3) card_missing [OF assms(2) False] show ?thesis
      by (simp add: on_card_def agrees_def)
  next
    case (Some ci)
    obtain hc i where ci: "ci = (hc, i)" by (cases ci)
    from card_named [OF assms(1,2) Some [unfolded ci]] obtain cd where
      "linked lib N u pl c" "pcScHandle cd = hc"
      "if p_open (view c) i then card_session pl h cd c else card_offline pl h cd c" by metis
    with False Some ci assms(2,4,5) show ?thesis
      by (auto simp: on_card_def agrees_def split: if_splits)
  qed
qed (simp add: on_card_def agrees_def)

text \<open>Without a connection no message but the first of a context is sent.\<close>

lemma offline_exchange:
  assumes "card_offline pl h cd c"
  obtains k where "pp_findCard pl (ucast h) c = Inr (Some k)" "get_card k c = Inr cd"
    "\<And>m. msg_type m \<noteq> command_code SCARD_ESTABLISH_CONTEXT \<Longrightarrow> card_exchange pl cd m c = Inr (-1, m, c)"
  using assms by (auto simp: card_offline_def card_exchange_def pp_exchangeMsg_def)

lemma plain_card_calls_agree:
  assumes "installed lib N u pl" "proxy_ok pl c"
  shows "agrees pl (perform pl (Reconnect h share prots ini) c) (proxy_call lib u (Reconnect h share prots ini) (view c))"
    "agrees pl (perform pl (Disconnect h disp) c) (proxy_call lib u (Disconnect h disp) (view c))"
    "agrees pl (perform pl (BeginTransaction h) c) (proxy_call lib u (BeginTransaction h) (view c))"
    "agrees pl (perform pl (EndTransaction h disp) c) (proxy_call lib u (EndTransaction h disp) (view c))"
    "agrees pl (perform pl (CancelTransaction h) c) (proxy_call lib u (CancelTransaction h) (view c))"
    "agrees pl (perform pl (Cancel h) c) (proxy_call lib u (Cancel h) (view c))"
  unfolding proxy_call.simps
  by (rule card_call_agrees [OF assms];
      (erule offline_exchange)?;
      force simp: coded_def storing_def narrow_def msg_simps command_code_inj
        SCardReconnect_def SCardDisconnect_def SCardBeginTransaction_def SCardEndTransaction_def
        SCardCancelTransaction_def SCardCancel_def
        dest: SCardReconnect_transparent SCardDisconnect_transparent SCardBeginTransaction_transparent
          SCardEndTransaction_transparent SCardCancelTransaction_transparent SCardCancel_unmapped
        split: prod.splits)+


lemma capacity_Some [simp]: "capacity (Some d) = length d" "capacity None = 0"
  by (simp_all add: capacity_def)

lemma front_Some [simp]: "front bs (Some d) = Some (bs @ drop (length bs) d)"
  by (simp add: front_def)

lemma plain_context_calls_agree:
  assumes "installed lib N u pl" "proxy_ok pl c"
  shows "agrees pl (perform pl (IsValidContext h) c) (proxy_call lib u (IsValidContext h) (view c))"
    "agrees pl (perform pl (SetTimeout h t) c) (proxy_call lib u (SetTimeout h t) (view c))"
proof -
  show "agrees pl (perform pl (IsValidContext h) c) (proxy_call lib u (IsValidContext h) (view c))"
    unfolding proxy_call.simps
    by (rule context_call_agrees [OF assms];
      force simp: coded_def narrow_def SCardIsValidContext_def dest: SCardIsValidContext_transparent split: prod.splits)
  show "agrees pl (perform pl (SetTimeout h t) c) (proxy_call lib u (SetTimeout h t) (view c))"
    unfolding proxy_call.simps
    by (rule context_call_agrees [OF assms])
      (simp add: coded_def SCardSetTimeout_def,
       auto simp: coded_def narrow_def SCARD_S_SUCCESS_def SCardSetTimeout_ignored)
qed

lemma control_agrees:
  assumes "installed lib N u pl" "proxy_ok pl c" "args_ok u (Control h code input il out ol n)"
  shows "agrees pl (perform pl (Control h code input il out ol n) c)
    (proxy_call lib u (Control h code input il out ol n) (view c))"
proof -
  from assms(3) obtain bs d k where a: "input = Some bs" "out = Some d" "n = Some k" "unat il = length bs"
    "length bs \<le> PP_MAX_BUFFER_LEN" by (auto split: option.splits)
  have il: "\<not> of_nat PP_MAX_BUFFER_LEN < il" using a(4,5) by (simp add: word_less_nat_alt)
  show ?thesis
    unfolding proxy_call.simps perform.simps
  proof (rule card_call_agrees [OF assms(1,2)])
    fix cd assume "card_offline pl h cd c"
    then show "storing (\<lambda>(b, n). Data b n) (SCardControl pl h code input il out ol n c) =
        Inr ((SCARD_F_INTERNAL_ERROR, Data out n), c)"
      using a il by (elim offline_exchange)
        (simp add: storing_def SCardControl_def app_bytes_def msg_simps command_code_inj)
  next
    fix cd res stored s
    assume cd: "card_session pl h cd c" "linked lib N u pl c"
      and f: "control_call lib code (the input) out ol (pcScHandle cd) (srv (world c)) = Some (res, stored, s)"
    obtain b l where l: "lib_Control lib (scast (pcScHandle cd)) (ucast (ucast code :: u32)) bs
        (of_nat (min (unat ol) PP_MAX_BUFFER_LEN)) 0 (srv (world c)) = (res, b, l, s)"
      "length b = unat l" "length b \<le> min (unat ol) PP_MAX_BUFFER_LEN" "length b \<le> length d"
      "stored = Data (Some (b @ drop (length b) d)) (Some l)"
      using f a by (auto simp: control_call_def narrow_def Let_def split: prod.splits if_splits)
    from SCardControl_transparent [OF cd(2,1) a(4,5) l(1-4)] l(5) a(1-3)
    show "storing (\<lambda>(b, n). Data b n) (SCardControl pl h code input il out ol n c) =
        Inr ((narrow res, stored), after s c)"
      by (simp add: storing_def narrow_def)
  qed (use a in \<open>simp add: storing_def SCardControl_def\<close>)
qed

lemma attrib_agrees:
  assumes "installed lib N u pl" "proxy_ok pl c" "args_ok u (GetAttrib h i out n)"
  shows "agrees pl (perform pl (GetAttrib h i out n) c) (proxy_call lib u (GetAttrib h i out n) (view c))"
proof -
  from assms(3) obtain d al where a: "out = Some d" "n = Some al" "unat al < 2 ^ 32"
    by (auto split: option.splits)
  show ?thesis
    unfolding proxy_call.simps perform.simps
  proof (rule card_call_agrees [OF assms(1,2)])
    fix cd assume "card_offline pl h cd c"
    then show "storing (\<lambda>(b, n). Data b n) (SCardGetAttrib pl h i out n c) =
        Inr ((SCARD_F_INTERNAL_ERROR, Data out n), c)"
      using a not_autoallocate [OF a(3)] by (elim offline_exchange)
        (simp add: storing_def SCardGetAttrib_def msg_simps command_code_inj)
  next
    fix cd res stored s
    assume cd: "card_session pl h cd c" "linked lib N u pl c"
      and f: "attrib_call lib i out (the n) (pcScHandle cd) (srv (world c)) = Some (res, stored, s)"
    obtain b l where l: "lib_GetAttrib lib (scast (pcScHandle cd)) (ucast (ucast i :: u32))
        (of_nat (min (unat al) PP_MAX_BUFFER_LEN)) (srv (world c)) = (res, (b, l), s)"
      "length b = unat l" "length b \<le> PP_MAX_BUFFER_LEN" "length b \<le> length d"
      "stored = Data (Some (b @ drop (length b) d)) (Some l)"
      using f a by (auto simp: attrib_call_def narrow_def Let_def split: prod.splits if_splits)
    from SCardGetAttrib_transparent [OF cd(2,1) a(3) l(1-4)] l(5) a(1,2)
    show "storing (\<lambda>(b, n). Data b n) (SCardGetAttrib pl h i out n c) = Inr ((narrow res, stored), after s c)"
      by (simp add: storing_def narrow_def)
  qed (use a in \<open>simp add: storing_def SCardGetAttrib_def\<close>)
qed

lemma set_attrib_agrees:
  assumes "installed lib N u pl" "proxy_ok pl c" "args_ok u (SetAttrib h i input n)"
  shows "agrees pl (perform pl (SetAttrib h i input n) c) (proxy_call lib u (SetAttrib h i input n) (view c))"
proof -
  from assms(3) obtain bs where a: "input = Some bs" "unat n = length bs" "bs \<noteq> []" "length bs \<le> PP_MAX_BUFFER_LEN"
    by (auto split: option.splits)
  have n: "\<not> of_nat PP_MAX_BUFFER_LEN < n" "n \<noteq> 0"
    using a(2-4) by (auto simp: word_less_nat_alt)
  show ?thesis
    unfolding proxy_call.simps perform.simps
  proof (rule card_call_agrees [OF assms(1,2)])
    fix cd assume "card_offline pl h cd c"
    then show "coded (SCardSetAttrib pl h i input n c) = Inr ((SCARD_F_INTERNAL_ERROR, Nothing), c)"
      using a n by (elim offline_exchange)
        (simp add: coded_def SCardSetAttrib_def app_bytes_def msg_simps command_code_inj)
  next
    fix cd res stored s
    assume cd: "card_session pl h cd c" "linked lib N u pl c"
      and "(let (res, s) = lib_SetAttrib lib (scast (pcScHandle cd)) (narrow i) (the input) (srv (world c))
        in Some (res, Nothing, s)) = Some (res, stored, s)"
    then have l: "lib_SetAttrib lib (scast (pcScHandle cd)) (ucast (ucast i :: u32)) bs (srv (world c)) = (res, s)"
      "stored = Nothing" using a by (auto simp: narrow_def split: prod.splits)
    from SCardSetAttrib_transparent [OF cd(2,1) a(2-4) l(1)] l(2) a(1)
    show "coded (SCardSetAttrib pl h i input n c) = Inr ((narrow res, stored), after s c)"
      by (simp add: coded_def narrow_def)
  qed (use a in \<open>simp add: coded_def SCardSetAttrib_def\<close>)
qed


lemma status_agrees:
  assumes "installed lib N u pl" "proxy_ok pl c" "args_ok u (Status h a)"
  shows "agrees pl (perform pl (Status h a) c) (proxy_call lib u (Status h a) (view c))"
proof -
  from assms(3) obtain rl al dn da where a: "a_pcchReaderLen a = Some rl" "a_pcbAtrLen a = Some al"
    "unat rl < 2 ^ 32" "unat al < 2 ^ 32" "a_mszReaderName a = Some dn" "a_pbAtr a = Some da"
    by (auto split: option.splits)
  show ?thesis
    unfolding proxy_call.simps perform.simps
  proof (rule card_call_agrees [OF assms(1,2)])
    fix cd assume "card_offline pl h cd c"
    then show "storing Status_of (SCardStatus pl h a c) = Inr ((SCARD_F_INTERNAL_ERROR, Status_of a), c)"
      using a not_autoallocate [OF a(3)] not_autoallocate [OF a(4)]
      by (elim offline_exchange) (simp add: storing_def SCardStatus_def msg_simps command_code_inj)
  next
    fix cd res stored s
    assume cd: "card_session pl h cd c" "linked lib N u pl c"
      and f: "status_call lib u a (pcScHandle cd) (srv (world c)) = Some (res, stored, s)"
    obtain name nlen state proto atr alen where
      l: "lib_Status lib (scast (pcScHandle cd)) (of_nat (min (unat rl) 128)) (of_nat (min (unat al) 33))
        (u_dwState u, u_dwProtocol u) (srv (world c)) = (res, (name, nlen), (state, proto), (atr, alen), s)"
      "length name = unat nlen" "length name \<le> min (unat rl) 128" "length name \<le> length dn"
      "length atr = unat alen" "length atr \<le> min (unat al) 33" "length atr \<le> length da"
      and out: "stored = Status_of \<lparr>a_mszReaderName = Some (name @ drop (length name) dn), a_pcchReaderLen = Some nlen,
        a_pdwState = map_option (\<lambda>_. narrow state) (a_pdwState a),
        a_pdwProtocol = map_option (\<lambda>_. narrow proto) (a_pdwProtocol a),
        a_pbAtr = Some (atr @ drop (length atr) da), a_pcbAtrLen = Some alen\<rparr>"
      using f a by (auto simp: status_call_def Let_def split: prod.splits if_splits)
    from SCardStatus_transparent [OF cd(2,1) a l] out
    show "storing Status_of (SCardStatus pl h a c) = Inr ((narrow res, stored), after s c)"
      by (simp add: storing_def narrow_def)
  qed (simp add: storing_def SCardStatus_def)
qed

lemma narrow_internal: "narrow SCARD_F_INTERNAL_ERROR = SCARD_F_INTERNAL_ERROR"
  by (simp add: narrow_def SCARD_F_INTERNAL_ERROR_def)

lemma transmit_agrees:
  assumes "installed lib N u pl" "proxy_ok pl c" "args_ok u (Transmit h pci input il a)"
  shows "agrees pl (perform pl (Transmit h pci input il a) c) (proxy_call lib u (Transmit h pci input il a) (view c))"
proof -
  from assms(3) obtain sp bs rl d where a: "pci = Some sp" "input = Some bs"
    "unat il = length bs" "4 \<le> length bs" "length bs < max_transmit"
    "t_pcbRecvLength a = Some rl" "t_pbRecvBuffer a = Some d" "unat rl < 2 ^ 32"
    by (auto split: option.splits)
  have il: "\<not> of_nat max_transmit < il" "\<not> il < 4" using a(3-5) by (simp_all add: word_less_nat_alt)
  show ?thesis
    unfolding proxy_call.simps perform.simps
  proof (rule card_call_agrees [OF assms(1,2)])
    fix cd assume "card_offline pl h cd c"
    then obtain k where k: "pp_findCard pl (ucast h) c = Inr (Some k)" "get_card k c = Inr cd"
      "\<And>m. msg_type m \<noteq> command_code SCARD_ESTABLISH_CONTEXT \<Longrightarrow> card_exchange pl cd m c = Inr (-1, m, c)"
      by (rule offline_exchange) blast
    have "app_bytes (unat il) (Some bs) = Inr bs" using a(3,4) by (auto simp: app_bytes_def)
    with k a il show "storing Response (SCardTransmit pl h pci input il a c) =
        Inr ((SCARD_F_INTERNAL_ERROR, Response a), c)"
      by (simp add: storing_def SCardTransmit_def msg_simps command_code_inj split: option.splits)
  next
    fix cd res stored s
    assume cd: "card_session pl h cd c" "linked lib N u pl c"
      and f: "transmit_call lib (the pci) (the input) a (pcScHandle cd) (srv (world c)) = Some (res, stored, s)"
    obtain res' rp out outlen where
      l: "lib_Transmit lib (scast (pcScHandle cd)) (pci32 sp) bs
          (pci32 (case t_pioRecvPci a of None \<Rightarrow> no_pci | Some p \<Rightarrow> p))
          (of_nat (min (unat rl) max_transmit)) (srv (world c)) = (res', rp, (out, outlen), s)"
      using f a by (auto simp: transmit_call_def Let_def split: prod.splits if_splits)
    consider (fits) "length out = unat outlen" "unat outlen \<le> unat rl" "unat outlen < max_transmit"
        "length out \<le> length d" "res = res'"
        "stored = Response (a\<lparr>t_pioRecvPci := map_option (\<lambda>_. pci32 rp) (t_pioRecvPci a),
          t_pbRecvBuffer := Some (out @ drop (length out) d), t_pcbRecvLength := Some outlen\<rparr>)"
      | (long) "length out \<le> unat rl" "unat rl < unat outlen" "unat outlen < max_transmit"
        "res = SCARD_F_INTERNAL_ERROR" "stored = Response a"
      using f a(1,2,6,7) l by (simp add: transmit_call_def Let_def capacity_def front_def split: if_splits)
    then show "storing Response (SCardTransmit pl h pci input il a c) = Inr ((narrow res, stored), after s c)"
    proof cases
      case fits
      from transmit_transparent [OF cd(2,1) a(3-8) l fits(1-4)] fits(5,6) a(1,2) show ?thesis
        by (simp add: storing_def narrow_def)
    next
      case long
      from transmit_too_long [OF cd(2,1) a(3-6,8) l long(1-3)] long(4,5) a(1,2) show ?thesis
        by (simp add: storing_def narrow_internal)
    qed
  qed (simp add: storing_def SCardTransmit_def)
qed

lemma change_agrees:
  assumes "installed lib N u pl" "proxy_ok pl c" "args_ok u (GetStatusChange h t rs n)"
  shows "agrees pl (perform pl (GetStatusChange h t rs n) c) (proxy_call lib u (GetStatusChange h t rs n) (view c))"
proof -
  from assms(3) obtain xs where a: "rs = Some xs" "unat n = length xs" "\<forall>r \<in> set xs. wf_readerstate r"
    "21 + 173 * length xs < PP_MAX_MESSAGE_LEN" "u_malloc u (sizeof_SCARD_READERSTATE * length xs)"
    by (auto split: option.splits)
  show ?thesis
    unfolding proxy_call.simps perform.simps
  proof (rule context_call_agrees [OF assms(1,2)])
    fix i p res stored s
    assume x: "context_session pl h i p c" "linked lib N u pl c"
      and f: "change_call lib t (the rs) (pcScContext p) (srv (world c)) = Some (res, stored, s)"
    obtain ls where l: "lib_GetStatusChange lib (ucast (pcScContext p)) (ucast (ucast t :: u32))
        (map arrived_readerstate xs) (srv (world c)) = (res, ls, s)"
      "length ls = length xs" "\<forall>l \<in> set ls. length (rgbAtr l) = MAX_ATR_SIZE"
      "stored = States (Some (map2 returned_readerstate ls xs))"
      using f a(1) by (auto simp: change_call_def narrow_def split: prod.splits if_splits)
    from status_change_transparent [OF x(2,1) a(2-5) l(1-3)] l(4) a(1)
    show "storing States (SCardGetStatusChange pl h t rs n c) = Inr ((narrow res, stored), after s c)"
      by (simp add: storing_def narrow_def)
  qed (simp add: storing_def SCardGetStatusChange_def)
qed

lemma list_call_Some:
  assumes "list_call L (Some d) len hc s = Some (res, stored, s')"
  obtains (fits) out outlen where "L (scast hc) True (of_nat (min (unat len) 66539)) s = (res, (out, outlen), s')"
    "length out = unat outlen" "length out \<le> unat len" "length out < 66539" "length out \<le> length d"
    "stored = Data (Some (out @ drop (length out) d)) (Some len)"
  | (long) res' out outlen where "L (scast hc) True (of_nat (unat len)) s = (res', (out, outlen), s')"
    "length out \<le> unat outlen" "unat len < unat outlen" "unat outlen < 66539"
    "res = SCARD_F_INTERNAL_ERROR" "stored = Data (Some d) (Some len)"
  using assms by (auto simp: list_call_def Let_def capacity_def front_def split: prod.splits if_splits)

lemma list_call_None:
  assumes "list_call L None len hc s = Some (res, stored, s')"
  obtains out outlen where "L (scast hc) False (of_nat (min (unat len) 66539)) s = (res, (out, outlen), s')"
    "stored = Data None (Some (narrow outlen))"
  using assms by (auto simp: list_call_def Let_def split: prod.splits)

lemma lists_agree:
  assumes "installed lib N u pl" "proxy_ok pl c" "unat len < 2 ^ 31"
  shows "agrees pl (perform pl (ListReaders h out (Some len)) c) (proxy_call lib u (ListReaders h out (Some len)) (view c))"
    "agrees pl (perform pl (ListReaderGroups h out (Some len)) c)
      (proxy_call lib u (ListReaderGroups h out (Some len)) (view c))"
proof -
  show "agrees pl (perform pl (ListReaders h out (Some len)) c) (proxy_call lib u (ListReaders h out (Some len)) (view c))"
    unfolding proxy_call.simps perform.simps
    by (rule context_call_agrees [OF assms(1,2)], simp add: storing_def SCardListReaders_def, cases out)
      (auto simp: storing_def narrow_internal simp flip: narrow_def elim!: list_call_Some list_call_None
        dest: SCardListReaders_transparent [OF _ _ assms(3)] SCardListReaders_too_long [OF _ _ assms(3), where d = "the out"]
          SCardListReaders_size [OF _ _ assms(3)])
  show "agrees pl (perform pl (ListReaderGroups h out (Some len)) c)
      (proxy_call lib u (ListReaderGroups h out (Some len)) (view c))"
    unfolding proxy_call.simps perform.simps
    by (rule context_call_agrees [OF assms(1,2)], simp add: storing_def SCardListReaderGroups_def, cases out)
      (auto simp: storing_def narrow_internal simp flip: narrow_def elim!: list_call_Some list_call_None
        dest: SCardListReaderGroups_transparent [OF _ _ assms(3)] SCardListReaderGroups_too_long [OF _ _ assms(3), where d = "the out"]
          SCardListReaderGroups_size [OF _ _ assms(3)])
qed


section \<open>Calls that change a table\<close>

text \<open>What the specification sees of a write to one slot.\<close>

definition context_written :: "'w client \<Rightarrow> nat \<Rightarrow> PP_CLIENT_CONTEXT \<Rightarrow> tls_kind \<Rightarrow> net_kind option \<Rightarrow> 'w client" where
  "context_written c i q k l =
     c\<lparr>pp_context_locked := False, pp_context_array := Some ((context_slots c)[i := q]), g_tlsopts := Some k, g_opts := l\<rparr>"

lemma written_slots [simp]:
  "context_slots (context_written c i q k l) = (context_slots c)[i := q]"
  "card_slots (context_written c i q k l) = card_slots c" "card_used (context_written c i q k l) = card_used c"
  by (simp_all add: context_written_def context_slots_def card_slots_def fun_eq_iff card_used_def)

lemma written_world: "world (context_written c i q k l) = world c"
  by (simp add: context_written_def)

lemma written_used:
  "length (context_slots c) = 64 \<Longrightarrow> i < 64 \<Longrightarrow>
    context_used (context_written c i q k l) = (context_used c)(i := (ctx_id q \<noteq> 0))"
  by (auto simp: fun_eq_iff context_used_slots nth_list_update)

lemma written_view:
  assumes "proxy_ok pl c" "i < 64"
  shows "view (context_written c i q k l) = (view c)\<lparr>
    p_contexts := (p_contexts (view c))(i := (if ctx_id q = 0 then None else Some (pcScContext q))),
    p_open := (p_open (view c))(i := (tlsSession q \<noteq> None))\<rparr>"
proof -
  have len: "length (context_slots c) = 64"
    using context_slots_ok [OF proxy_ok_tables(1) [OF assms(1)]] by simp
  with assms(2) show ?thesis
    by (auto simp: view_def written_used [OF len assms(2)] written_world fun_eq_iff nth_list_update context_used_slots)
qed

lemma written_ok:
  assumes "proxy_ok pl c" "i < 64" "ctx_id q = 0 \<or> ctx_id q = of_nat i + PP_CONTEXT_MAGIC \<and> tlsSession q \<noteq> None"
  shows "proxy_ok pl (context_written c i q k l)"
proof -
  let ?c = "context_written c i q k l"
  note t = proxy_ok_tables(1) [OF assms(1)] and ok = context_slots_ok [OF proxy_ok_tables(1) [OF assms(1)]]
  have "ctx_id ((context_slots c)[i := q] ! j) = 0 \<or> ctx_id ((context_slots c)[i := q] ! j) = of_nat j + PP_CONTEXT_MAGIC"
    if "j < 64" for j
    using that ok assms(2,3) by (cases "j = i") auto
  with t ok have "contexts_ok pl ?c"
    by (simp add: context_written_def contexts_ok_def tls_available_def)
  with assms(1) have "client_ok pl ?c"
    by (intro client_ok_contexts [of pl c ?c]) (simp_all add: proxy_ok_def context_written_def)
  moreover have "tlsSession (context_slots ?c ! j) \<noteq> None" if "context_used ?c j" for j
  proof (cases "j = i")
    case True
    with that ok assms(2,3) written_used [of c i q k l] show ?thesis by auto
  next
    case False
    with that ok assms(1,2) written_used [of c i q k l] show ?thesis by (auto simp: proxy_ok_def)
  qed
  ultimately show ?thesis using assms(1) by (simp add: proxy_ok_def context_written_def)
qed

definition card_written :: "'w client \<Rightarrow> nat \<Rightarrow> PP_CARD_CONTEXT \<Rightarrow> 'w client" where
  "card_written c k q = c\<lparr>pp_card_array := Some ((card_slots c)[k := q])\<rparr>"

lemma card_written_view:
  assumes "proxy_ok pl c" "k < 64"
  shows "view (card_written c k q) = (view c)\<lparr>p_cards := (p_cards (view c))(k :=
    (if card_id q = 0 then None else map_option (\<lambda>i. (pcScHandle q, i)) (clientContext q)))\<rparr>"
proof -
  have "length (card_slots c) = 64"
    using card_slots_ok [OF proxy_ok_tables(2) [OF assms(1)]] by simp
  with assms(2) show ?thesis
    by (auto simp: view_def card_written_def fun_eq_iff nth_list_update card_used_slots card_slots_def
        context_used_def context_slots_def)
qed

lemma card_written_ok:
  assumes "proxy_ok pl c" "card_slot_ok c k q"
  shows "proxy_ok pl (card_written c k q)"
  using assms client_ok_card [of pl c k q]
  by (simp add: proxy_ok_def card_written_def context_used_def context_slots_def)

text \<open>The first free slot.\<close>

lemma free_slot_Some: "free_slot t = Some i \<longleftrightarrow> i < 64 \<and> t i = None \<and> (\<forall>j < i. t j \<noteq> None)"
  by (auto simp: free_slot_def find_Some_iff)

lemma free_slot_None: "free_slot t = None \<longleftrightarrow> (\<forall>i < 64. t i \<noteq> None)"
  by (auto simp: free_slot_def find_None_iff)

lemma free_slot_eq:
  assumes "i \<le> 64" "\<forall>j < i. t j \<noteq> None" "i < 64 \<Longrightarrow> t i = None"
  shows "free_slot t = (if i < 64 then Some i else None)"
  using assms free_slot_Some [of t i] free_slot_None [of t] by (cases "i < 64") auto

lemma free_context:
  assumes "proxy_ok pl c"
  defines "i \<equiv> first_free_context 0 (context_slots c)"
  shows "free_slot (p_contexts (view c)) = (if i < 64 then Some i else None)"
proof (rule free_slot_eq)
  note ok = context_slots_ok [OF proxy_ok_tables(1) [OF assms(1)]]
  note f = first_free_context_spec [of 0 "context_slots c" i]
  show "i \<le> 64" "\<forall>j < i. p_contexts (view c) j \<noteq> None" "i < 64 \<Longrightarrow> p_contexts (view c) i = None"
    using f ok by (auto simp: i_def view_def context_used_slots)
qed

lemma free_card:
  assumes "proxy_ok pl c"
  defines "k \<equiv> first_free_card 0 (card_slots c)"
  shows "free_slot (p_cards (view c)) = (if k < 64 then Some k else None)"
proof (rule free_slot_eq)
  note ok = card_slots_ok [OF proxy_ok_tables(2) [OF assms(1)]]
  note f = first_free_card_spec [of 0 "card_slots c" k]
  have "p_cards (view c) j = None \<longleftrightarrow> \<not> card_used c j" for j
    using assms(1) by (auto simp: view_def proxy_ok_def client_ok_def)
  then show "k \<le> 64" "\<forall>j < k. p_cards (view c) j \<noteq> None" "k < 64 \<Longrightarrow> p_cards (view c) k = None"
    using f ok by (auto simp: k_def card_used_slots)
qed


lemma written_reply:
  "after s (c\<lparr>pp_context_locked := False, pp_context_array := Some ((context_slots c)[i := q]), g_tlsopts := Some k,
    g_opts := l\<rparr>) = after s (context_written c i q k l)"
  by (simp add: context_written_def)

lemma set_written [simp]:
  "set_context i q (after s (context_written c i p k l)) = after s (context_written c i q k l)"
  by (simp add: context_written_def set_context_def)

lemma narrow_zero: "narrow res = 0 \<longleftrightarrow> ucast res = (0 :: u32)"
  unfolding narrow_def by (metis ucast_ucast_32 unsigned_0)

lemma establish_full:
  assumes "installed lib N u pl" "proxy_ok pl c" "64 \<le> first_free_context 0 (context_slots c)"
  shows "\<exists>c1. SCardEstablishContext pl scope c = Inr (SCARD_F_INTERNAL_ERROR, None, c1) \<and> view c1 = view c \<and> proxy_ok pl c1"
proof -
  note t = proxy_ok_tables(1) [OF assms(2)] and ok = context_slots_ok [OF proxy_ok_tables(1) [OF assms(2)]]
  from createContext_exists(2) [OF t, of lib N u] assms(1,3) obtain k where k: "pp_createContext pl c = Inr (None,
      c\<lparr>pp_context_array := Some (context_slots c), g_tlsopts := Some k, pp_context_locked := False\<rparr>)"
    by (auto simp: installed_def)
  let ?q = "context_slots c ! 0"
  have e: "c\<lparr>pp_context_array := Some (context_slots c), g_tlsopts := Some k, pp_context_locked := False\<rparr> =
      context_written c 0 ?q k (g_opts c)" by (simp add: context_written_def)
  have "ctx_id ?q = 0 \<or> ctx_id ?q = of_nat 0 + PP_CONTEXT_MAGIC" using ok by (metis zero_less_numeral)
  then have q: "ctx_id ?q = 0 \<or> ctx_id ?q = of_nat 0 + PP_CONTEXT_MAGIC \<and> tlsSession ?q \<noteq> None"
    using assms(2) by (auto simp: proxy_ok_def context_used_slots)
  have "view (context_written c 0 ?q k (g_opts c)) = view c"
    using ok written_view [OF assms(2), of 0 ?q k "g_opts c"]
    by (simp add: view_def fun_eq_iff context_used_slots)
  with written_ok [OF assms(2) _ q, of k "g_opts c"] k e show ?thesis
    by (simp add: SCardEstablishContext_def)
qed

text \<open>A slot that is free gets the server's context, or stays free with its connection open.\<close>

lemma establish_slot:
  assumes "installed lib N u pl" "proxy_ok pl c" "first_free_context 0 (context_slots c) = i" "i < 64"
    and l: "lib_EstablishContext lib (narrow scope) (u_hContext u) (srv (world c)) = (res, hc, s')"
  shows "\<exists>q k o'. tlsSession q \<noteq> None \<and>
    (if ucast res = (0 :: u32) then
       ctx_id q = of_nat i + PP_CONTEXT_MAGIC \<and> pcScContext q = ucast hc \<and>
       SCardEstablishContext pl scope c =
         Inr (0, Some (ucast (of_nat i + PP_CONTEXT_MAGIC :: u32)), after s' (context_written c i q k o'))
     else
       ctx_id q = 0 \<and>
       SCardEstablishContext pl scope c = Inr (narrow res, None, after s' (context_written c i q k o')))"
proof -
  note t = proxy_ok_tables(1) [OF assms(2)]
  have inst: "connectable lib N u pl" "credentials pl" "inbox (world c) = []"
    using assms(1,2) by (simp_all add: installed_def proxy_ok_def)
  from createContext_exists(1) [OF t inst(1,2)] assms(3,4) obtain c1 where
    c1: "pp_createContext pl c = Inr (Some i, c1)" by auto
  from establish_reply [OF inst(1) t inst(3) c1 l [unfolded narrow_def], unfolded written_reply, folded narrow_def]
  obtain p k o' where p: "ctx_id p = of_nat i + PP_CONTEXT_MAGIC" "tlsSession p \<noteq> None"
    and r: "SCardEstablishContext pl scope c =
      (if ucast res = (0 :: u32) then
         Inr (0, Some (ucast (of_nat i + PP_CONTEXT_MAGIC :: u32)),
           set_context i (p\<lparr>pcScContext := ucast hc\<rparr>) (after s' (context_written c i p k o')))
       else
         bindo (pp_releaseContext pl (of_nat i + PP_CONTEXT_MAGIC) (after s' (context_written c i p k o')))
           (\<lambda>c. Inr (narrow res, None, c)))"
    by blast
  have "pp_releaseContext pl (of_nat i + PP_CONTEXT_MAGIC) (after s' (context_written c i p k o')) =
      Inr (after s' (context_written c i (p\<lparr>ctx_id := 0\<rparr>) k o'))"
    using assms(4) t context_slots_ok [OF t]
    by (simp add: pp_releaseContext_def contexts_ok_def context_written_def unat_of_nat set_context_def)
  with p r show ?thesis
    by (intro exI [of _ "if ucast res = (0 :: u32) then p\<lparr>pcScContext := ucast hc\<rparr> else p\<lparr>ctx_id := 0\<rparr>"]
        exI [of _ k] exI [of _ o']) simp
qed

lemma establish_agrees:
  assumes "installed lib N u pl" "proxy_ok pl c"
  shows "agrees pl (perform pl (EstablishContext scope) c) (proxy_call lib u (EstablishContext scope) (view c))"
proof (cases "first_free_context 0 (context_slots c) < 64")
  case False
  with free_context [OF assms(2)] have "free_slot (p_contexts (view c)) = None" by simp
  with establish_full [OF assms, of scope] False show ?thesis
    by (auto simp: agrees_def storing_def)
next
  case True
  define i where "i = first_free_context 0 (context_slots c)"
  have i: "free_slot (p_contexts (view c)) = Some i" "i < 64" "p_contexts (view c) i = None"
    using True free_context [OF assms(2)] by (simp_all add: i_def free_slot_Some)
  obtain res hc s' where l: "lib_EstablishContext lib (narrow scope) (u_hContext u) (srv (world c)) = (res, hc, s')"
    by (cases "lib_EstablishContext lib (narrow scope) (u_hContext u) (srv (world c))")
  from establish_slot [OF assms i_def [symmetric] i(2) l] obtain q k o' where
    q: "tlsSession q \<noteq> None"
    and r: "if ucast res = (0 :: u32) then
       ctx_id q = of_nat i + PP_CONTEXT_MAGIC \<and> pcScContext q = ucast hc \<and>
       SCardEstablishContext pl scope c =
         Inr (0, Some (ucast (of_nat i + PP_CONTEXT_MAGIC :: u32)), after s' (context_written c i q k o'))
     else
       ctx_id q = 0 \<and>
       SCardEstablishContext pl scope c = Inr (narrow res, None, after s' (context_written c i q k o'))"
    by blast
  have "of_nat i + PP_CONTEXT_MAGIC \<noteq> 0" using magic_nonzero(1) [OF i(2)] .
  with r q i written_ok [OF assms(2) i(2), of q k o'] written_view [OF assms(2) i(2), of q k o'] l show ?thesis
    by (auto simp: agrees_def storing_def narrow_zero SCARD_S_SUCCESS_def fun_upd_idem split: if_splits)
qed

lemma set_context_written:
  assumes "proxy_ok pl c" "pp_context_array c \<noteq> None"
  shows "\<exists>k. set_context i q (after s c) = after s (context_written c i q k (g_opts c))"
proof -
  from assms obtain k where "g_tlsopts c = Some k" "\<not> pp_context_locked c"
    by (auto simp: proxy_ok_def client_ok_def contexts_ok_def)
  then have "c\<lparr>pp_context_locked := False, g_tlsopts := Some k, g_opts := g_opts c\<rparr> = c" by simp
  with assms(2) \<open>g_tlsopts c = Some k\<close> \<open>\<not> pp_context_locked c\<close>
  have "set_context i q (after s c) = after s (context_written c i q k (g_opts c))"
    by (cases c) (auto simp: context_written_def set_context_def context_slots_def)
  then show ?thesis ..
qed

lemma release_agrees:
  assumes "installed lib N u pl" "proxy_ok pl c"
  shows "agrees pl (perform pl (ReleaseContext h) c) (proxy_call lib u (ReleaseContext h) (view c))"
proof (cases "context_slot h = PP_MAX_CONTEXT")
  case False
  show ?thesis
  proof (cases "p_contexts (view c) (context_slot h)")
    case None
    with context_missing [OF assms(2) False] False assms(2) show ?thesis
      by (auto simp: agrees_def coded_def SCardReleaseContext_def Let_def)
  next
    case (Some hc)
    from context_named [OF assms Some] obtain i p where
      p: "context_session pl h i p c" "linked lib N u pl c" "pcScContext p = hc" "i = context_slot h" by metis
    note t = proxy_ok_tables(1) [OF assms(2)]
    obtain res s' where l: "lib_ReleaseContext lib (ucast (pcScContext p)) (srv (world c)) = (res, s')"
      by (cases "lib_ReleaseContext lib (ucast (pcScContext p)) (srv (world c))")
    have close: "close_fd pl = (\<lambda>_ w. w)" using assms(1) by (simp add: installed_def)
    let ?q = "p\<lparr>tlsSession := None, tlsContext := None, ctx_id := 0\<rparr>"
    have "context_used c i" "pp_context_array c \<noteq> None"
      using Some p(4) by (auto simp: view_def context_used_def split: if_splits option.splits)
    then have i: "i < 64" by (simp add: context_used_slots)
    from set_context_written [OF assms(2) \<open>pp_context_array c \<noteq> None\<close>] obtain k where
      "set_context i ?q (after s' c) = after s' (context_written c i ?q k (g_opts c))" by blast
    with release_reply [OF p(2,1) t close l]
    have r: "SCardReleaseContext pl h c = Inr (SCARD_S_SUCCESS, after s' (context_written c i ?q k (g_opts c)))"
      by simp
    have "view (context_written c i ?q k (g_opts c)) = (view c)\<lparr>p_contexts := (p_contexts (view c))(i := None),
        p_open := (p_open (view c))(i := False)\<rparr>"
      using written_view [OF assms(2) i, of ?q k "g_opts c"] by simp
    moreover have "proxy_ok pl (context_written c i ?q k (g_opts c))"
      using written_ok [OF assms(2) i, of ?q k "g_opts c"] by simp
    ultimately show ?thesis
      using r False Some p(3,4) l by (auto simp: agrees_def coded_def Let_def)
  qed
qed (simp add: agrees_def)

lemma set_card_written:
  "set_card k q (after s (card_written c k p)) = after s (card_written c k q)"
  by (simp add: set_card_def card_written_def)

lemma release_card_written:
  assumes "proxy_ok pl c" "k < 64"
  shows "pp_releaseCard pl (of_nat k + PP_CARD_MAGIC) (after s (card_written c k q)) =
    Inr (after s (card_written c k (q\<lparr>card_id := 0\<rparr>)))"
  using assms card_slots_ok [of pl c]
  by (simp add: pp_releaseCard_def proxy_ok_def client_ok_def cards_ok_def card_written_def unat_of_nat set_card_def)

text \<open>The card that is opened, when there is a slot for it.\<close>

lemma connect_slot_agrees:
  assumes "installed lib N u pl" "proxy_ok pl c" "0 \<notin> set reader" "length reader < MAX_READERNAME"
    and "context_session pl h i p c" "linked lib N u pl c" "i < 64" "first_free_card 0 (card_slots c) = k" "k < 64"
    and l: "lib_Connect lib (ucast (pcScContext p)) reader (narrow share) (narrow prots)
      (u_hCard u, u_dwActiveProtocol u) (srv (world c)) = (res, (hc, prot), s')"
  shows "\<exists>q. card_id q = of_nat k + PP_CARD_MAGIC \<and> clientContext q = Some i \<and> pcScHandle q = ucast hc \<and>
    SCardConnect pl h (Some reader) share prots c =
      (if ucast res = (0 :: u32) then
         Inr (0, Some (ucast (of_nat k + PP_CARD_MAGIC :: u32), narrow prot), after s' (card_written c k q))
       else Inr (narrow res, None, after s' (card_written c k (q\<lparr>card_id := 0, pcScHandle := pcScHandle (card_slots c ! k)\<rparr>))))"
proof -
  note t = proxy_ok_tables(2) [OF assms(2)]
  let ?p = "(card_slots c ! k)\<lparr>card_id := of_nat k + PP_CARD_MAGIC, clientContext := Some i\<rparr>"
  have c1: "pp_createCard pl i c = Inr (Some k, card_written c k ?p)"
    using createCard_Inr [OF t, of i "Some k" "card_written c k ?p"] assms(8,9)
    by (simp add: Let_def card_written_def)
  have r: "\<forall>b \<in> set reader. b \<noteq> 0" using assms(3) by auto
  have "length (card_slots c) = 64" using card_slots_ok [OF t] by simp
  then have "get_card k (after s' (card_written c k ?p)) = Inr ?p"
    using assms(9) by (simp add: get_card_def card_written_def)
  with connect_reply [OF assms(6) t assms(5) c1 assms(4) r l [unfolded narrow_def]]
  show ?thesis
    unfolding set_card_written release_card_written [OF assms(2,9)]
    by (intro exI [of _ "?p\<lparr>pcScHandle := ucast hc\<rparr>"]) (auto simp: narrow_def)
qed


lemma connect_full:
  assumes "proxy_ok pl c" "context_session pl h i p c" "64 \<le> first_free_card 0 (card_slots c)" "length reader < MAX_READERNAME"
  shows "\<exists>c1. SCardConnect pl h (Some reader) share prots c = Inr (SCARD_F_INTERNAL_ERROR, None, c1) \<and>
    view c1 = view c \<and> proxy_ok pl c1"
proof -
  note t = proxy_ok_tables(2) [OF assms(1)]
  let ?q = "card_slots c ! 0"
  have e: "c\<lparr>pp_card_array := Some (card_slots c)\<rparr> = card_written c 0 ?q" by (simp add: card_written_def)
  have "card_slot_ok c 0 ?q" using assms(1) by (intro card_slot_ok [of pl]) (simp_all add: proxy_ok_def)
  from card_written_ok [OF assms(1) this] have ok: "proxy_ok pl (card_written c 0 ?q)" .
  have "p_cards (view c) 0 = (if card_id ?q = 0 then None else map_option (\<lambda>i. (pcScHandle ?q, i)) (clientContext ?q))"
    by (simp add: view_def card_used_slots)
  then have v: "view (card_written c 0 ?q) = view c"
    using card_written_view [OF assms(1), of 0 ?q] by (simp add: fun_upd_idem)
  have "pp_createCard pl i c = Inr (None, card_written c 0 ?q)"
    using createCard_Inr [OF t, of i None "card_written c 0 ?q"] assms(3) e by (simp add: Let_def)
  with v ok assms(4) context_found(1) [OF assms(2)] show ?thesis
    by (simp add: SCardConnect_def)
qed

lemma connect_named_agrees:
  assumes "installed lib N u pl" "proxy_ok pl c" "0 \<notin> set reader" "length reader < MAX_READERNAME"
    and "context_slot h \<noteq> PP_MAX_CONTEXT" "p_contexts (view c) (context_slot h) = Some hc"
  shows "agrees pl (perform pl (Connect h (Some reader) share prots) c)
    (proxy_call lib u (Connect h (Some reader) share prots) (view c))"
proof -
  from context_named [OF assms(1,2,6)] obtain i p where
    p: "context_session pl h i p c" "linked lib N u pl c" "pcScContext p = hc" "i = context_slot h" by metis
  have used: "i < 64" "pp_context_array c \<noteq> None"
    using assms(6) p(4) by (auto simp: view_def context_used_def split: if_splits option.splits)
  define k where "k = first_free_card 0 (card_slots c)"
  note free = free_card [OF assms(2), folded k_def]
  show ?thesis
  proof (cases "k < 64")
    case False
    with connect_full [OF assms(2) p(1), of reader share prots] assms(4-6) free show ?thesis
      by (auto simp: agrees_def storing_def k_def)
  next
    case True
    obtain res hcard prot s' where l: "lib_Connect lib (ucast (pcScContext p)) reader (narrow share) (narrow prots)
        (u_hCard u, u_dwActiveProtocol u) (srv (world c)) = (res, (hcard, prot), s')"
      by (metis prod.exhaust)
    from connect_slot_agrees [OF assms(1-4) p(1,2) used(1) k_def [symmetric] True l] obtain q where
      q: "card_id q = of_nat k + PP_CARD_MAGIC" "clientContext q = Some i" "pcScHandle q = ucast hcard"
      and r: "SCardConnect pl h (Some reader) share prots c =
        (if ucast res = (0 :: u32) then
           Inr (0, Some (ucast (of_nat k + PP_CARD_MAGIC :: u32), narrow prot), after s' (card_written c k q))
         else Inr (narrow res, None, after s' (card_written c k (q\<lparr>card_id := 0, pcScHandle := pcScHandle (card_slots c ! k)\<rparr>))))"
      by blast
    let ?q = "q\<lparr>card_id := 0, pcScHandle := pcScHandle (card_slots c ! k)\<rparr>"
    have "proxy_ok pl (card_written c k q)" "proxy_ok pl (card_written c k ?q)"
      using q used by (auto intro!: card_written_ok [OF assms(2)] simp: card_slot_ok_def)
    moreover have "p_cards (view c) k = None" using free True by (simp add: free_slot_Some)
    then have "view (card_written c k q) = (view c)\<lparr>p_cards := (p_cards (view c))(k \<mapsto> (ucast hcard, i))\<rparr>"
      "view (card_written c k ?q) = view c"
      using card_written_view [OF assms(2) True] q magic_nonzero(2) [OF True] by (simp_all add: fun_upd_idem)
    ultimately show ?thesis
      using r l free True assms(4-6) p(3,4)
      by (auto simp: agrees_def storing_def narrow_zero SCARD_S_SUCCESS_def)
  qed
qed

lemma connect_agrees:
  assumes "installed lib N u pl" "proxy_ok pl c" "args_ok u (Connect h reader share prots)"
  shows "agrees pl (perform pl (Connect h reader share prots) c) (proxy_call lib u (Connect h reader share prots) (view c))"
proof -
  from assms(3) obtain name where a: "reader = Some name" "0 \<notin> set name" by (auto split: option.splits)
  consider "MAX_READERNAME \<le> length name \<or> context_slot h = PP_MAX_CONTEXT" |
    "length name < MAX_READERNAME" "context_slot h \<noteq> PP_MAX_CONTEXT" "p_contexts (view c) (context_slot h) = None" |
    hc where "length name < MAX_READERNAME" "context_slot h \<noteq> PP_MAX_CONTEXT" "p_contexts (view c) (context_slot h) = Some hc"
    by (metis not_le option.exhaust)
  then show ?thesis
  proof cases
    case 1
    then show ?thesis using a assms(2) by (auto simp: agrees_def storing_def SCardConnect_def)
  next
    case 2
    with context_missing [OF assms(2) 2(2,3)] a assms(2) show ?thesis
      by (auto simp: agrees_def storing_def SCardConnect_def)
  next
    case 3
    with connect_named_agrees [OF assms(1,2) a(2)] a(1) show ?thesis by blast
  qed
qed

section \<open>Programs\<close>

lemma call_agrees:
  assumes "installed lib N u pl" "proxy_ok pl c" "args_ok u x"
  shows "agrees pl (perform pl x c) (proxy_call lib u x (view c))"
proof (cases x)
  case (ListReaders h out n)
  with assms show ?thesis by (cases n) (simp_all add: lists_agree del: perform.simps proxy_call.simps)
next
  case (ListReaderGroups h out n)
  with assms show ?thesis by (cases n) (simp_all add: lists_agree del: perform.simps proxy_call.simps)
qed (use assms in \<open>simp_all add: establish_agrees release_agrees connect_agrees plain_card_calls_agree
  plain_context_calls_agree status_agrees control_agrees transmit_agrees change_agrees attrib_agrees
  set_attrib_agrees del: perform.simps proxy_call.simps args_ok.simps\<close>)

lemma program_agrees:
  assumes "installed lib N u pl"
  shows "proxy_ok pl c \<Longrightarrow> proxy_calls lib u xs (view c) = Some (as, st) \<Longrightarrow>
    \<exists>c'. perform_all pl xs c = Inr (as, c') \<and> view c' = st \<and> proxy_ok pl c'"
proof (induction xs arbitrary: c as)
  case (Cons x xs)
  from Cons.prems(2) obtain a s2 bs where
    x: "args_ok u x" "proxy_call lib u x (view c) = Some (a, s2)" "proxy_calls lib u xs s2 = Some (bs, st)" "as = a # bs"
    by (auto split: if_splits Option.bind_splits)
  from call_agrees [OF assms Cons.prems(1) x(1)] x(2) obtain c2 where
    c2: "perform pl x c = Inr (a, c2)" "view c2 = s2" "proxy_ok pl c2" by (auto simp: agrees_def)
  from Cons.IH [OF c2(3)] x(3) c2(2) obtain c3 where
    "perform_all pl xs c2 = Inr (bs, c3)" "view c3 = st" "proxy_ok pl c3" by blast
  with c2(1) x(4) show ?case by simp
qed simp


lemma fresh_view: "view (fresh_client \<lparr>srv = s, inbox = []\<rparr>) = no_handles s"
  by (simp add: view_def no_handles_def fresh_client_def fun_eq_iff context_used_def card_used_def
      context_slots_def zero_context_def)

lemma fresh_proxy_ok:
  assumes "tls_available pl (fresh_client \<lparr>srv = s, inbox = []\<rparr>)" "mutex_lock_rv pl = 0" "malloc_contexts pl" "malloc_cards pl"
  shows "proxy_ok pl (fresh_client \<lparr>srv = s, inbox = []\<rparr>)"
  using fresh_ok [OF assms] by (simp add: proxy_ok_def) (simp add: fresh_client_def context_used_def)

text \<open>C1 The client library over a link implements the specification \<open>Proxy\<close>.  The setting: a server that
  accepts each connection the client opens, a network that loses nothing, and on the client memory,
  mutexes, a TLS module and credentials.  The programs: sequences of PC/SC calls of any kinds, on
  contexts and cards opened, used and closed in any order, with arguments as \<open>args_ok\<close> asks (no
  NULL where a value is needed, lengths that are those of the buffers and fit a message and 32 bits),
  for which the specification is defined (no handle one past a table, and lengths reported by the
  server's library that agree with what it stores and fit).  In such a program every call returns, with
  the answer of the specification, and the server's library is left in the state of the specification.

  The specification answers with what the server's library answers for the handle of the server that
  the application's handle names, cut to 32 bits, except where the program itself does otherwise:
  \<open>SCardReleaseContext\<close> calls the library and returns success whatever it answers;
  \<open>SCardSetTimeout\<close> returns success and calls nothing; \<open>SCardCancel\<close> looks its argument up
  among the cards and hands the library the application's own number; and a handle that is not open, a
  full table, a reader's name that is too long and an answer too long for the application's buffer are
  refused with a code of the proxy's own.\<close>

theorem programs_transparent:
  assumes "installed lib N u pl"
    and "tls_available pl (fresh_client \<lparr>srv = s, inbox = []\<rparr>)" "mutex_lock_rv pl = 0"
      "malloc_contexts pl" "malloc_cards pl"
    and "proxy_calls lib u xs (no_handles s) = Some (as, st)"
  shows "\<exists>c'. perform_all pl xs (fresh_client \<lparr>srv = s, inbox = []\<rparr>) = Inr (as, c') \<and> view c' = st"
  using program_agrees [OF assms(1) fresh_proxy_ok [OF assms(2-5)]] assms(6) by (simp add: fresh_view) blast

definition demo_program :: "call list" where
  "demo_program =
     [EstablishContext 2, Connect 0x88345289 (Some [82, 49]) 2 3,
      Transmit 0x38345289 (Some no_pci) (Some [0, 0xA4, 4, 0]) 4
        \<lparr>t_pioRecvPci = None, t_pbRecvBuffer = Some [9, 9, 9, 9, 9], t_pcbRecvLength = Some 5\<rparr>,
      ListReaders 0x88345289 (Some [1, 1, 1]) (Some 3), ReleaseContext 0x88345289, BeginTransaction 0x38345289, Disconnect 0x38345290 0]"

definition demo_answers :: "answer list" where
  "demo_answers =
     [(0, Number (Some 0x88345289)), (0, Card (Some (0x38345289, 3))),
      (0, Response \<lparr>t_pioRecvPci = None, t_pbRecvBuffer = Some [0, 0xA4, 4, 0, 9], t_pcbRecvLength = Some 4\<rparr>),
      (SCARD_F_INTERNAL_ERROR, Data (Some [1, 1, 1]) (Some 3)), (0, Nothing), (SCARD_F_INTERNAL_ERROR, Nothing), (SCARD_E_INVALID_VALUE, Nothing)]"

lemma demo_installed: "installed demo_lib demo_network demo_uninit demo_pl"
  using demo_connectable [of demo_lib demo_uninit] by (simp add: installed_def credentials_def)

lemma demo_served: "\<exists>st. proxy_calls demo_lib demo_uninit demo_program (no_handles 0) = Some (demo_answers, st) \<and> p_state st = 5"
proof -
  have free: "free_slot (t :: nat \<Rightarrow> 'a option) = Some 0" if "t 0 = None" for t
    using that by (simp add: free_slot_Some)
  have slots: "context_slot 0x88345289 = 0" "card_slot 0x38345289 = 0" "card_slot 0x38345290 = 7"
    by (simp_all add: context_slot_def card_slot_def PP_CONTEXT_MAGIC_def PP_CARD_MAGIC_def)
  show ?thesis
    by (simp add: demo_program_def demo_answers_def no_handles_def free slots on_card_def on_context_def
        transmit_call_def list_call_def narrow_internal [simplified narrow_def] narrow_def capacity_def front_def PP_CONTEXT_MAGIC_def PP_CARD_MAGIC_def SCARD_S_SUCCESS_def no_pci_def
        demo_uninit_def pci32_def)
qed


lemma programs_transparent_witness:
  "\<exists>c'. perform_all demo_pl demo_program (fresh_client demo_link) = Inr (demo_answers, c') \<and> srv (world c') = 5"
proof -
  have "tls_available demo_pl (fresh_client demo_link)"
    using fresh_contexts_ok [of "link_opts demo_lib demo_network demo_uninit" demo_link]
    by (simp add: contexts_ok_def)
  with demo_served programs_transparent [OF demo_installed this] show ?thesis
    by (metis demo_platform_simps(6-8) view_state)
qed

end
