(* ===== verification/Sockets.thy ===== *)
theory Sockets
  imports Opts
begin

text \<open>
  Setting up sockets: \<open>pp_listen\<close>, \<open>pp_accept\<close>, \<open>pp_connect_by_ip\<close> and \<open>pp_getport\<close> of
  \<open>src/src/common/network.c\<close>, their counterparts of \<open>unix.c\<close> and \<open>bluetooth.c\<close> with the
  service record that is registered for Bluetooth, and the three tables \<open>netopts_t\<close>.

  The process sees a table of descriptors with a limit.  Whether a system call is refused is the
  environment's choice, given by \<open>refuse\<close> for the number of the call; how names are resolved is
  a parameter as well.
\<close>

section \<open>Descriptors and system calls\<close>

datatype sockaddr =
  Inet u32 "16 word" | Inet6 "u8 list" "16 word" | Local "u8 list" | Rfcomm "u8 list" u8
| Unnamed family

datatype descr =
  OtherFile | Fresh family | Bound sockaddr | Listening sockaddr | Accepted sockaddr | Connected sockaddr

text \<open>A service record: the classes of the service, the stack of protocols it is reached by, each with
  its parameter, and its name.\<close>

datatype protocol = L2CAP_UUID | RFCOMM_UUID

record sdp_record =
  sdp_handle :: u32
  sdp_browse_public :: bool
  sdp_classes :: "u8 list list"
  sdp_protos :: "(protocol \<times> u8 option) list"
  sdp_name :: string

record os =
  fds :: "nat \<Rightarrow> descr option"
  fd_limit :: nat
  refuse :: "nat \<Rightarrow> bool"
  calls :: nat
  g_sess :: "nat option"
  sdp_records :: "sdp_record list"

record names =
  inet_aton :: "string \<Rightarrow> u32 option"
  inet_pton :: "string \<Rightarrow> u8 list option"
  gethostbyname :: "string \<Rightarrow> u32 list option"
  str2ba :: "string \<Rightarrow> int \<times> u8 list"
  kernel_name :: "sockaddr \<Rightarrow> sockaddr"

definition refused :: "os \<Rightarrow> bool" where
  "refused w = refuse w (calls w)"

definition called :: "os \<Rightarrow> os" where
  "called w = w\<lparr>calls := Suc (calls w)\<rparr>"

definition file_at :: "int \<Rightarrow> os \<Rightarrow> descr option" where
  "file_at s w = (if s < 0 then None else fds w (nat s))"

definition set_file :: "int \<Rightarrow> descr \<Rightarrow> os \<Rightarrow> os" where
  "set_file s f w = w\<lparr>fds := (fds w)(nat s \<mapsto> f)\<rparr>"

text \<open>The lowest descriptor that is not in use.\<close>

definition free_fd :: "os \<Rightarrow> nat option" where
  "free_fd w = find (\<lambda>i. fds w i = None) [0..<fd_limit w]"

definition new_fd :: "descr \<Rightarrow> os \<Rightarrow> int \<times> os" where
  "new_fd f w =
     (if refused w then (-1, called w)
      else
        (case free_fd w of
           None \<Rightarrow> (-1, called w)
         | Some i \<Rightarrow> (int i, set_file (int i) f (called w))))"

definition sys_socket :: "family \<Rightarrow> os \<Rightarrow> int \<times> os" where
  "sys_socket f w = new_fd (Fresh f) w"

definition sys_close :: "int \<Rightarrow> os \<Rightarrow> os" where
  "sys_close s w = (if s < 0 then w else w\<lparr>fds := (fds w)(nat s := None)\<rparr>)"

text \<open>A call that changes the state of a socket: 0, or -1 when it is refused.\<close>

definition sys_update :: "int \<Rightarrow> descr \<Rightarrow> os \<Rightarrow> int \<times> os" where
  "sys_update s f w = (if refused w then (-1, called w) else (0, set_file s f (called w)))"

definition sys_setsockopt :: "int \<Rightarrow> os \<Rightarrow> int \<times> os" where
  "sys_setsockopt s w = (if refused w then -1 else 0, called w)"

definition sys_bind :: "names \<Rightarrow> int \<Rightarrow> sockaddr \<Rightarrow> os \<Rightarrow> int \<times> os" where
  "sys_bind ns s a w = sys_update s (Bound (kernel_name ns a)) w"

definition sys_listen :: "int \<Rightarrow> os \<Rightarrow> int \<times> os" where
  "sys_listen s w =
     (case file_at s w of
        Some (Bound a) \<Rightarrow> sys_update s (Listening a) w
      | _ \<Rightarrow> (-1, called w))"

definition sys_connect :: "int \<Rightarrow> sockaddr \<Rightarrow> os \<Rightarrow> int \<times> os" where
  "sys_connect s a w = sys_update s (Connected a) w"

definition sys_accept :: "int \<Rightarrow> os \<Rightarrow> int \<times> os" where
  "sys_accept s w =
     (case file_at s w of
        Some (Listening a) \<Rightarrow> new_fd (Accepted a) w
      | _ \<Rightarrow> (-1, called w))"

text \<open>The name of a socket without one is the family's zero address.\<close>

definition no_name :: "family \<Rightarrow> sockaddr" where
  "no_name f =
     (case f of AF_INET \<Rightarrow> Inet 0 0 | AF_INET6 \<Rightarrow> Inet6 (replicate 16 0) 0 | _ \<Rightarrow> Unnamed f)"

definition sys_getsockname :: "int \<Rightarrow> os \<Rightarrow> sockaddr option \<times> os" where
  "sys_getsockname s w =
     (if refused w then (None, called w)
      else
        (case file_at s w of
           Some (Bound a) \<Rightarrow> (Some a, called w)
         | Some (Listening a) \<Rightarrow> (Some a, called w)
         | Some (Accepted a) \<Rightarrow> (Some a, called w)
         | Some (Fresh f) \<Rightarrow> (Some (no_name f), called w)
         | _ \<Rightarrow> (None, called w)))"

section \<open>Internet sockets\<close>

text \<open>The address of the first part of \<open>pp_listen\<close>: \<open>None\<close> for an address that is not one.\<close>

definition listen_address :: "names \<Rightarrow> family \<Rightarrow> string \<Rightarrow> int \<Rightarrow> sockaddr option" where
  "listen_address ns family ip port =
     (case family of
        AF_INET \<Rightarrow> map_option (\<lambda>a. Inet a (word_of_int port)) (inet_aton ns ip)
      | AF_INET6 \<Rightarrow> map_option (\<lambda>a. Inet6 a (word_of_int port)) (inet_pton ns ip)
      | _ \<Rightarrow> Some (Unnamed family))"

text \<open>\<open>bind\<close> and \<open>listen\<close>, each followed by a \<open>close\<close> when it fails.\<close>

definition bind_listen :: "names \<Rightarrow> int \<Rightarrow> sockaddr \<Rightarrow> os \<Rightarrow> int \<times> os" where
  "bind_listen ns s a w =
     (let (rv, w) = sys_bind ns s a w in
      if rv \<noteq> 0 then (-1, sys_close s w)
      else
        let (rv, w) = sys_listen s w in
        if rv \<noteq> 0 then (-1, sys_close s w) else (s, w))"

definition pp_listen :: "names \<Rightarrow> family \<Rightarrow> string \<Rightarrow> int \<Rightarrow> os \<Rightarrow> int \<times> os" where
  "pp_listen ns family ip port w =
     (case listen_address ns family ip port of
        None \<Rightarrow> (-1, w)
      | Some a \<Rightarrow>
          let (s, w) = sys_socket family w in
          if s = -1 then (-1, w)
          else
            let (rv, w) = sys_setsockopt s w in
            if rv \<noteq> 0 then (-1, w) else bind_listen ns s a w)"

definition pp_accept :: "int \<Rightarrow> os \<Rightarrow> int \<times> os" where
  "pp_accept sk w = (let (newS, w) = sys_accept sk w in if newS \<noteq> -1 then (newS, w) else (-1, w))"

text \<open>\<open>connect\<close>, and \<open>close\<close> when it fails.\<close>

definition connect_or_close :: "int \<Rightarrow> sockaddr \<Rightarrow> os \<Rightarrow> int \<times> os" where
  "connect_or_close s a w =
     (let (rv, w) = sys_connect s a w in if rv \<noteq> 0 then (-1, sys_close s w) else (s, w))"

text \<open>A host without any address makes \<open>h_addr_list[0]\<close> a null pointer.\<close>

definition host_address :: "names \<Rightarrow> string \<Rightarrow> u32 option outcome" where
  "host_address ns ip =
     (case inet_aton ns ip of
        Some a \<Rightarrow> Inr (Some a)
      | None \<Rightarrow>
          (case gethostbyname ns ip of
             None \<Rightarrow> Inr None
           | Some [] \<Rightarrow> Inl NullPointer
           | Some (a # _) \<Rightarrow> Inr (Some a)))"

definition pp_connect_by_ip :: "names \<Rightarrow> string \<Rightarrow> int \<Rightarrow> os \<Rightarrow> (int \<times> os) outcome" where
  "pp_connect_by_ip ns ip port w =
     bindo (host_address ns ip) (\<lambda>host.
       case host of
         None \<Rightarrow> Inr (-1, w)
       | Some a \<Rightarrow>
           let (s, w) = sys_socket AF_INET w in
           if s = -1 then Inr (-1, w)
           else Inr (connect_or_close s (Inet a (word_of_int port)) w))"

definition pp_getport :: "int \<Rightarrow> os \<Rightarrow> int \<times> os" where
  "pp_getport s w =
     (let (name, w) = sys_getsockname s w in
      case name of
        Some (Inet _ port) \<Rightarrow> (uint port, w)
      | Some (Inet6 _ port) \<Rightarrow> (uint port, w)
      | _ \<Rightarrow> (-1, w))"

section \<open>Unix domain sockets\<close>

text \<open>
  The abstract name of a path: a zero byte and the path; \<open>sun_path\<close> has 108 bytes.  The
  length given to the system calls ends the name, so that trailing bytes do not belong to it.
\<close>

definition init_sockaddr_un :: "u8 list \<Rightarrow> sockaddr option" where
  "init_sockaddr_un path = (if 108 < length path + 1 then None else Some (Local (0 # path)))"

definition pp_uxlisten :: "names \<Rightarrow> u8 list \<Rightarrow> os \<Rightarrow> int \<times> os" where
  "pp_uxlisten ns path w =
     (case init_sockaddr_un path of
        None \<Rightarrow> (-1, w)
      | Some a \<Rightarrow>
          let (s, w) = sys_socket AF_UNIX w in
          if s = -1 then (-1, w) else bind_listen ns s a w)"

definition pp_uxconnect :: "u8 list \<Rightarrow> os \<Rightarrow> int \<times> os" where
  "pp_uxconnect path w =
     (case init_sockaddr_un path of
        None \<Rightarrow> (-1, w)
      | Some a \<Rightarrow>
          let (s, w) = sys_socket AF_UNIX w in
          if s = -1 then (-1, w) else connect_or_close s a w)"

section \<open>Bluetooth\<close>

definition BT_PCSC_NAME :: string where
  "BT_PCSC_NAME = ''PC/SC Proxy''"

definition BT_PCSC_UUID :: "u8 list" where
  "BT_PCSC_UUID = [0x1a, 0xd3, 0x4c, 0x3e, 0x78, 0x72, 0x41, 0x42,
                   0x98, 0x1d, 0x98, 0xb2, 0x80, 0x41, 0x6c, 0xe8]"

definition empty_record :: "u32 \<Rightarrow> sdp_record" where
  "empty_record h =
     \<lparr>sdp_handle = h, sdp_browse_public = False, sdp_classes = [], sdp_protos = [],
      sdp_name = []\<rparr>"

definition set_public_browse_group :: "sdp_record \<Rightarrow> sdp_record" where
  "set_public_browse_group r = r\<lparr>sdp_browse_public := True\<rparr>"

definition set_service_class :: "u8 list \<Rightarrow> sdp_record \<Rightarrow> sdp_record" where
  "set_service_class uuid r = r\<lparr>sdp_classes := [uuid]\<rparr>"

definition set_rfcomm_protos :: "u8 \<Rightarrow> sdp_record \<Rightarrow> sdp_record" where
  "set_rfcomm_protos channel r =
     (let proto_l2cap = (L2CAP_UUID, None);
        ap_seq = [proto_l2cap];
        proto_rfcomm = (RFCOMM_UUID, Some channel);
        ap_seq = ap_seq @ [proto_rfcomm]
      in r\<lparr>sdp_protos := ap_seq\<rparr>)"

definition add_sp :: "u8 \<Rightarrow> u32 \<Rightarrow> os \<Rightarrow> int \<times> os" where
  "add_sp channel handle w =
     (let r = empty_record handle;
        r = set_public_browse_group r;
        r = set_service_class BT_PCSC_UUID r;
        r = set_rfcomm_protos channel r;
        r = r\<lparr>sdp_name := BT_PCSC_NAME\<rparr>
      in if refused w then (-1, called w)
         else (0, (called w)\<lparr>sdp_records := sdp_records w @ [r]\<rparr>))"

definition pp_btgetport :: "int \<Rightarrow> os \<Rightarrow> int \<times> os" where
  "pp_btgetport s w =
     (let (name, w) = sys_getsockname s w in
      case name of
        None \<Rightarrow> (-1, w)
      | Some (Rfcomm _ channel) \<Rightarrow> (uint channel, w)
      | Some _ \<Rightarrow> (0, w))"

text \<open>
  The channel is kept in a \<open>uint8_t\<close>, so that the test for a negative one never succeeds; the
  result of the registration is dropped.
\<close>

definition register_sdp :: "int \<Rightarrow> os \<Rightarrow> int \<times> os" where
  "register_sdp s w =
     (let (port, w) = pp_btgetport s w;
        channel = word_of_int port :: u8;
        w = (if g_sess w = None
             then (called w)\<lparr>g_sess := (if refused w then None else Some (calls w))\<rparr> else w);
        (_, w) = add_sp channel 0xffffffff w
      in (uint channel, w))"

definition pp_btlisten :: "names \<Rightarrow> string \<Rightarrow> int \<Rightarrow> os \<Rightarrow> int \<times> os" where
  "pp_btlisten ns btaddr channel w =
     (let (rv, ba) = str2ba ns btaddr in
      if rv \<noteq> 0 then (-1, w)
      else
        let (s, w) = sys_socket AF_BLUETOOTH w in
        if s = -1 then (-1, w)
        else
          let (rv, w) = sys_setsockopt s w in
          if rv \<noteq> 0 then (-1, w)
          else
            let (s', w) = bind_listen ns s (Rfcomm ba (word_of_int channel)) w in
            if s' < 0 then (-1, w)
            else
              let (rv, w) = register_sdp s w in
              if rv < 0 then (-1, sys_close s w) else (s, w))"

text \<open>The test of \<open>str2ba\<close> is the wrong way round: the function returns 0 for an address.\<close>

definition pp_btconnect :: "names \<Rightarrow> string \<Rightarrow> int \<Rightarrow> os \<Rightarrow> int \<times> os" where
  "pp_btconnect ns btaddr channel w =
     (let (rv, ba) = str2ba ns btaddr in
      if rv = 0 then (-1, w)
      else
        let (s, w) = sys_socket AF_BLUETOOTH w in
        if s = -1 then (-1, w)
        else connect_or_close s (Rfcomm ba (word_of_int channel)) w)"

definition pp_bluetooth_fini :: "os \<Rightarrow> os" where
  "pp_bluetooth_fini w = (if g_sess w \<noteq> None then w\<lparr>g_sess := None\<rparr> else w)"

section \<open>The tables\<close>

record netopts =
  n_listen :: "names \<Rightarrow> family \<Rightarrow> string \<Rightarrow> int \<Rightarrow> os \<Rightarrow> int \<times> os"
  n_accept :: "int \<Rightarrow> os \<Rightarrow> int \<times> os"
  n_connect :: "names \<Rightarrow> string \<Rightarrow> int \<Rightarrow> os \<Rightarrow> (int \<times> os) outcome"
  n_recv :: "int \<Rightarrow> buffer \<Rightarrow> net \<Rightarrow> (int \<times> buffer \<times> net) outcome"
  n_send :: "int \<Rightarrow> buffer \<Rightarrow> net \<Rightarrow> (int \<times> net) outcome"
  n_getport :: "(int \<Rightarrow> os \<Rightarrow> int \<times> os) option"

definition path_bytes :: "string \<Rightarrow> u8 list" where
  "path_bytes s = map (\<lambda>c. of_char c) s"

definition pp_network_opts :: netopts where
  "pp_network_opts =
     \<lparr>n_listen = pp_listen, n_accept = pp_accept, n_connect = pp_connect_by_ip,
      n_recv = pp_recv, n_send = pp_send, n_getport = Some pp_getport\<rparr>"

definition pp_unix_opts :: netopts where
  "pp_unix_opts =
     \<lparr>n_listen = (\<lambda>ns family path channel. pp_uxlisten ns (path_bytes path)),
      n_accept = pp_accept, n_connect = (\<lambda>ns path channel w. Inr (pp_uxconnect (path_bytes path) w)),
      n_recv = pp_recv, n_send = pp_send, n_getport = None\<rparr>"

definition pp_bluetooth_opts :: netopts where
  "pp_bluetooth_opts =
     \<lparr>n_listen = (\<lambda>ns family. pp_btlisten ns), n_accept = pp_accept,
      n_connect = (\<lambda>ns btaddr channel w. Inr (pp_btconnect ns btaddr channel w)),
      n_recv = pp_recv, n_send = pp_send, n_getport = Some pp_btgetport\<rparr>"

fun net_table :: "net_kind \<Rightarrow> netopts" where
  "net_table Network = pp_network_opts"
| "net_table Unix = pp_unix_opts"
| "net_table Bluetooth = pp_bluetooth_opts"

section \<open>What the calls do to the descriptors\<close>

named_theorems os_simps

lemma called_simps [simp]:
  "fds (called w) = fds w" "fd_limit (called w) = fd_limit w" "sdp_records (called w) = sdp_records w"
  "g_sess (called w) = g_sess w" "refuse (called w) = refuse w" "calls (called w) = Suc (calls w)"
  by (simp_all add: called_def)

lemma set_file_simps [simp]:
  "fds (set_file s f w) = (fds w)(nat s \<mapsto> f)" "fd_limit (set_file s f w) = fd_limit w"
  "sdp_records (set_file s f w) = sdp_records w"
  "g_sess (set_file s f w) = g_sess w"
  "refuse (set_file s f w) = refuse w" "calls (set_file s f w) = calls w"
  by (simp_all add: set_file_def)

lemma sys_close_simps [simp]:
  "0 \<le> s \<Longrightarrow> fds (sys_close s w) = (fds w)(nat s := None)" "fd_limit (sys_close s w) = fd_limit w"
  "sdp_records (sys_close s w) = sdp_records w" "g_sess (sys_close s w) = g_sess w"
  by (simp_all add: sys_close_def)

lemma free_fd_Some: "free_fd w = Some i \<Longrightarrow> fds w i = None \<and> i < fd_limit w"
  by (auto simp: free_fd_def find_Some_iff)

lemma free_fd_lowest: "free_fd w = Some i \<Longrightarrow> j < i \<Longrightarrow> fds w j \<noteq> None"
  by (auto simp: free_fd_def find_Some_iff)

lemma new_fd_cases:
  assumes "new_fd f w = (s, w')"
  obtains "s = -1" "fds w' = fds w" "sdp_records w' = sdp_records w"
  | i where "s = int i" "fds w i = None" "fds w' = (fds w)(i \<mapsto> f)" "sdp_records w' = sdp_records w"
  using assms by (auto simp: new_fd_def split: if_splits option.splits dest: free_fd_Some)

lemma sys_update_cases:
  assumes "sys_update s f w = (rv, w')"
  obtains "rv = -1" "fds w' = fds w" "sdp_records w' = sdp_records w"
  | "rv = 0" "fds w' = (fds w)(nat s \<mapsto> f)" "sdp_records w' = sdp_records w"
  using assms by (auto simp: sys_update_def split: if_splits)

lemma sys_setsockopt_fds: "sys_setsockopt s w = (rv, w') \<Longrightarrow> fds w' = fds w \<and> sdp_records w' = sdp_records w"
  by (auto simp: sys_setsockopt_def)

lemma bind_listen_cases:
  assumes "bind_listen ns (int i) a w = (s, w')"
  obtains "s = -1" "fds w' = (fds w)(i := None)" "sdp_records w' = sdp_records w"
  | "s = int i" "fds w' = (fds w)(i \<mapsto> Listening (kernel_name ns a))" "sdp_records w' = sdp_records w"
proof -
  obtain rv w1 where b: "sys_bind ns (int i) a w = (rv, w1)" by force
  from b [unfolded sys_bind_def] show ?thesis
  proof (cases rule: sys_update_cases)
    case 1
    with assms b that(1) show ?thesis by (auto simp: bind_listen_def)
  next
    case 2
    obtain rv2 w2 where l: "sys_listen (int i) w1 = (rv2, w2)" by force
    have "sys_update (int i) (Listening (kernel_name ns a)) w1 = (rv2, w2)"
      using l 2 by (simp add: sys_listen_def file_at_def)
    then show ?thesis
      by (cases rule: sys_update_cases) (use assms b l 2 that in \<open>auto simp: bind_listen_def\<close>)
  qed
qed

section \<open>The contract of a listener\<close>

text \<open>
  What the server relies on: a descriptor that was free listens on \<open>name\<close>, every other one is
  as before; after a failure all are as before, but that \<open>leaky\<close> listeners may leave a fresh
  socket open.
\<close>

locale listener =
  fixes listen :: "os \<Rightarrow> int \<times> os" and name :: "sockaddr option" and leaky :: bool
  assumes listening: "listen w = (s, w') \<Longrightarrow> s \<noteq> -1 \<Longrightarrow>
      \<exists>i a. s = int i \<and> name = Some a \<and> fds w i = None \<and> fds w' = (fds w)(i \<mapsto> Listening a)"
    and failing: "listen w = (-1, w') \<Longrightarrow>
      fds w' = fds w \<or> leaky \<and> (\<exists>i f. fds w i = None \<and> fds w' = (fds w)(i \<mapsto> Fresh f))"
begin

lemma result: "listen w = (s, w') \<Longrightarrow> s = -1 \<or> 0 \<le> s"
  using listening [of w s w'] by (cases "s = -1") auto

lemma keeps_open: "listen w = (s, w') \<Longrightarrow> fds w i = Some f \<Longrightarrow> fds w' i = Some f"
  using listening [of w s w'] failing [of w w'] by (cases "s = -1") auto

lemma opens_at_most_one:
  assumes "listen w = (s, w')"
  shows "finite (dom (fds w)) \<Longrightarrow> finite (dom (fds w')) \<and> card (dom (fds w')) \<le> Suc (card (dom (fds w)))"
proof -
  assume f: "finite (dom (fds w))"
  have "fds w' = fds w \<or> (\<exists>i x. fds w' = (fds w)(i \<mapsto> x))"
    using listening [OF assms] failing [of w w'] assms by (cases "s = -1") auto
  with f show ?thesis by (auto simp: card_insert_if)
qed

end

lemma pp_listen_listening:
  assumes l: "pp_listen ns family ip port w = (s, w')" "s \<noteq> -1"
  shows "\<exists>i b. s = int i \<and> map_option (kernel_name ns) (listen_address ns family ip port) = Some b \<and>
    fds w i = None \<and> fds w' = (fds w)(i \<mapsto> Listening b)"
proof -
  from l obtain a where a: "listen_address ns family ip port = Some a"
    by (auto simp: pp_listen_def split: option.splits)
  obtain s1 w1 where s1: "sys_socket family w = (s1, w1)" by force
  obtain rv w2 where o: "sys_setsockopt s1 w1 = (rv, w2)" by force
  note o' = sys_setsockopt_fds [OF o]
  from s1 [unfolded sys_socket_def] show ?thesis
  proof (cases rule: new_fd_cases)
    case (2 i)
    with l a s1 o have "bind_listen ns (int i) a w2 = (s, w')"
      by (auto simp: pp_listen_def split: if_splits)
    then show ?thesis
      by (cases rule: bind_listen_cases) (use l 2 a o' in auto)
  qed (use l a s1 in \<open>auto simp: pp_listen_def\<close>)
qed

lemma pp_listen_refused:
  assumes l: "pp_listen ns family ip port w = (-1, w')"
  shows "fds w' = fds w \<or> (\<exists>i f. fds w i = None \<and> fds w' = (fds w)(i \<mapsto> Fresh f))"
proof (cases "listen_address ns family ip port")
  case None
  with l show ?thesis by (simp add: pp_listen_def)
next
  case (Some a)
  obtain s1 w1 where s1: "sys_socket family w = (s1, w1)" by force
  obtain rv w2 where o: "sys_setsockopt s1 w1 = (rv, w2)" by force
  note o' = sys_setsockopt_fds [OF o]
  from s1 [unfolded sys_socket_def] show ?thesis
  proof (cases rule: new_fd_cases)
    case 1
    with l Some s1 show ?thesis by (simp add: pp_listen_def)
  next
    case (2 i)
    show ?thesis
    proof (cases "rv = 0")
      case False
      with l Some s1 o o' 2 show ?thesis by (auto simp: pp_listen_def)
    next
      case True
      with l Some s1 o o' 2 have "bind_listen ns (int i) a w2 = (-1, w')"
        by (auto simp: pp_listen_def)
      then show ?thesis
        by (cases rule: bind_listen_cases) (use 2 o' in auto)
    qed
  qed
qed

interpretation inet: listener "pp_listen ns family ip port"
    "map_option (kernel_name ns) (listen_address ns family ip port)" True
  by (unfold_locales, rule pp_listen_listening, assumption+, use pp_listen_refused in simp)

interpretation unix: listener "pp_uxlisten ns path" "map_option (kernel_name ns) (init_sockaddr_un path)" False
proof unfold_locales
  fix w s w'
  assume l: "pp_uxlisten ns path w = (s, w')" "s \<noteq> -1"
  then obtain a where a: "init_sockaddr_un path = Some a"
    by (auto simp: pp_uxlisten_def split: option.splits)
  obtain s1 w1 where s1: "sys_socket AF_UNIX w = (s1, w1)" by force
  from s1 [unfolded sys_socket_def]
  show "\<exists>i b. s = int i \<and> map_option (kernel_name ns) (init_sockaddr_un path) = Some b \<and>
      fds w i = None \<and> fds w' = (fds w)(i \<mapsto> Listening b)"
  proof (cases rule: new_fd_cases)
    case (2 i)
    with l a s1 have "bind_listen ns (int i) a w1 = (s, w')" by (simp add: pp_uxlisten_def)
    then show ?thesis by (cases rule: bind_listen_cases) (use l 2 a in auto)
  qed (use l a s1 in \<open>auto simp: pp_uxlisten_def\<close>)
next
  fix w w'
  assume l: "pp_uxlisten ns path w = (-1, w')"
  obtain s1 w1 where s1: "sys_socket AF_UNIX w = (s1, w1)" by force
  have "fds w' = fds w"
  proof (cases "init_sockaddr_un path")
    case (Some a)
    from s1 [unfolded sys_socket_def] show ?thesis
    proof (cases rule: new_fd_cases)
      case (2 i)
      with l Some s1 have "bind_listen ns (int i) a w1 = (-1, w')" by (simp add: pp_uxlisten_def)
      then show ?thesis by (cases rule: bind_listen_cases) (use 2 in auto)
    qed (use l Some s1 in \<open>simp add: pp_uxlisten_def\<close>)
  qed (use l in \<open>simp add: pp_uxlisten_def\<close>)
  then show "fds w' = fds w \<or> False \<and> (\<exists>i f. fds w i = None \<and> fds w' = (fds w)(i \<mapsto> Fresh f))" by simp
qed

section \<open>Bluetooth registration\<close>

lemma sys_getsockname_fds: "sys_getsockname s w = (r, w') \<Longrightarrow> fds w' = fds w \<and> sdp_records w' = sdp_records w \<and> g_sess w' = g_sess w"
  by (auto simp: sys_getsockname_def split: if_splits option.splits descr.splits)

lemma pp_btgetport_fds:
  "pp_btgetport s w = (r, w') \<Longrightarrow> fds w' = fds w \<and> sdp_records w' = sdp_records w \<and> g_sess w' = g_sess w"
  by (auto simp: pp_btgetport_def dest!: sys_getsockname_fds split: option.splits sockaddr.splits prod.splits)

lemma register_sdp_result:
  assumes "register_sdp s w = (rv, w')"
  shows "0 \<le> rv \<and> fds w' = fds w"
proof -
  obtain port w1 where g: "pp_btgetport s w = (port, w1)" by force
  with pp_btgetport_fds [OF g] assms show ?thesis
    by (auto simp: register_sdp_def add_sp_def Let_def split: if_splits)
qed

lemma pp_btlisten_listening:
  assumes l: "pp_btlisten ns btaddr channel w = (s, w')" "s \<noteq> -1"
  shows "\<exists>i b. s = int i \<and> (if fst (str2ba ns btaddr) = 0
      then Some (kernel_name ns (Rfcomm (snd (str2ba ns btaddr)) (word_of_int channel))) else None) = Some b \<and>
    fds w i = None \<and> fds w' = (fds w)(i \<mapsto> Listening b)"
proof -
  obtain rv ba where ba: "str2ba ns btaddr = (rv, ba)" by force
  obtain s1 w1 where s1: "sys_socket AF_BLUETOOTH w = (s1, w1)" by force
  obtain rv2 w2 where o: "sys_setsockopt s1 w1 = (rv2, w2)" by force
  note o' = sys_setsockopt_fds [OF o]
  from s1 [unfolded sys_socket_def] show ?thesis
  proof (cases rule: new_fd_cases)
    case (2 i)
    obtain s3 w3 where b: "bind_listen ns (int i) (Rfcomm ba (word_of_int channel)) w2 = (s3, w3)" by force
    then show ?thesis
    proof (cases rule: bind_listen_cases)
      case 1
      with l ba s1 o o' 2 b show ?thesis by (auto simp: pp_btlisten_def split: if_splits)
    next
      case ok: 2
      obtain rv4 w4 where r: "register_sdp (int i) w3 = (rv4, w4)" by force
      with register_sdp_result [OF r] l ba s1 o o' 2 b ok show ?thesis
        by (auto simp: pp_btlisten_def split: if_splits)
    qed
  qed (use l ba s1 in \<open>auto simp: pp_btlisten_def split: if_splits\<close>)
qed

lemma pp_btlisten_refused:
  assumes l: "pp_btlisten ns btaddr channel w = (-1, w')"
  shows "fds w' = fds w \<or> (\<exists>i f. fds w i = None \<and> fds w' = (fds w)(i \<mapsto> Fresh f))"
proof -
  obtain rv ba where ba: "str2ba ns btaddr = (rv, ba)" by force
  obtain s1 w1 where s1: "sys_socket AF_BLUETOOTH w = (s1, w1)" by force
  obtain rv2 w2 where o: "sys_setsockopt s1 w1 = (rv2, w2)" by force
  note o' = sys_setsockopt_fds [OF o]
  from s1 [unfolded sys_socket_def] show ?thesis
  proof (cases rule: new_fd_cases)
    case (2 i)
    obtain s3 w3 where b: "bind_listen ns (int i) (Rfcomm ba (word_of_int channel)) w2 = (s3, w3)" by force
    then show ?thesis
    proof (cases rule: bind_listen_cases)
      case 1
      with l ba s1 o o' 2 b show ?thesis by (auto simp: pp_btlisten_def split: if_splits)
    next
      case ok: 2
      obtain rv4 w4 where r: "register_sdp (int i) w3 = (rv4, w4)" by force
      with register_sdp_result [OF r] l ba s1 o o' 2 b ok show ?thesis
        by (auto simp: pp_btlisten_def split: if_splits)
    qed
  qed (use l ba s1 in \<open>auto simp: pp_btlisten_def split: if_splits\<close>)
qed

interpretation bt: listener "pp_btlisten ns btaddr channel"
    "if fst (str2ba ns btaddr) = 0 then Some (kernel_name ns (Rfcomm (snd (str2ba ns btaddr)) (word_of_int channel))) else None"
    True
  by (unfold_locales, rule pp_btlisten_listening, assumption+, use pp_btlisten_refused in simp)

section \<open>Accepting\<close>

lemma pp_accept_result:
  assumes "pp_accept sk w = (newS, w')"
  shows "newS = -1 \<and> fds w' = fds w \<or>
    (\<exists>i a. newS = int i \<and> fds w i = None \<and> file_at sk w = Some (Listening a) \<and>
       fds w' = (fds w)(i \<mapsto> Accepted a))"
proof -
  obtain s1 w1 where s1: "sys_accept sk w = (s1, w1)" by force
  show ?thesis
  proof (cases "\<exists>a. file_at sk w = Some (Listening a)")
    case True
    then obtain a where a: "file_at sk w = Some (Listening a)" by blast
    with s1 have "new_fd (Accepted a) w = (s1, w1)" by (simp add: sys_accept_def)
    then show ?thesis
      by (cases rule: new_fd_cases) (use assms s1 a in \<open>auto simp: pp_accept_def split: if_splits\<close>)
  next
    case False
    with s1 have "s1 = -1" "w1 = called w"
      by (auto simp: sys_accept_def split: option.splits descr.splits)
    with assms s1 have "newS = -1 \<and> w' = called w" by (simp add: pp_accept_def)
    then show ?thesis by simp
  qed
qed

section \<open>The addresses\<close>

text \<open>C25 \<open>pp_listen\<close> either listens on the address it was given, on a descriptor that was free, or
  fails and leaves every descriptor as it was; only a refused \<open>setsockopt\<close> leaves the new socket
  open.\<close>

theorem pp_listen_result:
  assumes "pp_listen ns family ip port w = (s, w')"
  shows "(\<exists>i a. s = int i \<and> listen_address ns family ip port = Some a \<and> fds w i = None \<and>
        fds w' = (fds w)(i \<mapsto> Listening (kernel_name ns a))) \<or>
    s = -1 \<and> (fds w' = fds w \<or>
      (\<exists>i. fds w i = None \<and> fds w' = (fds w)(i \<mapsto> Fresh family) \<and> refuse w (Suc (calls w))))"
proof (cases "listen_address ns family ip port")
  case None
  with assms show ?thesis by (simp add: pp_listen_def)
next
  case (Some a)
  obtain s1 w1 where s1: "sys_socket family w = (s1, w1)" by force
  have w1: "calls w1 = Suc (calls w)" "refuse w1 = refuse w"
    using s1 by (auto simp: sys_socket_def new_fd_def set_file_def split: if_splits option.splits)
  from s1 [unfolded sys_socket_def] show ?thesis
  proof (cases rule: new_fd_cases)
    case 1
    with assms Some s1 show ?thesis by (simp add: pp_listen_def)
  next
    case (2 i)
    show ?thesis
    proof (cases "refused w1")
      case True
      with assms Some s1 2 have "s = -1" "w' = called w1"
        by (simp_all add: pp_listen_def sys_setsockopt_def)
      with 2 w1 True show ?thesis
        by (intro disjI2) (auto simp: refused_def intro!: exI [of _ i])
    next
      case False
      with assms Some s1 2 have "bind_listen ns (int i) a (called w1) = (s, w')"
        by (simp add: pp_listen_def sys_setsockopt_def)
      then show ?thesis by (cases rule: bind_listen_cases) (use 2 Some in auto)
    qed
  qed
qed

definition example_names :: names where
  "example_names =
     \<lparr>inet_aton = (\<lambda>s. if s = ''0.0.0.0'' then Some 0 else None), inet_pton = (\<lambda>_. None),
      gethostbyname = (\<lambda>_. Some [0x7F000001]), str2ba = (\<lambda>_. (0, replicate 6 0)),
      kernel_name = (\<lambda>a. case a of
        Inet ip port \<Rightarrow> Inet ip (if port = 0 then 40000 else port)
      | Rfcomm b channel \<Rightarrow> Rfcomm b (if channel = 0 then 7 else channel)
      | _ \<Rightarrow> a)\<rparr>"

definition example_os :: "nat set \<Rightarrow> os" where
  "example_os R =
     \<lparr>fds = (\<lambda>i. if i < 3 then Some OtherFile else None), fd_limit = 64, refuse = (\<lambda>k. k \<in> R),
      calls = 0, g_sess = None, sdp_records = []\<rparr>"

lemma example_os_simps [simp]:
  "fds (example_os R) i = (if i < 3 then Some OtherFile else None)" "refuse (example_os R) k = (k \<in> R)"
  "calls (example_os R) = 0" "sdp_records (example_os R) = []" "g_sess (example_os R) = None"
  by (simp_all add: example_os_def)

lemma example_free_fd: "free_fd (example_os R) = Some 3"
  by (simp add: free_fd_def upt_rec example_os_def)

lemma example_listen:
  "\<exists>w'. pp_listen example_names AF_INET ''0.0.0.0'' port (example_os {}) = (3, w') \<and> \<not> refused w' \<and>
     fds w' 3 = Some (Listening (kernel_name example_names (Inet 0 (word_of_int port))))"
  by (simp add: pp_listen_def listen_address_def example_names_def sys_socket_def new_fd_def
      example_free_fd sys_setsockopt_def refused_def bind_listen_def sys_bind_def sys_update_def
      sys_listen_def file_at_def)

lemma pp_listen_result_witness:
  "\<exists>w'. pp_listen example_names AF_INET ''0.0.0.0'' 3030 (example_os {}) = (3, w') \<and>
     fds w' = (fds (example_os {}))(3 \<mapsto> Listening (Inet 0 3030))"
proof -
  obtain w' where l: "pp_listen example_names AF_INET ''0.0.0.0'' 3030 (example_os {}) = (3, w')"
    using example_listen by blast
  with pp_listen_result [OF l] show ?thesis
    by (auto simp: listen_address_def example_names_def)
qed

text \<open>C26 Unix sockets, with a descriptor free and no call refused: for a path of up to 107 bytes
  \<open>pp_uxlisten\<close> listens on the abstract name of the path, a zero byte and the path, and
  \<open>pp_uxconnect\<close> asks for that name, so that client and server name the same socket exactly when
  their paths are equal; a longer path is refused by both before a socket is made.\<close>

theorem unix_rendezvous:
  assumes "refuse w = (\<lambda>_. False)" "free_fd w = Some i" "refuse v = (\<lambda>_. False)" "free_fd v = Some j"
    and "\<forall>name. kernel_name ns (Local (0 # name)) = Local (0 # name)"
  shows "if length path \<le> 107 \<and> length path' \<le> 107
    then \<exists>w' v' a b. pp_uxlisten ns path w = (int i, w') \<and> fds w' = (fds w)(i \<mapsto> Listening a) \<and>
      pp_uxconnect path' v = (int j, v') \<and> fds v' = (fds v)(j \<mapsto> Connected b) \<and>
      a = Local (0 # path) \<and> (a = b \<longleftrightarrow> path = path')
    else (107 < length path \<longrightarrow> pp_uxlisten ns path w = (-1, w)) \<and>
      (107 < length path' \<longrightarrow> pp_uxconnect path' v = (-1, v))"
proof -
  note defs = pp_uxlisten_def pp_uxconnect_def init_sockaddr_un_def sys_socket_def new_fd_def refused_def
    bind_listen_def sys_bind_def sys_update_def sys_listen_def file_at_def connect_or_close_def sys_connect_def
  have "\<exists>w'. pp_uxlisten ns path w = (int i, w') \<and> fds w' = (fds w)(i \<mapsto> Listening (Local (0 # path)))"
    if "length path \<le> 107" using that assms by (simp add: defs)
  moreover have "\<exists>v'. pp_uxconnect path' v = (int j, v') \<and> fds v' = (fds v)(j \<mapsto> Connected (Local (0 # path')))"
    if "length path' \<le> 107" using that assms by (simp add: defs)
  moreover have "Local (0 # path) = Local (0 # path') \<longleftrightarrow> path = path'" by simp
  moreover have "107 < length path \<Longrightarrow> pp_uxlisten ns path w = (-1, w)"
    "107 < length path' \<Longrightarrow> pp_uxconnect path' v = (-1, v)" by (simp_all add: defs)
  ultimately show ?thesis unfolding if_bool_eq_conj by blast
qed

text \<open>C29 The port the server reports is the one it was asked to listen on, modulo 65536, on either
  internet family, when the kernel keeps a port that is not 0.\<close>

theorem getport_of_listen:
  assumes "pp_listen ns family ip port w = (s, w')" "s \<noteq> -1" "family = AF_INET \<or> family = AF_INET6"
    and "\<forall>a b p. p \<noteq> 0 \<longrightarrow>
      kernel_name ns (Inet a p) = Inet a p \<and> kernel_name ns (Inet6 b p) = Inet6 b p"
    and "port mod 65536 \<noteq> 0" "\<not> refused w'"
  shows "fst (pp_getport s w') = port mod 65536"
proof -
  let ?p = "word_of_int port :: 16 word"
  have u: "uint ?p = port mod 65536"
    by (simp add: unsigned_of_int take_bit_eq_mod)
  with assms(5) have p: "?p \<noteq> 0" by auto
  from inet.listening [OF assms(1,2)] obtain i a where
    a: "s = int i" "listen_address ns family ip port = Some a" "fds w' i = Some (Listening (kernel_name ns a))"
    by auto
  show ?thesis
    using a assms(3,4,6) p u
    by (auto simp: listen_address_def pp_getport_def sys_getsockname_def file_at_def)
qed

lemma getport_of_listen_witness:
  "\<exists>w'. pp_listen example_names AF_INET ''0.0.0.0'' 3030 (example_os {}) = (3, w') \<and>
     fst (pp_getport 3 w') = 3030"
proof -
  obtain w' where l: "pp_listen example_names AF_INET ''0.0.0.0'' 3030 (example_os {}) = (3, w')"
    "\<not> refused w'"
    using example_listen by blast
  with getport_of_listen [OF l(1)] show ?thesis by (simp add: example_names_def)
qed

lemma unix_rendezvous_witness:
  "\<exists>w' v' a. pp_uxlisten example_names [47, 97] (example_os {}) = (3, w') \<and>
     pp_uxconnect [47, 97] (example_os {}) = (3, v') \<and> fds w' 3 = Some (Listening a) \<and> fds v' 3 = Some (Connected a)"
proof -
  have r: "refuse (example_os {}) = (\<lambda>_. False)" by (simp add: fun_eq_iff)
  from unix_rendezvous [OF r example_free_fd r example_free_fd, of example_names "[47, 97]" "[47, 97]"]
  show ?thesis by (fastforce simp: example_names_def)
qed

text \<open>C33 With a valid address, a free descriptor and no call refused, \<open>pp_btlisten\<close> succeeds, and has
  registered one service record: it is public, of the service class of the proxy, and names the
  channel the socket listens on, also when the kernel chose it.\<close>

theorem btlisten_advertises_channel:
  assumes "str2ba ns btaddr = (0, ba)" "free_fd w = Some i" "refuse w = (\<lambda>_. False)"
    and "kernel_name ns (Rfcomm ba (word_of_int channel)) = Rfcomm ba' ch"
  shows "\<exists>w' r. pp_btlisten ns btaddr channel w = (int i, w') \<and>
    fds w' i = Some (Listening (Rfcomm ba' ch)) \<and> sdp_records w' = sdp_records w @ [r] \<and>
    sdp_protos r = [(L2CAP_UUID, None), (RFCOMM_UUID, Some ch)] \<and> sdp_classes r = [BT_PCSC_UUID] \<and> sdp_browse_public r"
  using assms
  by (simp add: pp_btlisten_def sys_socket_def new_fd_def refused_def sys_setsockopt_def bind_listen_def
      sys_bind_def sys_update_def sys_listen_def file_at_def register_sdp_def pp_btgetport_def
      sys_getsockname_def add_sp_def set_rfcomm_protos_def set_service_class_def
      set_public_browse_group_def empty_record_def Let_def)

lemma btlisten_advertises_channel_witness:
  "\<exists>w' r. pp_btlisten example_names ''00:00:00:00:00:00'' 0 (example_os {}) = (3, w') \<and>
    sdp_records w' = [r] \<and> sdp_protos r = [(L2CAP_UUID, None), (RFCOMM_UUID, Some 7)]"
proof -
  have "str2ba example_names ''00:00:00:00:00:00'' = (0, replicate 6 0)"
    "kernel_name example_names (Rfcomm (replicate 6 0) (word_of_int 0)) = Rfcomm (replicate 6 0) 7"
    by (simp_all add: example_names_def)
  moreover have "refuse (example_os {}) = (\<lambda>_. False)" by (simp add: fun_eq_iff)
  ultimately show ?thesis
    using btlisten_advertises_channel [OF _ example_free_fd [of "{}"]] by fastforce
qed

text \<open>\<open>pp_btconnect\<close> refuses every address that \<open>str2ba\<close> accepts, before it has opened a socket.\<close>

lemma btconnect_refuses_addresses:
  "str2ba ns btaddr = (0, ba) \<Longrightarrow> pp_btconnect ns btaddr channel w = (-1, w)"
  by (simp add: pp_btconnect_def)

text \<open>\<open>pp_connect_by_ip\<close> either returns a new descriptor connected to the address of the host, or
  fails with all descriptors as before.\<close>

theorem connect_by_ip_result:
  assumes "pp_connect_by_ip ns ip port w = Inr (s, w')"
  shows "(\<exists>i a. s = int i \<and> host_address ns ip = Inr (Some a) \<and> fds w i = None \<and>
        fds w' = (fds w)(i \<mapsto> Connected (Inet a (word_of_int port)))) \<or>
    s = -1 \<and> fds w' = fds w"
proof -
  from assms obtain h where h: "host_address ns ip = Inr h"
    by (auto simp: pp_connect_by_ip_def outcome_simps)
  show ?thesis
  proof (cases h)
    case None
    with assms h show ?thesis by (simp add: pp_connect_by_ip_def)
  next
    case (Some a)
    obtain s1 w1 where s1: "sys_socket AF_INET w = (s1, w1)" by force
    from s1 [unfolded sys_socket_def] show ?thesis
    proof (cases rule: new_fd_cases)
      case 1
      with assms h Some s1 show ?thesis by (simp add: pp_connect_by_ip_def)
    next
      case (2 i)
      obtain rv w2 where c: "sys_connect (int i) (Inet a (word_of_int port)) w1 = (rv, w2)" by force
      from assms h Some s1 2 c have r: "(s, w') = (if rv \<noteq> 0 then (-1, sys_close (int i) w2) else (int i, w2))"
        by (simp add: pp_connect_by_ip_def connect_or_close_def split: if_splits)
      from c [unfolded sys_connect_def] show ?thesis
        by (cases rule: sys_update_cases) (use r h Some 2 in auto)
    qed
  qed
qed

lemma connect_by_ip_result_witness:
  "\<exists>w'. pp_connect_by_ip example_names ''card-host'' 3030 (example_os {}) = Inr (3, w') \<and>
     fds w' = (fds (example_os {}))(3 \<mapsto> Connected (Inet 0x7F000001 3030))"
proof -
  have h: "host_address example_names ''card-host'' = Inr (Some 0x7F000001)"
    by (simp add: host_address_def example_names_def)
  obtain w' where c: "pp_connect_by_ip example_names ''card-host'' 3030 (example_os {}) = Inr (3, w')"
    by (simp add: pp_connect_by_ip_def h sys_socket_def new_fd_def example_free_fd refused_def
        connect_or_close_def sys_connect_def sys_update_def)
  with connect_by_ip_result [OF c] h show ?thesis by auto
qed

end
