(* ===== verification/Daemon.thy ===== *)
theory Daemon
  imports Sockets Exchange Server
begin

text \<open>
  The server process around the connections: \<open>main\<close> of \<open>src/src/server/server.c\<close> with its
  options, the signal handlers, the pipe that wakes the loop, the loop over \<open>select\<close>, \<open>accept\<close>
  and \<open>fork\<close>, and what the forked service does.

  \<open>select\<close>, \<open>fork\<close> and the moments at which signals arrive or another thread calls \<open>pp_stop\<close> are the
  environment's choice; the step relation \<open>daemon_step\<close> has a rule for each, and one for each piece
  of a turn of the loop.  A call of \<open>pp_stop\<close> and of a signal handler counts as one step.
\<close>

section \<open>The process\<close>

datatype signal = SIGINT | SIGTERM | SIGHUP | SIGCHLD | OtherSignal

text \<open>
  \<open>services\<close> are the processes that were forked and run, \<open>zombies\<close> those that ended and were
  not waited for.  \<open>lost\<close> records, for the statements only, the connections \<open>fork\<close> failed for,
  whose descriptors the code forgets.  \<open>wake_read\<close> and \<open>wake_write\<close> are \<open>pp_wake_pipe\<close>, and \<open>wake_bytes\<close> is what
  the pipe holds.
\<close>

record daemon =
  pp_daemon_abort :: bool
  wake_read :: int
  wake_write :: int
  wake_bytes :: nat
  handlers :: "signal list"
  services :: "nat list"
  zombies :: "nat list"
  lost :: "int list"
  files :: "string \<Rightarrow> int option"
  d_os :: os

definition pp_stop :: "daemon \<Rightarrow> int \<times> daemon" where
  "pp_stop d =
     (let d = d\<lparr>pp_daemon_abort := True\<rparr> in
      if wake_write d < 0 then (-1, d)
      else (0, d\<lparr>wake_bytes := Suc (wake_bytes d), d_os := sys_close (wake_write d) (d_os d),
                 wake_write := -1\<rparr>))"

text \<open>\<open>waitpid\<close> with \<open>WNOHANG\<close> until there is nothing to wait for.\<close>

fun reap :: "nat list \<Rightarrow> nat list" where
  "reap [] = []"
| "reap (pid # zs) = reap zs"

definition signalHandler :: "signal \<Rightarrow> daemon \<Rightarrow> daemon" where
  "signalHandler s d =
     (case s of
        SIGINT \<Rightarrow> d\<lparr>pp_daemon_abort := True\<rparr>
      | SIGTERM \<Rightarrow> d\<lparr>pp_daemon_abort := True\<rparr>
      | SIGHUP \<Rightarrow> d\<lparr>pp_daemon_abort := True\<rparr>
      | SIGCHLD \<Rightarrow> d\<lparr>zombies := reap (zombies d)\<rparr>
      | OtherSignal \<Rightarrow> d)"

definition setSingleSignalHandler :: "signal \<Rightarrow> daemon \<Rightarrow> int \<times> daemon" where
  "setSingleSignalHandler s d =
     (let d' = d\<lparr>d_os := called (d_os d)\<rparr> in
      if refused (d_os d) then (-1, d') else (0, d'\<lparr>handlers := s # handlers d\<rparr>))"

fun set_handlers :: "signal list \<Rightarrow> daemon \<Rightarrow> int \<times> daemon" where
  "set_handlers [] d = (0, d)"
| "set_handlers (s # ss) d =
     (let (rv, d) = setSingleSignalHandler s d in if rv \<noteq> 0 then (rv, d) else set_handlers ss d)"

definition setSignalHandler :: "daemon \<Rightarrow> int \<times> daemon" where
  "setSignalHandler d = set_handlers [SIGINT, SIGCHLD, SIGTERM, SIGHUP] d"

section \<open>Options\<close>

record settings =
  s_addr :: "string option"
  s_family :: family
  s_port :: int
  s_unenc :: bool
  s_pid_file :: "string option"

definition no_settings :: settings where
  "no_settings =
     \<lparr>s_addr = None, s_family = AF_INET, s_port = -1, s_unenc = False, s_pid_file = None\<rparr>"

definition family_option :: "build \<Rightarrow> string \<Rightarrow> family option" where
  "family_option b optarg =
     (case optarg of
        [] \<Rightarrow> None
      | c # _ \<Rightarrow>
          if c = CHR ''b'' \<and> USE_BLUETOOTH b then Some AF_BLUETOOTH
          else if c = CHR ''4'' then Some AF_INET
          else if c = CHR ''6'' then Some AF_INET6
          else if c = CHR ''u'' then Some AF_UNIX
          else None)"

text \<open>One option as \<open>getopt\<close> returns it, with its argument; every other letter is a usage error.\<close>

definition one_option :: "build \<Rightarrow> char \<times> string \<Rightarrow> settings \<Rightarrow> settings outcome" where
  "one_option b arg s =
     (let (opt, optarg) = arg in
      if opt = CHR ''b'' then Inr (s\<lparr>s_addr := Some optarg\<rparr>)
      else if opt = CHR ''f'' then
        (case family_option b optarg of
           None \<Rightarrow> Inl (Exited (-1))
         | Some f \<Rightarrow> Inr (s\<lparr>s_family := f\<rparr>))
      else if opt = CHR ''p'' then Inr (s\<lparr>s_port := atoi optarg\<rparr>)
      else if opt = CHR ''u'' \<and> ENABLE_NULLENC b then Inr (s\<lparr>s_unenc := True\<rparr>)
      else if opt = CHR ''i'' then Inr (s\<lparr>s_pid_file := Some optarg\<rparr>)
      else Inl (Exited (-1)))"

fun parse_options :: "build \<Rightarrow> (char \<times> string) list \<Rightarrow> settings \<Rightarrow> settings outcome" where
  "parse_options b [] s = Inr s"
| "parse_options b (x # xs) s = bindo (one_option b x s) (parse_options b xs)"

definition default_addr :: "build \<Rightarrow> settings \<Rightarrow> string outcome" where
  "default_addr b s =
     (case s_addr s of
        Some a \<Rightarrow> Inr a
      | None \<Rightarrow>
          (case s_family s of
             AF_INET \<Rightarrow> Inr ''0.0.0.0''
           | AF_INET6 \<Rightarrow> Inr ''::''
           | AF_BLUETOOTH \<Rightarrow>
               if USE_BLUETOOTH b then Inr ''00:00:00:00:00:00'' else Inl (Exited (-1))
           | AF_UNIX \<Rightarrow> Inl (Exited (-1))))"

definition default_port :: "build \<Rightarrow> settings \<Rightarrow> int" where
  "default_port b s =
     (if s_port s = -1 then
        (case s_family s of
           AF_INET \<Rightarrow> PP_TCP_PORT
         | AF_BLUETOOTH \<Rightarrow> if USE_BLUETOOTH b then 0 else -1
         | _ \<Rightarrow> -1)
      else s_port s)"

definition choose_netopts :: "build \<Rightarrow> family \<Rightarrow> net_kind outcome" where
  "choose_netopts b f =
     (case f of
        AF_INET \<Rightarrow> Inr Network
      | AF_INET6 \<Rightarrow> Inr Network
      | AF_UNIX \<Rightarrow> Inr Unix
      | AF_BLUETOOTH \<Rightarrow> if USE_BLUETOOTH b then Inr Bluetooth else Inl (Exited (-1)))"

section \<open>Starting to listen\<close>

definition make_pipe :: "os \<Rightarrow> (int \<times> int \<times> os) option" where
  "make_pipe w =
     (if refused w then None
      else
        (case free_fd w of
           None \<Rightarrow> None
         | Some r \<Rightarrow>
             let w' = set_file (int r) OtherFile (called w) in
             (case free_fd w' of
                None \<Rightarrow> None
              | Some s \<Rightarrow> Some (int r, int s, set_file (int s) OtherFile w'))))"

definition write_pid_file :: "int \<Rightarrow> string \<Rightarrow> daemon \<Rightarrow> int \<times> daemon" where
  "write_pid_file pid path d =
     (let d' = d\<lparr>d_os := called (d_os d)\<rparr> in
      if refused (d_os d) then (-1, d') else (0, d'\<lparr>files := (files d)(path \<mapsto> pid)\<rparr>))"

text \<open>The wake pipe and the signal handlers.\<close>

definition start_pipe :: "daemon \<Rightarrow> daemon outcome" where
  "start_pipe d =
     (case make_pipe (d_os d) of
        None \<Rightarrow> Inl (Exited 2)
      | Some (r, s, w) \<Rightarrow>
          Inr (d\<lparr>pp_daemon_abort := False, wake_read := r, wake_write := s,
                 wake_bytes := 0, d_os := w\<rparr>))"

definition start_process :: "daemon \<Rightarrow> daemon outcome" where
  "start_process d =
     bindo (start_pipe d) (\<lambda>d.
       let (rv, d) = setSignalHandler d in if rv \<noteq> 0 then Inl (Exited 2) else Inr d)"

definition unlink_pid_file :: "settings \<Rightarrow> daemon \<Rightarrow> daemon" where
  "unlink_pid_file s d =
     (case s_pid_file s of None \<Rightarrow> d | Some f \<Rightarrow> d\<lparr>files := (files d)(f := None)\<rparr>)"

text \<open>Listening, the port that was given to the socket, and the file with the process number.\<close>

definition start_listening :: "net_kind \<Rightarrow> names \<Rightarrow> settings \<Rightarrow> string \<Rightarrow> int \<Rightarrow> int \<Rightarrow> daemon \<Rightarrow>
    (int \<times> int \<times> daemon) outcome" where
  "start_listening nk ns s addr port pid d =
     (let (sk, w) = n_listen (net_table nk) ns (s_family s) addr port (d_os d) in
      if sk < 0 then Inl (Exited 2)
      else
        let (port, w) = (case n_getport (net_table nk) of None \<Rightarrow> (port, w) | Some g \<Rightarrow> g sk w);
          d = d\<lparr>d_os := w\<rparr>;
          d = (case s_pid_file s of None \<Rightarrow> d | Some f \<Rightarrow> snd (write_pid_file pid f d))
        in Inr (sk, port, d))"

text \<open>
  \<open>main\<close> up to its loop.  \<open>tw\<close> is the state of the TLS library; the result is the listening
  socket, the table of operations, the port, the TLS context and the worlds.
\<close>

definition start_server :: "build \<Rightarrow> (tls_kind \<Rightarrow> 'w tlsopts) \<Rightarrow> names \<Rightarrow> int \<Rightarrow> (char \<times> string) list \<Rightarrow> daemon \<Rightarrow> 'w \<Rightarrow>
    (int \<times> netopts \<times> tls_kind \<times> int \<times> ptr \<times> daemon \<times> 'w) outcome" where
  "start_server b table ns pid args d tw =
     bindo (start_process d) (\<lambda>d.
     bindo (parse_options b args no_settings) (\<lambda>s.
     case pp_tlsopts_init_any b (s_unenc s) of
       (rv, None) \<Rightarrow> Inl (Exited (-1))
     | (rv, Some kind) \<Rightarrow>
         bindo (default_addr b s) (\<lambda>addr.
         bindo (choose_netopts b (s_family s)) (\<lambda>nk.
         bindo (init_server (table kind) tw) (\<lambda>(rv, ctx, tw).
           if rv < 0 then Inl (Exited 2)
           else
             bindo (start_listening nk ns s addr (default_port b s) pid (unlink_pid_file s d))
               (\<lambda>(sk, port, d). Inr (sk, net_table nk, kind, port, ctx, d, tw)))))))"

section \<open>The loop\<close>

text \<open>
  What \<open>select\<close> returns, an error or whether the wake pipe and the listening socket can be read,
  and what \<open>fork\<close> returns.
\<close>

datatype select_result = SelectFailed | SelectReady bool bool

datatype forked = ForkError | InChild | InParent nat

text \<open>
  Where the process is: at the test of the loop; past the test and before \<open>select\<close> has returned;
  with the result of \<open>select\<close>; before \<open>accept\<close>; before \<open>fork\<close>, with the connection; in the parent
  before it closes the connection; out of the loop, or in a forked service.
\<close>

datatype phase =
  Looping | Selecting | Returned select_result | Accepting | Forking int | Closing int
| Left_loop | Serving int

text \<open>One turn of the loop, in the pieces between which signals and other threads can act.\<close>

definition after_select :: "select_result \<Rightarrow> phase" where
  "after_select r =
     (case r of
        SelectFailed \<Rightarrow> Left_loop
      | SelectReady wake conn \<Rightarrow> if wake then Looping else if \<not> conn then Looping else Accepting)"

definition accept_connection :: "netopts \<Rightarrow> int \<Rightarrow> daemon \<Rightarrow> phase \<times> daemon" where
  "accept_connection opts sk d =
     (let (newS, w) = n_accept opts sk (d_os d) in
      (if newS \<noteq> -1 then Forking newS else Looping, d\<lparr>d_os := w\<rparr>))"

definition fork_service :: "forked \<Rightarrow> int \<Rightarrow> int \<Rightarrow> daemon \<Rightarrow> phase \<times> daemon" where
  "fork_service fk sk newS d =
     (case fk of
        ForkError \<Rightarrow> (Looping, d\<lparr>lost := newS # lost d\<rparr>)
      | InChild \<Rightarrow> (Serving newS, d\<lparr>d_os := sys_close sk (d_os d)\<rparr>)
      | InParent pid \<Rightarrow> (Closing newS, d\<lparr>services := pid # services d\<rparr>))"

definition close_connection :: "int \<Rightarrow> daemon \<Rightarrow> phase \<times> daemon" where
  "close_connection newS d = (Looping, d\<lparr>d_os := sys_close newS (d_os d)\<rparr>)"

text \<open>The pieces in a row, from a \<open>select\<close> that did not fail, with nothing in between.\<close>

definition main_round :: "netopts \<Rightarrow> int \<Rightarrow> bool \<Rightarrow> bool \<Rightarrow> forked \<Rightarrow> daemon \<Rightarrow> phase \<times> daemon" where
  "main_round opts sk wake conn fk d =
     (case after_select (SelectReady wake conn) of
        Accepting \<Rightarrow>
          (case accept_connection opts sk d of
             (Forking newS, d) \<Rightarrow>
               (case fork_service fk sk newS d of
                  (Closing newS, d) \<Rightarrow> close_connection newS d
                | r \<Rightarrow> r)
           | r \<Rightarrow> r)
      | ph \<Rightarrow> (ph, d))"

definition main_exit :: "build \<Rightarrow> family \<Rightarrow> int \<Rightarrow> daemon \<Rightarrow> daemon" where
  "main_exit b f sk d =
     (let d = d\<lparr>d_os := sys_close sk (d_os d)\<rparr>;
        d = (if 0 \<le> wake_read d
             then d\<lparr>d_os := sys_close (wake_read d) (d_os d), wake_read := -1\<rparr> else d)
      in case f of
           AF_BLUETOOTH \<Rightarrow> if USE_BLUETOOTH b then d\<lparr>d_os := pp_bluetooth_fini (d_os d)\<rparr> else d
         | _ \<Rightarrow> d)"

text \<open>The wake pipe is readable when it holds a byte or its write end is closed.\<close>

definition wake_ready :: "daemon \<Rightarrow> bool" where
  "wake_ready d \<longleftrightarrow> 0 < wake_bytes d \<or> wake_write d < 0"

text \<open>The places inside the loop.\<close>

fun in_loop :: "phase \<Rightarrow> bool" where
  "in_loop Left_loop \<longleftrightarrow> False"
| "in_loop (Serving _) \<longleftrightarrow> False"
| "in_loop _ \<longleftrightarrow> True"

text \<open>
  The steps of the loop, from \<open>enter\<close> to \<open>closes\<close>, and of its surroundings, which can come at every
  place inside the loop: a signal (\<open>signalled\<close>), a call of \<open>pp_stop\<close> by another thread (\<open>stopped\<close>),
  the end of a service.  \<open>select\<close> returns when the wake pipe can be read or a connection waits, and
  fails when a signal is handled while it waits (\<open>interrupted\<close>), as its documentation says; of
  its other failures, and of an \<open>accept\<close> that waits, the model has none.
\<close>

inductive daemon_step :: "netopts \<Rightarrow> int \<Rightarrow> phase \<times> daemon \<Rightarrow> phase \<times> daemon \<Rightarrow> bool"
  for opts :: netopts and sk :: int where
  enter: "\<not> pp_daemon_abort d \<Longrightarrow> daemon_step opts sk (Looping, d) (Selecting, d)"
| leave: "pp_daemon_abort d \<Longrightarrow> daemon_step opts sk (Looping, d) (Left_loop, d)"
| returns: "wake_ready d \<or> conn \<Longrightarrow>
     daemon_step opts sk (Selecting, d) (Returned (SelectReady (wake_ready d) conn), d)"
| interrupted: "\<not> wake_ready d \<Longrightarrow> s \<in> set (handlers d) \<Longrightarrow>
     daemon_step opts sk (Selecting, d) (Returned SelectFailed, signalHandler s d)"
| reacts: "daemon_step opts sk (Returned r, d) (after_select r, d)"
| accepts: "daemon_step opts sk (Accepting, d) (accept_connection opts sk d)"
| forks: "daemon_step opts sk (Forking newS, d) (fork_service fk sk newS d)"
| closes: "daemon_step opts sk (Closing newS, d) (close_connection newS d)"
| signalled: "in_loop ph \<Longrightarrow> s \<in> set (handlers d) \<Longrightarrow>
     daemon_step opts sk (ph, d) (ph, signalHandler s d)"
| stopped: "in_loop ph \<Longrightarrow> daemon_step opts sk (ph, d) (ph, snd (pp_stop d))"
| service_ends: "in_loop ph \<Longrightarrow> pid \<in> set (services d) \<Longrightarrow> daemon_step opts sk (ph, d)
     (ph, d\<lparr>services := remove1 pid (services d), zombies := pid # zombies d\<rparr>)"

section \<open>The service\<close>

text \<open>
  The child of a connection; the result is the code it exits with, \<open>None\<close> when the rounds do
  not suffice.
\<close>

definition service :: "nat \<Rightarrow> 'w tlsopts \<Rightarrow> 's pcsc \<Rightarrow> (nat \<Rightarrow> uninit) \<Rightarrow> ptr \<Rightarrow> int \<Rightarrow> daemon \<Rightarrow> 'w \<Rightarrow> 's \<Rightarrow>
    (int \<times> 'w \<times> 's) outcome option" where
  "service fuel ops lib us ctx newS d w s =
     (let (rv, d) = setSignalHandler d in
      if rv \<noteq> 0 then Some (Inr (2, w, s))
      else
        (case init_server_session ops ctx newS w of
           Inl e \<Rightarrow> Some (Inl e)
         | Inr (rv, session, w) \<Rightarrow>
             if rv < 0 then Some (Inr (2, w, s))
             else
               (case pp_handleConnection fuel ops lib us session w s of
                  None \<Rightarrow> None
                | Some (Inl e) \<Rightarrow> Some (Inl e)
                | Some (Inr (rv, w, s)) \<Rightarrow> Some (Inr (if rv \<noteq> 0 then 3 else 0, w, s)))))"

end
