(* ===== verification/DaemonSafe.thy ===== *)
theory DaemonSafe
  imports Daemon
begin

text \<open>
  The daemon around the connections: its listening socket stays open for as long as the loop
  runs, a round leaks no descriptor unless \<open>fork\<close> fails, \<open>pp_stop\<close> ends it, and so can the end
  of any of its services.
\<close>

section \<open>Accepting, for any table\<close>

lemma net_table_accept [simp]: "n_accept (net_table k) = pp_accept"
  by (cases k) (simp_all add: pp_network_opts_def pp_unix_opts_def pp_bluetooth_opts_def)

locale acceptor =
  fixes opts :: netopts
  assumes accept_free: "n_accept opts sk w = (newS, w') \<Longrightarrow>
    newS = -1 \<and> fds w' = fds w \<or>
    (\<exists>i a. newS = int i \<and> fds w i = None \<and> file_at sk w = Some (Listening a) \<and>
       fds w' = (fds w)(i \<mapsto> Accepted a))"
begin

text \<open>What \<open>accept\<close> and one turn of the loop do to the process.\<close>

lemma accept_cases:
  assumes "accept_connection opts sk d = (ph, d')"
  obtains (none) w where "ph = Looping" "d' = d\<lparr>d_os := w\<rparr>" "fds w = fds (d_os d)"
  | (got) i a w where "ph = Forking (int i)" "d' = d\<lparr>d_os := w\<rparr>" "fds (d_os d) i = None"
      "file_at sk (d_os d) = Some (Listening a)" "fds w = (fds (d_os d))(i \<mapsto> Accepted a)"
proof -
  obtain newS w where acc: "n_accept opts sk (d_os d) = (newS, w)" by force
  with accept_free [OF acc] assms none got show thesis
    by (cases "newS = -1") (auto simp: accept_connection_def)
qed

lemma round_descriptors:
  assumes "main_round opts sk wake conn fk d = (ph, d')" "file_at sk (d_os d) = Some (Listening a)"
  shows "case ph of
      Looping \<Rightarrow> fds (d_os d') = fds (d_os d) \<or>
        fk = ForkError \<and> (\<exists>i. fds (d_os d) i = None \<and> fds (d_os d') = (fds (d_os d))(i \<mapsto> Accepted a))
    | Serving newS \<Rightarrow> \<exists>i. newS = int i \<and> fds (d_os d) i = None \<and>
        fds (d_os d') = (fds (d_os d))(i \<mapsto> Accepted a, nat sk := None)
    | _ \<Rightarrow> False"
proof (cases "wake \<or> \<not> conn")
  case True
  with assms(1) have "ph = Looping \<and> d' = d" by (auto simp: main_round_def after_select_def split: if_splits)
  then show ?thesis by simp
next
  case False
  have sk: "0 \<le> sk" using assms(2) by (auto simp: file_at_def split: if_splits)
  obtain ph1 d1 where acc: "accept_connection opts sk d = (ph1, d1)" by force
  then show ?thesis
  proof (cases rule: accept_cases)
    case none
    with assms(1) acc False show ?thesis by (auto simp: main_round_def after_select_def)
  next
    case (got i b w)
    have undo: "(fds (d_os d))(i := None) = fds (d_os d)" using got(3) by (auto simp: fun_eq_iff)
    show ?thesis
      by (cases fk) (use assms acc False got sk undo in
          \<open>auto simp: main_round_def after_select_def fork_service_def close_connection_def\<close>)
  qed
qed

end

interpretation table: acceptor "net_table k"
  by unfold_locales (use pp_accept_result in auto)

section \<open>The loop\<close>

lemma signalHandler_keeps [simp]:
  "d_os (signalHandler s d) = d_os d" "handlers (signalHandler s d) = handlers d"
  "wake_write (signalHandler s d) = wake_write d" "services (signalHandler s d) = services d" "lost (signalHandler s d) = lost d"
  "pp_daemon_abort d \<Longrightarrow> pp_daemon_abort (signalHandler s d)"
  by (auto simp: signalHandler_def split: signal.splits)

lemma reap_all [simp]: "reap zs = []"
  by (induction zs) auto

lemma before_running: "daemon_step opts sk (ph, d) r \<Longrightarrow> in_loop ph"
  by (cases rule: daemon_step.cases) auto

abbreviation daemon_steps :: "netopts \<Rightarrow> int \<Rightarrow> phase \<times> daemon \<Rightarrow> phase \<times> daemon \<Rightarrow> bool" where
  "daemon_steps opts sk \<equiv> (daemon_step opts sk)\<^sup>*\<^sup>*"

text \<open>A turn of the loop that nothing interrupts.\<close>

lemma round_steps:
  assumes "main_round opts sk (wake_ready d) conn fk d = r" "wake_ready d \<or> conn"
  shows "daemon_steps opts sk (Selecting, d) r"
proof -
  have sel: "daemon_steps opts sk (Selecting, d) (after_select (SelectReady (wake_ready d) conn), d)"
    using returns [OF assms(2)] reacts by (meson converse_rtranclp_into_rtranclp r_into_rtranclp)
  show ?thesis
  proof (cases "wake_ready d")
    case True
    with assms sel show ?thesis by (auto simp: main_round_def after_select_def)
  next
    case False
    then have acc: "daemon_steps opts sk (Selecting, d) (accept_connection opts sk d)"
      using sel assms(2) accepts [of opts sk d] by (auto simp: after_select_def intro: rtranclp.rtrancl_into_rtrancl)
    obtain ph1 d1 where a: "accept_connection opts sk d = (ph1, d1)" by force
    then consider "ph1 = Looping" | newS where "ph1 = Forking newS"
      by (auto simp: accept_connection_def Let_def split: prod.splits if_splits)
    then show ?thesis
    proof cases
      case 1
      with acc a assms False show ?thesis by (auto simp: main_round_def after_select_def)
    next
      case (2 newS)
      have fk: "daemon_steps opts sk (Selecting, d) (fork_service fk sk newS d1)"
        using acc a 2 forks [of opts sk newS d1 fk] by (auto intro: rtranclp.rtrancl_into_rtrancl)
      have "(case fork_service fk sk newS d1 of (Closing t, e) \<Rightarrow> close_connection t e | x \<Rightarrow> x) = r"
        using assms a 2 False by (simp add: main_round_def after_select_def)
      with fk show ?thesis
        by (cases fk) (auto simp: fork_service_def intro: rtranclp.rtrancl_into_rtrancl closes)
    qed
  qed
qed

text \<open>
  The descriptors the loop started with, but for the write end of the wake pipe, are as they
  were; any other is a connection \<open>fork\<close> failed for, or the one the loop has in hand.
\<close>

definition in_hand :: "phase \<Rightarrow> int option" where
  "in_hand ph = (case ph of Forking newS \<Rightarrow> Some newS | Closing newS \<Rightarrow> Some newS | _ \<Rightarrow> None)"

definition keeps_descriptors :: "sockaddr \<Rightarrow> daemon \<Rightarrow> phase \<times> daemon \<Rightarrow> bool" where
  "keeps_descriptors a d0 = (\<lambda>(ph, d).
     (wake_write d = wake_write d0 \<or> wake_write d < 0) \<and>
     (\<forall>i. int i \<noteq> wake_write d0 \<longrightarrow> fds (d_os d) i = fds (d_os d0) i \<or>
        fds (d_os d0) i = None \<and> fds (d_os d) i = Some (Accepted a) \<and>
        (int i \<in> set (lost d) \<or> in_hand ph = Some (int i))) \<and>
     (\<forall>i. int i = wake_write d0 \<longrightarrow> fds (d_os d) i = fds (d_os d0) i \<or> wake_write d < 0) \<and>
     (\<forall>newS. in_hand ph = Some newS \<longrightarrow> 0 \<le> newS \<and>
        (newS = wake_write d0 \<longrightarrow> wake_write d < 0) \<and>
        (newS \<noteq> wake_write d0 \<longrightarrow> fds (d_os d0) (nat newS) = None)))"

lemma in_hand_simps [simp]:
  "in_hand Looping = None" "in_hand Selecting = None" "in_hand (Returned r) = None" "in_hand Accepting = None"
  "in_hand Left_loop = None" "in_hand (Forking newS) = Some newS" "in_hand (Closing newS) = Some newS"
  by (simp_all add: in_hand_def)

lemma after_select_in_hand [simp]: "in_hand (after_select r) = None"
  by (auto simp: after_select_def in_hand_def split: select_result.splits)

lemma keeps_refl: "in_hand ph = None \<Longrightarrow> keeps_descriptors a d (ph, d)"
  by (simp add: keeps_descriptors_def)

lemma keepsD:
  assumes "keeps_descriptors a d0 (ph, d)"
  shows "wake_write d = wake_write d0 \<or> wake_write d < 0"
    "int i \<noteq> wake_write d0 \<Longrightarrow> fds (d_os d) i = fds (d_os d0) i \<or> fds (d_os d0) i = None \<and>
      fds (d_os d) i = Some (Accepted a) \<and> (int i \<in> set (lost d) \<or> in_hand ph = Some (int i))"
    "int i = wake_write d0 \<Longrightarrow> fds (d_os d) i = fds (d_os d0) i \<or> wake_write d < 0"
    "in_hand ph = Some newS \<Longrightarrow> 0 \<le> newS" "in_hand ph = Some newS \<Longrightarrow> newS = wake_write d0 \<Longrightarrow> wake_write d < 0"
    "in_hand ph = Some newS \<Longrightarrow> newS \<noteq> wake_write d0 \<Longrightarrow> fds (d_os d0) (nat newS) = None"
  using assms unfolding keeps_descriptors_def case_prod_conv by blast+

lemma keeps_listening:
  assumes "keeps_descriptors a d0 (ph, d)" "file_at sk (d_os d0) = Some (Listening b)" "sk \<noteq> wake_write d0"
  shows "file_at sk (d_os d) = Some (Listening b)"
proof -
  have sk: "0 \<le> sk" "fds (d_os d0) (nat sk) = Some (Listening b)"
    using assms(2) by (auto simp: file_at_def split: if_splits)
  then have "int (nat sk) \<noteq> wake_write d0" using assms(3) by simp
  from keepsD(2) [OF assms(1) this] sk show ?thesis by (simp add: file_at_def)
qed

text \<open>Steps that neither open nor close a descriptor, and \<open>pp_stop\<close>.\<close>

lemma keeps_same:
  assumes "keeps_descriptors a d0 x" "d_os (snd y) = d_os (snd x)" "wake_write (snd y) = wake_write (snd x)"
    and "lost (snd y) = lost (snd x)" "in_hand (fst y) = in_hand (fst x)"
  shows "keeps_descriptors a d0 y"
  using assms by (cases x; cases y) (simp add: keeps_descriptors_def)

lemma keeps_stop:
  assumes "keeps_descriptors a d0 (ph, d)"
  shows "keeps_descriptors a d0 (ph, snd (pp_stop d))"
proof (cases "wake_write d < 0")
  case True
  then show ?thesis by (intro keeps_same [OF assms]) (simp_all add: pp_stop_def)
next
  case False
  with keepsD(1) [OF assms] have w: "wake_write d = wake_write d0" by simp
  have "fds (d_os (snd (pp_stop d))) i = fds (d_os d) i" if "int i \<noteq> wake_write d0" for i
    using that False w by (auto simp: pp_stop_def sys_close_def)
  moreover have "wake_write (snd (pp_stop d)) < 0" "lost (snd (pp_stop d)) = lost d"
    using False by (simp_all add: pp_stop_def)
  ultimately show ?thesis using assms by (simp add: keeps_descriptors_def)
qed

text \<open>The steps around a connection.\<close>

lemma keeps_accept:
  assumes k: "keeps_descriptors a d0 (Accepting, d)" and l: "file_at sk (d_os d) = Some (Listening a)"
    and w0: "0 \<le> wake_write d0 \<longrightarrow> fds (d_os d0) (nat (wake_write d0)) \<noteq> None"
    and acc: "accept_connection (net_table nk) sk d = (ph, d')"
  shows "keeps_descriptors a d0 (ph, d')"
  using acc
proof (cases rule: table.accept_cases)
  case (none w)
  with k show ?thesis by (simp add: keeps_descriptors_def)
next
  case (got i b w)
  have b: "b = a" using got(4) l by simp
  have wf: "int i = wake_write d0 \<Longrightarrow> wake_write d < 0"
  proof -
    assume i: "int i = wake_write d0"
    then have "fds (d_os d0) i \<noteq> None" using w0 by (metis nat_int of_nat_0_le_iff)
    with keepsD(3) [OF k i] got(3) show "wake_write d < 0" by auto
  qed
  have old: "int i \<noteq> wake_write d0 \<Longrightarrow> fds (d_os d0) i = None"
    using keepsD(2) [OF k, of i] got(3) by auto
  have upd: "fds (d_os d') n = (if n = i then Some (Accepted a) else fds (d_os d) n)" for n
    using got(2,5) b by simp
  show ?thesis
    using k wf old upd got(1,2) by (simp add: keeps_descriptors_def)
qed

lemma keeps_fork:
  assumes "keeps_descriptors a d0 (Forking newS, d)" "fork_service fk sk newS d = (ph, d')" "in_loop ph"
  shows "keeps_descriptors a d0 (ph, d')"
proof (cases fk)
  case ForkError
  then have "ph = Looping" "d' = d\<lparr>lost := newS # lost d\<rparr>" using assms(2) by (simp_all add: fork_service_def)
  then show ?thesis using assms(1) by (auto simp: keeps_descriptors_def)
next
  case (InParent pid)
  then have "ph = Closing newS" "d' = d\<lparr>services := pid # services d\<rparr>" using assms(2) by (simp_all add: fork_service_def)
  then show ?thesis by (intro keeps_same [OF assms(1)]) simp_all
qed (use assms(2,3) in \<open>auto simp: fork_service_def\<close>)

lemma keeps_close:
  assumes k: "keeps_descriptors a d0 (Closing newS, d)" and c: "close_connection newS d = (ph, d')"
  shows "keeps_descriptors a d0 (ph, d')"
proof -
  have new: "0 \<le> newS" "newS = wake_write d0 \<Longrightarrow> wake_write d < 0"
    "newS \<noteq> wake_write d0 \<Longrightarrow> fds (d_os d0) (nat newS) = None"
    using keepsD(4-6) [OF k, of newS] by simp_all
  have d': "ph = Looping" "wake_write d' = wake_write d" "lost d' = lost d"
    "fds (d_os d') i = (if int i = newS then None else fds (d_os d) i)" for i
    using c new(1) by (auto simp: close_connection_def sys_close_def)
  have "fds (d_os d') i = fds (d_os d0) i \<or> fds (d_os d0) i = None \<and>
      fds (d_os d') i = Some (Accepted a) \<and> int i \<in> set (lost d)" if "int i \<noteq> wake_write d0" for i
    using keepsD(2) [OF k that] new(3) that by (cases "int i = newS") (auto simp: d')
  moreover have "fds (d_os d') i = fds (d_os d0) i \<or> wake_write d < 0" if "int i = wake_write d0" for i
    using keepsD(3) [OF k that] new(2) that by (cases "int i = newS") (auto simp: d')
  ultimately show ?thesis using keepsD(1) [OF k] d' by (simp add: keeps_descriptors_def)
qed

lemma step_keeps_descriptors:
  assumes "daemon_step (net_table nk) sk x y" "in_loop (fst y)"
    and "keeps_descriptors a d0 x" "file_at sk (d_os d0) = Some (Listening a)"
    and "sk \<noteq> wake_write d0" "0 \<le> wake_write d0 \<longrightarrow> fds (d_os d0) (nat (wake_write d0)) \<noteq> None"
  shows "keeps_descriptors a d0 y"
  using assms(1)
proof (cases rule: daemon_step.cases)
  case (accepts d)
  obtain ph d' where acc: "accept_connection (net_table nk) sk d = (ph, d')" by force
  have k: "keeps_descriptors a d0 (Accepting, d)" using assms(3) accepts by simp
  from keeps_accept [OF k keeps_listening [OF k assms(4,5)] assms(6) acc] accepts acc show ?thesis by simp
next
  case (forks newS d fk)
  obtain ph d' where f: "fork_service fk sk newS d = (ph, d')" by force
  show ?thesis
    using keeps_fork [OF _ f] forks assms(2,3) f by simp
next
  case (closes newS d)
  obtain ph d' where c: "close_connection newS d = (ph, d')" by force
  with keeps_close [OF _ c] closes assms(3) show ?thesis by simp
next
  case (stopped ph d)
  with keeps_stop assms(3) show ?thesis by simp
qed (rule keeps_same [OF assms(3)]; simp)+

lemma steps_keep_descriptors:
  assumes "daemon_steps (net_table nk) sk (Looping, d0) y" "in_loop (fst y)"
    and "file_at sk (d_os d0) = Some (Listening a)"
    and "sk \<noteq> wake_write d0" "0 \<le> wake_write d0 \<longrightarrow> fds (d_os d0) (nat (wake_write d0)) \<noteq> None"
  shows "keeps_descriptors a d0 y"
  using assms(1,2)
proof (induction rule: rtranclp_induct)
  case base
  show ?case by (simp add: keeps_refl)
next
  case (step y z)
  have "in_loop (fst y)" using before_running [of "net_table nk" sk "fst y" "snd y" z] step(2) by simp
  with step step_keeps_descriptors [OF step(2) step.prems _ assms(3-5)] show ?case by blast
qed

section \<open>Properties of the daemon\<close>

text \<open>C18 For as long as the loop runs, whatever signals arrive, however many connections come and services
  end, the daemon listens on its socket, and every other descriptor is as it was at the start, but
  for the write end of the wake pipe, the connection in hand between \<open>accept\<close> and \<open>close\<close>, and the
  connections for which \<open>fork\<close> failed: those of services that were forked are closed.\<close>

theorem daemon_keeps_listening:
  assumes "daemon_steps (net_table nk) sk (Looping, d0) (ph, d)" "in_loop ph"
    and "file_at sk (d_os d0) = Some (Listening a)"
    and "sk \<noteq> wake_write d0" "fds (d_os d0) (nat (wake_write d0)) \<noteq> None"
  shows "file_at sk (d_os d) = Some (Listening a) \<and>
    (\<forall>i. int i \<noteq> wake_write d0 \<longrightarrow> fds (d_os d) i \<noteq> fds (d_os d0) i \<longrightarrow>
       fds (d_os d0) i = None \<and> fds (d_os d) i = Some (Accepted a) \<and>
       (int i \<in> set (lost d) \<or> ph = Forking (int i) \<or> ph = Closing (int i)))"
proof -
  have k: "keeps_descriptors a d0 (ph, d)"
    by (rule steps_keep_descriptors [OF assms(1)]) (use assms in auto)
  have "in_hand ph = Some newS \<longleftrightarrow> ph = Forking newS \<or> ph = Closing newS" for newS
    by (auto simp: in_hand_def split: phase.splits)
  with k keeps_listening [OF k assms(3,4)] show ?thesis by (auto simp: keeps_descriptors_def)
qed

text \<open>C12 One round with a connection and a \<open>fork\<close> that works leaves the parent with the descriptors it had,
  and gives the child the connection, and not the listening socket.\<close>

theorem round_hands_over:
  assumes "main_round (net_table nk) sk wake conn fk d = (ph, d')"
    and "file_at sk (d_os d) = Some (Listening a)" "fk \<noteq> ForkError"
  shows "case ph of
      Looping \<Rightarrow> fds (d_os d') = fds (d_os d)
    | Serving newS \<Rightarrow> file_at newS (d_os d) = None \<and> file_at sk (d_os d') = None \<and>
        file_at newS (d_os d') = Some (Accepted a)
    | _ \<Rightarrow> False"
  using table.round_descriptors [OF assms(1,2)] assms(2,3)
  by (cases ph) (auto simp: file_at_def split: if_splits)

lemma pp_stop_keeps [simp]:
  "pp_daemon_abort (snd (pp_stop d))" "services (snd (pp_stop d)) = services d"
  by (auto simp: pp_stop_def Let_def)

lemma pp_stop_wakes [simp]: "wake_ready (snd (pp_stop d))"
  by (simp add: pp_stop_def wake_ready_def Let_def)

text \<open>The connection that \<open>select\<close> has reported, or that the loop has in hand before \<open>fork\<close>.\<close>

fun pending :: "phase \<Rightarrow> nat" where
  "pending (Returned (SelectReady wake conn)) = (if \<not> wake \<and> conn then 1 else 0)"
| "pending Accepting = 1"
| "pending (Forking newS) = 1"
| "pending _ = 0"

text \<open>How many steps of its own the loop needs at most to be left, once it is to stop.\<close>

fun turns_left :: "phase \<Rightarrow> nat" where
  "turns_left Left_loop = 0"
| "turns_left (Serving _) = 0"
| "turns_left Looping = 1"
| "turns_left (Returned SelectFailed) = 1"
| "turns_left (Closing _) = 2"
| "turns_left (Forking _) = 3"
| "turns_left Accepting = 4"
| "turns_left (Returned (SelectReady _ _)) = 5"
| "turns_left Selecting = 6"

lemma pending_select: "pending (after_select r) = pending (Returned r)"
  by (cases r) (simp_all add: after_select_def)

lemma turns_select: "turns_left (after_select r) < turns_left (Returned r)"
  by (cases r) (simp_all add: after_select_def)

lemma pending_le: "pending ph \<le> 1"
  by (cases ph rule: pending.cases) auto

lemma wake_ready_simps [simp]:
  "wake_ready (signalHandler s d) = wake_ready d" "wake_ready (d\<lparr>services := ss, zombies := zs\<rparr>) = wake_ready d"
  "wake_ready (d\<lparr>services := ss\<rparr>) = wake_ready d" "wake_ready (d\<lparr>d_os := w\<rparr>) = wake_ready d"
  "wake_ready (d\<lparr>lost := l\<rparr>) = wake_ready d"
  by (auto simp: signalHandler_def wake_ready_def split: signal.splits)

text \<open>What \<open>x\<close>, where the loop was when it was stopped, allows of a later state.\<close>

definition stopping :: "phase \<times> daemon \<Rightarrow> phase \<times> daemon \<Rightarrow> bool" where
  "stopping x y \<longleftrightarrow> pp_daemon_abort (snd y) \<and> wake_ready (snd y) \<and>
     length (services (snd y)) + pending (fst y) \<le> length (services (snd x)) + pending (fst x) \<and>
     pending (fst y) \<le> pending (fst x) \<and> (\<forall>newS. fst y = Serving newS \<longrightarrow> pending (fst x) = 1)"

text \<open>A step after \<open>pp_stop\<close>: one of the loop's own, which brings its end closer, or one of the
  surroundings.\<close>

lemma step_stopping:
  assumes "daemon_step opts sk y z" "stopping x y"
  shows "stopping x z" "turns_left (fst z) < turns_left (fst y) \<or> fst z = fst y"
proof -
  note le = pending_le [of "fst x"]
  show "stopping x z"
    using assms(1)
  proof (cases rule: daemon_step.cases)
    case (forks newS d fk)
    with assms(2) le show ?thesis by (cases fk) (auto simp: stopping_def fork_service_def)
  next
    case (service_ends ph pid d)
    have "length (remove1 pid (services d)) \<le> length (services d)" by (simp add: length_remove1)
    with assms(2) service_ends show ?thesis by (simp add: stopping_def)
  next
    case (reacts r d)
    moreover have "after_select r \<noteq> Serving newS" for newS
      by (auto simp: after_select_def split: select_result.splits)
    ultimately show ?thesis using assms(2) by (simp add: stopping_def pending_select)
  next
    case (accepts d)
    with assms(2) show ?thesis by (auto simp: stopping_def accept_connection_def split: prod.splits)
  qed (use assms(2) in \<open>simp add: stopping_def close_connection_def\<close>)+
  show "turns_left (fst z) < turns_left (fst y) \<or> fst z = fst y"
    using assms(1)
  proof (cases rule: daemon_step.cases)
    case (forks newS d fk)
    then show ?thesis by (cases fk) (auto simp: fork_service_def)
  next
    case (accepts d)
    then show ?thesis by (auto simp: accept_connection_def split: prod.splits)
  next
    case (enter d)
    with assms(2) show ?thesis by (simp add: stopping_def)
  qed (simp_all add: turns_select close_connection_def)
qed

lemma steps_stopping: "daemon_steps opts sk y z \<Longrightarrow> stopping x y \<Longrightarrow> stopping x z"
  by (induction rule: rtranclp_induct) (auto intro: step_stopping(1))

lemma stopping_goes_on:
  assumes "stopping x (ph, d)" "in_loop ph"
  shows "\<exists>y. daemon_step opts sk (ph, d) y \<and> turns_left (fst y) < turns_left ph"
proof (cases ph)
  case Looping
  with assms leave [of d opts sk] show ?thesis by (intro exI [of _ "(Left_loop, d)"]) (simp add: stopping_def)
next
  case Selecting
  with assms returns [of d True opts sk] show ?thesis by (intro exI [of _ "(Returned (SelectReady (wake_ready d) True), d)"]) simp
next
  case (Returned r)
  with reacts [of opts sk r d] turns_select [of r] show ?thesis by (intro exI [of _ "(after_select r, d)"]) simp
next
  case Accepting
  with accepts [of opts sk d] show ?thesis
    by (intro exI [of _ "accept_connection opts sk d"]) (auto simp: accept_connection_def split: prod.splits)
next
  case (Forking newS)
  with forks [of opts sk newS d ForkError] show ?thesis
    by (intro exI [of _ "fork_service ForkError sk newS d"]) (simp add: fork_service_def)
next
  case (Closing newS)
  with closes [of opts sk newS d] show ?thesis
    by (intro exI [of _ "close_connection newS d"]) (simp add: close_connection_def)
qed (use assms(2) in simp_all)

text \<open>C21 After \<open>pp_stop\<close>, called at whatever place of the loop and with whatever else happens then, a
  service is forked only for a connection that \<open>select\<close> had reported before the call, so for one at
  most (\<open>pending\<close>); and the loop comes to its end: there always is a step of its own to take, and
  each of these, at most six (\<open>turns_left\<close>), leads closer to the end, with nothing else moving it.\<close>

theorem stop_ends_loop:
  assumes "daemon_steps opts sk (ph0, snd (pp_stop d)) (ph, d')" "in_loop ph0"
  shows "length (services d') + pending ph \<le> length (services d) + pending ph0 \<and> pending ph0 \<le> 1 \<and>
    ((\<exists>newS. ph = Serving newS) \<longrightarrow> pending ph0 = 1) \<and>
    (in_loop ph \<longrightarrow> (\<exists>y. daemon_step opts sk (ph, d') y \<and> turns_left (fst y) < turns_left ph)) \<and>
    (\<forall>y. daemon_step opts sk (ph, d') y \<longrightarrow> turns_left (fst y) < turns_left ph \<or> fst y = ph) \<and>
    turns_left ph0 \<le> 6"
proof -
  have "ph0 \<noteq> Serving newS" for newS using assms(2) by auto
  then have "stopping (ph0, snd (pp_stop d)) (ph0, snd (pp_stop d))" by (simp add: stopping_def)
  from steps_stopping [OF assms(1) this] have st: "stopping (ph0, snd (pp_stop d)) (ph, d')" .
  have "turns_left ph0 \<le> 6" by (cases ph0 rule: turns_left.cases) auto
  moreover have "\<forall>y. daemon_step opts sk (ph, d') y \<longrightarrow> turns_left (fst y) < turns_left ph \<or> fst y = ph"
    using step_stopping(2) [OF _ st] by simp
  moreover have "in_loop ph \<longrightarrow> (\<exists>y. daemon_step opts sk (ph, d') y \<and> turns_left (fst y) < turns_left ph)"
    using stopping_goes_on [OF st] by blast
  ultimately show ?thesis using st pending_le [of ph0] by (auto simp: stopping_def)
qed

text \<open>That one connection can indeed still be served: \<open>pp_stop\<close> has no effect on a turn that is past
  \<open>select\<close>.\<close>

lemma stop_in_round_serves:
  assumes "main_round opts sk False True InChild (snd (pp_stop d)) = (Serving newS, d')"
  shows "daemon_steps opts sk (Returned (SelectReady False True), snd (pp_stop d)) (Serving newS, d')"
proof -
  let ?d = "snd (pp_stop d)"
  obtain n d1 where a: "accept_connection opts sk ?d = (Forking n, d1)" "fork_service InChild sk n d1 = (Serving newS, d')"
    using assms by (auto simp: main_round_def after_select_def accept_connection_def fork_service_def
        split: prod.splits if_splits)
  have "daemon_step opts sk (Returned (SelectReady False True), ?d) (Accepting, ?d)"
    using reacts [of opts sk "SelectReady False True" ?d] by (simp add: after_select_def)
  moreover have "daemon_step opts sk (Accepting, ?d) (Forking n, d1)"
    using accepts [of opts sk ?d] a by simp
  moreover have "daemon_step opts sk (Forking n, d1) (Serving newS, d')"
    using forks [of opts sk n d1 InChild] a by simp
  ultimately show ?thesis by (meson converse_rtranclp_into_rtranclp r_into_rtranclp)
qed

text \<open>The end of a service can end the daemon: the signal it causes interrupts \<open>select\<close>, which the loop
  takes for a failure, although nobody asked it to stop.\<close>

lemma service_end_ends_daemon:
  assumes "pid \<in> set (services d)" "SIGCHLD \<in> set (handlers d)" "\<not> pp_daemon_abort d" "\<not> wake_ready d"
  shows "\<exists>d'. daemon_steps opts sk (Looping, d) (Left_loop, d') \<and> zombies d' = [] \<and> \<not> pp_daemon_abort d'"
proof -
  let ?d = "d\<lparr>services := remove1 pid (services d), zombies := pid # zombies d\<rparr>"
  let ?e = "signalHandler SIGCHLD ?d"
  have "daemon_step opts sk (Looping, d) (Selecting, d)" by (rule enter) (rule assms(3))
  moreover have "daemon_step opts sk (Selecting, d) (Selecting, ?d)"
    by (rule service_ends) (simp, rule assms(1))
  moreover have "daemon_step opts sk (Selecting, ?d) (Returned SelectFailed, ?e)"
    by (rule interrupted) (use assms in auto)
  moreover have "daemon_step opts sk (Returned SelectFailed, ?e) (Left_loop, ?e)"
    using reacts [of opts sk SelectFailed ?e] by (simp add: after_select_def)
  ultimately have "daemon_steps opts sk (Looping, d) (Left_loop, ?e)"
    by (meson converse_rtranclp_into_rtranclp r_into_rtranclp)
  then show ?thesis
    using assms(3) by (intro exI [of _ ?e]) (auto simp: signalHandler_def)
qed

text \<open>C28 A termination signal that arrives between the test of the flag and \<open>select\<close> is not noticed, unlike
  a call of \<open>pp_stop\<close>: nothing wakes \<open>select\<close>, and the next connection is still accepted and
  served.\<close>

theorem signal_before_select_missed:
  assumes "s \<in> {SIGINT, SIGTERM, SIGHUP}" "s \<in> set (handlers d)" "\<not> pp_daemon_abort d" "\<not> wake_ready d"
    and "main_round opts sk False True InChild d = (Serving newS, d1)"
  shows "\<exists>d' d''. daemon_steps opts sk (Looping, d) (Selecting, d') \<and> pp_daemon_abort d' \<and> \<not> wake_ready d' \<and>
    daemon_steps opts sk (Selecting, d') (Serving newS, d'')"
proof -
  let ?d = "signalHandler s d"
  have d': "?d = d\<lparr>pp_daemon_abort := True\<rparr>" using assms(1) by (auto simp: signalHandler_def)
  have w: "\<not> wake_ready ?d" using assms(4) by simp
  have "daemon_step opts sk (Looping, d) (Selecting, d)" using assms(3) by (rule enter)
  moreover have "daemon_step opts sk (Selecting, d) (Selecting, ?d)" by (rule signalled) (simp, rule assms(2))
  ultimately have "daemon_steps opts sk (Looping, d) (Selecting, ?d)"
    by (meson converse_rtranclp_into_rtranclp r_into_rtranclp)
  moreover obtain d2 where "main_round opts sk False True InChild ?d = (Serving newS, d2)"
    using assms(5) by (auto simp: main_round_def after_select_def accept_connection_def fork_service_def d'
        split: prod.splits if_splits)
  then have "daemon_steps opts sk (Selecting, ?d) (Serving newS, d2)"
    using w by (intro round_steps [where conn = True and fk = InChild]) simp_all
  ultimately show ?thesis using w d' by auto
qed

section \<open>From the start of the server\<close>

lemma net_table_listen:
  assumes "n_listen (net_table nk) ns f addr port w = (sk, w')" "\<not> sk < 0"
  shows "\<exists>i a. sk = int i \<and> fds w i = None \<and> fds w' = (fds w)(i \<mapsto> Listening a)"
  using assms inet.listening [of ns f addr port w sk w'] unix.listening [of ns "path_bytes addr" w sk w']
    bt.listening [of ns addr port w sk w']
  by (cases nk) (auto simp: pp_network_opts_def pp_unix_opts_def pp_bluetooth_opts_def)

lemma pp_getport_fds: "pp_getport s w = (r, w') \<Longrightarrow> fds w' = fds w"
  by (auto simp: pp_getport_def dest!: sys_getsockname_fds split: option.splits sockaddr.splits prod.splits)

lemma net_table_getport:
  "n_getport (net_table nk) = Some g \<Longrightarrow> g s w = (r, w') \<Longrightarrow> fds w' = fds w"
  by (cases nk) (auto simp: pp_network_opts_def pp_unix_opts_def pp_bluetooth_opts_def
      dest!: pp_getport_fds pp_btgetport_fds)

lemma set_handlers_result:
  "set_handlers ss d = (rv, d') \<Longrightarrow> fds (d_os d') = fds (d_os d) \<and> wake_write d' = wake_write d \<and>
    wake_bytes d' = wake_bytes d \<and> pp_daemon_abort d' = pp_daemon_abort d \<and>
    (rv = 0 \<longrightarrow> set (handlers d') = set ss \<union> set (handlers d))"
  by (induction ss arbitrary: d)
    (fastforce simp: setSingleSignalHandler_def Let_def split: prod.splits if_splits)+

lemma start_pipe_result:
  assumes "start_pipe d = Inr d'"
  shows "\<not> pp_daemon_abort d' \<and> wake_bytes d' = 0 \<and> 0 \<le> wake_write d' \<and>
    fds (d_os d') (nat (wake_write d')) = Some OtherFile"
  using assms by (auto simp: start_pipe_def make_pipe_def Let_def split: option.splits if_splits)

lemma write_pid_file_keeps:
  "fds (d_os (snd (write_pid_file pid f d))) = fds (d_os d)" "wake_write (snd (write_pid_file pid f d)) = wake_write d"
  "wake_bytes (snd (write_pid_file pid f d)) = wake_bytes d" "handlers (snd (write_pid_file pid f d)) = handlers d"
  "pp_daemon_abort (snd (write_pid_file pid f d)) = pp_daemon_abort d"
  by (simp_all add: write_pid_file_def Let_def)

lemma start_process_result:
  assumes "start_process d = Inr d'"
  shows "\<not> pp_daemon_abort d' \<and> \<not> wake_ready d' \<and> {SIGINT, SIGCHLD, SIGTERM, SIGHUP} \<subseteq> set (handlers d') \<and>
    0 \<le> wake_write d' \<and> fds (d_os d') (nat (wake_write d')) = Some OtherFile"
proof -
  from assms obtain d1 where p: "start_pipe d = Inr d1" by (auto simp: start_process_def outcome_simps)
  obtain rv d2 where h: "set_handlers [SIGINT, SIGCHLD, SIGTERM, SIGHUP] d1 = (rv, d2)" by force
  from assms p h have "rv = 0" "d' = d2"
    by (simp_all add: start_process_def setSignalHandler_def del: set_handlers.simps split: if_splits)
  with set_handlers_result [OF h] start_pipe_result [OF p] show ?thesis by (auto simp: wake_ready_def)
qed

lemma start_listening_result:
  assumes "start_listening nk ns s addr port pid d = Inr (sk, port', d')"
  shows "\<exists>i a. sk = int i \<and> fds (d_os d) i = None \<and> fds (d_os d') = (fds (d_os d))(i \<mapsto> Listening a) \<and>
    wake_write d' = wake_write d \<and> wake_bytes d' = wake_bytes d \<and> handlers d' = handlers d \<and>
    pp_daemon_abort d' = pp_daemon_abort d"
proof -
  obtain sk1 w where l: "n_listen (net_table nk) ns (s_family s) addr port (d_os d) = (sk1, w)" by force
  obtain p2 w2 where g: "(case n_getport (net_table nk) of None \<Rightarrow> (port, w) | Some g \<Rightarrow> g sk1 w) = (p2, w2)"
    by force
  have sk: "\<not> sk1 < 0" "sk = sk1"
    and d': "d' = (case s_pid_file s of None \<Rightarrow> d\<lparr>d_os := w2\<rparr> | Some f \<Rightarrow> snd (write_pid_file pid f (d\<lparr>d_os := w2\<rparr>)))"
    using assms by (simp_all add: start_listening_def l g Let_def split: if_splits)
  have "fds w2 = fds w"
    using g by (auto split: option.splits intro: net_table_getport)
  then have "fds (d_os d') = fds w" "wake_write d' = wake_write d" "wake_bytes d' = wake_bytes d"
    "handlers d' = handlers d" "pp_daemon_abort d' = pp_daemon_abort d"
    by (auto simp: d' write_pid_file_keeps split: option.splits)
  with net_table_listen [OF l sk(1)] sk(2) show ?thesis by auto
qed

lemma start_server_result:
  assumes "start_server b tb ns pid args d tw = Inr (sk, opts, kind, port, ctx, d', tw')"
  shows "\<exists>s nk a. parse_options b args no_settings = Inr s \<and> choose_netopts b (s_family s) = Inr nk \<and>
    opts = net_table nk \<and> file_at sk (d_os d') = Some (Listening a) \<and> \<not> pp_daemon_abort d' \<and>
    \<not> wake_ready d' \<and> {SIGINT, SIGCHLD, SIGTERM, SIGHUP} \<subseteq> set (handlers d') \<and>
    sk \<noteq> wake_write d' \<and> fds (d_os d') (nat (wake_write d')) = Some OtherFile"
proof -
  from assms obtain d1 s where p: "start_process d = Inr d1" and s: "parse_options b args no_settings = Inr s"
    by (auto simp: start_server_def outcome_simps)
  from assms p s obtain nk addr where n: "choose_netopts b (s_family s) = Inr nk" "opts = net_table nk"
    and l: "start_listening nk ns s addr (default_port b s) pid (unlink_pid_file s d1) = Inr (sk, port, d')"
    by (auto simp: start_server_def outcome_simps split: prod.splits option.splits if_splits)
  have u: "fds (d_os (unlink_pid_file s d1)) = fds (d_os d1)" "wake_write (unlink_pid_file s d1) = wake_write d1"
    "wake_bytes (unlink_pid_file s d1) = wake_bytes d1" "handlers (unlink_pid_file s d1) = handlers d1"
    "pp_daemon_abort (unlink_pid_file s d1) = pp_daemon_abort d1"
    by (simp_all add: unlink_pid_file_def split: option.splits)
  from start_listening_result [OF l] obtain i a where i: "sk = int i" "fds (d_os d1) i = None"
    "fds (d_os d') = (fds (d_os d1))(i \<mapsto> Listening a)" "wake_write d' = wake_write d1"
    "wake_bytes d' = wake_bytes d1" "handlers d' = handlers d1" "pp_daemon_abort d' = pp_daemon_abort d1"
    using u by auto
  note d1 = start_process_result [OF p]
  have "nat (wake_write d1) \<noteq> i" using d1 i(2) by auto
  then show ?thesis using d1 i s n by (auto simp: file_at_def wake_ready_def)
qed

text \<open>C11 A server that started listens on its socket until its loop is left, with the operations of the
  family it was asked for, and every signal it must react to is handled.\<close>

theorem started_server_listens:
  assumes "start_server b tb ns pid args d tw = Inr (sk, opts, kind, port, ctx, d0, tw')"
    and "daemon_steps opts sk (Looping, d0) (ph, d')" "in_loop ph"
  shows "\<exists>s nk a. parse_options b args no_settings = Inr s \<and> choose_netopts b (s_family s) = Inr nk \<and>
    opts = net_table nk \<and> file_at sk (d_os d0) = Some (Listening a) \<and> file_at sk (d_os d') = Some (Listening a) \<and>
    {SIGINT, SIGCHLD, SIGTERM, SIGHUP} \<subseteq> set (handlers d0)"
proof -
  from start_server_result [OF assms(1)] obtain s nk a where
    r: "parse_options b args no_settings = Inr s" "choose_netopts b (s_family s) = Inr nk" "opts = net_table nk"
      "file_at sk (d_os d0) = Some (Listening a)" "sk \<noteq> wake_write d0"
      "fds (d_os d0) (nat (wake_write d0)) = Some OtherFile"
      "{SIGINT, SIGCHLD, SIGTERM, SIGHUP} \<subseteq> set (handlers d0)"
    by blast
  have k: "keeps_descriptors a d0 (ph, d')"
    by (rule steps_keep_descriptors) (use assms(2,3) r in auto)
  with keeps_listening [OF k r(4,5)] r show ?thesis by blast
qed

text \<open>Without any option the server is one of OpenSSL on TCP port 3030 of every interface.\<close>

theorem default_server:
  assumes "start_server b tb ns pid [] d tw = Inr (sk, opts, kind, port, ctx, d', tw')"
    and "\<forall>a p. p \<noteq> 0 \<longrightarrow> kernel_name ns (Inet a p) = Inet a p"
  shows "\<exists>a. inet_aton ns ''0.0.0.0'' = Some a \<and> file_at sk (d_os d') = Some (Listening (Inet a 3030)) \<and>
    opts = pp_network_opts \<and> kind = Openssl"
proof -
  from assms(1) obtain d1 where p: "start_process d = Inr d1" by (auto simp: start_server_def outcome_simps)
  with assms(1) have k: "kind = Openssl" "opts = pp_network_opts"
    and l: "start_listening Network ns no_settings ''0.0.0.0'' 3030 pid (unlink_pid_file no_settings d1) = Inr (sk, port, d')"
    by (auto simp: start_server_def outcome_simps no_settings_def pp_tlsopts_init_any_def default_addr_def
        choose_netopts_def default_port_def PP_TCP_PORT_def split: prod.splits if_splits)
  obtain w where w: "pp_listen ns AF_INET ''0.0.0.0'' 3030 (d_os d1) = (sk, w)" "\<not> sk < 0"
    and d': "fds (d_os d') = fds w"
    using l by (auto simp: start_listening_def pp_network_opts_def unlink_pid_file_def no_settings_def Let_def
        split: prod.splits if_splits dest: pp_getport_fds)
  from inet.listening [OF w(1)] w(2) obtain i a where
    "sk = int i" "inet_aton ns ''0.0.0.0'' = Some a" "fds w = (fds (d_os d1))(i \<mapsto> Listening (kernel_name ns (Inet a 3030)))"
    by (auto simp: listen_address_def)
  with k d' assms(2) show ?thesis by (auto simp: file_at_def)
qed

section \<open>A server that starts\<close>

definition example_build :: build where
  "example_build = \<lparr>ENABLE_NULLENC = True, USE_OPENSSL = True, USE_BLUETOOTH = True\<rparr>"

definition example_daemon :: daemon where
  "example_daemon =
     \<lparr>pp_daemon_abort = False, wake_read = -1, wake_write = -1, wake_bytes = 0, handlers = [],
      services = [], zombies = [], lost = [], files = (\<lambda>_. None), d_os = example_os {}\<rparr>"

definition example_world :: net where
  "example_world =
     \<lparr>chan = (\<lambda>_. \<lparr>rx = [], wx = [], sent = []\<rparr>), heap = (\<lambda>_. None), heap_next = 0, heap_left = 9\<rparr>"

lemma example_starts:
  "\<exists>port ctx d' tw. start_server example_build (\<lambda>_. pp_nullenc_opts) example_names 77 [] example_daemon
     example_world = Inr (5, pp_network_opts, Openssl, port, ctx, d', tw) \<and> services d' = []"
  by (simp add: start_server_def start_process_def start_pipe_def make_pipe_def example_daemon_def
      refused_def free_fd_def upt_rec example_os_def setSignalHandler_def setSingleSignalHandler_def
      no_settings_def pp_tlsopts_init_any_def example_build_def default_addr_def choose_netopts_def
      default_port_def PP_TCP_PORT_def start_listening_def pp_network_opts_def unlink_pid_file_def
      pp_listen_def listen_address_def example_names_def sys_socket_def new_fd_def sys_setsockopt_def
      bind_listen_def sys_bind_def sys_update_def sys_listen_def file_at_def pp_getport_def
      sys_getsockname_def nullenc_init_server_def new_object_Inr example_world_def new_object_def malloc_def Let_def)

lemma default_server_witness:
  "\<exists>port ctx d' tw. start_server example_build (\<lambda>_. pp_nullenc_opts) example_names 77 [] example_daemon
     example_world = Inr (5, pp_network_opts, Openssl, port, ctx, d', tw) \<and>
     file_at 5 (d_os d') = Some (Listening (Inet 0 3030))"
proof -
  from example_starts obtain port ctx d' tw where
    r: "start_server example_build (\<lambda>_. pp_nullenc_opts) example_names 77 [] example_daemon example_world =
      Inr (5, pp_network_opts, Openssl, port, ctx, d', tw)" by blast
  from default_server [OF r] r show ?thesis by (auto simp: example_names_def)
qed

lemma started_server_listens_witness:
  "\<exists>port ctx d tw d'. start_server example_build (\<lambda>_. pp_nullenc_opts) example_names 77 [] example_daemon
     example_world = Inr (5, pp_network_opts, Openssl, port, ctx, d, tw) \<and>
     daemon_steps pp_network_opts 5 (Looping, d) (Looping, d') \<and> pp_daemon_abort d' \<and>
     (\<exists>a. file_at 5 (d_os d') = Some (Listening a))"
proof -
  from example_starts obtain port ctx d tw where
    r: "start_server example_build (\<lambda>_. pp_nullenc_opts) example_names 77 [] example_daemon example_world =
      Inr (5, pp_network_opts, Openssl, port, ctx, d, tw)" by blast
  have s: "daemon_steps pp_network_opts 5 (Looping, d) (Looping, snd (pp_stop d))"
    by (rule r_into_rtranclp) (rule stopped, simp)
  from started_server_listens [OF r s] r s show ?thesis by (auto simp del: pp_stop_def intro!: exI)
qed

text \<open>A server with a running service.\<close>

definition example_running :: daemon where
  "example_running = example_daemon
     \<lparr>wake_read := 3, wake_write := 4, handlers := [SIGINT, SIGCHLD, SIGTERM, SIGHUP], services := [88],
      d_os := (example_os {})\<lparr>fds := (\<lambda>i. if i < 5 then Some OtherFile
        else if i = 5 then Some (Listening (Inet 0 3030)) else None)\<rparr>\<rparr>"

lemma example_running_simps [simp]:
  "wake_write example_running = 4" "services example_running = [88]" "\<not> pp_daemon_abort example_running"
  "handlers example_running = [SIGINT, SIGCHLD, SIGTERM, SIGHUP]" "\<not> wake_ready example_running"
  "fds (d_os example_running) = (\<lambda>i. if i < 5 then Some OtherFile
     else if i = 5 then Some (Listening (Inet 0 3030)) else None)"
  "file_at 5 (d_os example_running) = Some (Listening (Inet 0 3030))"
  by (simp_all add: example_running_def example_daemon_def wake_ready_def file_at_def)

lemma example_round:
  "\<exists>d'. main_round (net_table Network) 5 False True InChild example_running = (Serving 6, d')"
  by (simp add: main_round_def after_select_def accept_connection_def fork_service_def pp_network_opts_def pp_accept_def sys_accept_def new_fd_def refused_def free_fd_def upt_rec)
    (simp add: example_running_def example_os_def)

lemma round_hands_over_witness:
  "\<exists>d'. main_round (net_table Network) 5 False True InChild example_running = (Serving 6, d') \<and>
     file_at 6 (d_os d') = Some (Accepted (Inet 0 3030))"
proof -
  obtain d' where r: "main_round (net_table Network) 5 False True InChild example_running = (Serving 6, d')"
    using example_round by blast
  from round_hands_over [OF r, of "Inet 0 3030"] r show ?thesis by auto
qed

lemma daemon_keeps_listening_witness:
  "\<exists>d. daemon_steps (net_table Network) 5 (Looping, example_running) (Looping, d) \<and> zombies d = [88] \<and>
     file_at 5 (d_os d) = Some (Listening (Inet 0 3030))"
proof -
  let ?d = "example_running\<lparr>services := [], zombies := 88 # zombies example_running\<rparr>"
  have s: "daemon_steps (net_table Network) 5 (Looping, example_running) (Looping, ?d)"
    using service_ends [of Looping 88 example_running] by auto
  have "zombies ?d = [88]" by (simp add: example_running_def example_daemon_def)
  with daemon_keeps_listening [OF s, of "Inet 0 3030"] s show ?thesis by fastforce
qed

text \<open>The connection gets the number of the end of the pipe that \<open>pp_stop\<close> has closed.\<close>

lemma example_stopped_round:
  "\<exists>d. main_round (net_table Network) 5 False True InChild (snd (pp_stop example_running)) = (Serving 4, d)"
proof -
  define d where "d = snd (pp_stop example_running)"
  have fd: "fds (d_os d) = (\<lambda>i. if i < 4 then Some OtherFile else if i = 5 then Some (Listening (Inet 0 3030)) else None)"
    by (auto simp: d_def pp_stop_def sys_close_def fun_eq_iff)
  have "refuse (d_os d) = (\<lambda>_. False)" "fd_limit (d_os d) = 64"
    by (simp_all add: d_def pp_stop_def sys_close_def example_running_def example_daemon_def example_os_def fun_eq_iff)
  with fd show ?thesis
    unfolding d_def [symmetric]
    by (simp add: main_round_def after_select_def accept_connection_def fork_service_def pp_accept_def sys_accept_def
        pp_network_opts_def new_fd_def refused_def free_fd_def upt_rec file_at_def)
qed

lemma stop_ends_loop_witness:
  "(\<exists>d. daemon_steps (net_table Network) 5 (Returned (SelectReady False True), snd (pp_stop example_running)) (Serving 4, d)) \<and>
   pending (Returned (SelectReady False True)) = 1 \<and>
   (\<exists>y. daemon_step (net_table Network) 5 (Selecting, snd (pp_stop example_running)) y \<and> turns_left (fst y) < 6)"
proof -
  obtain d where "main_round (net_table Network) 5 False True InChild (snd (pp_stop example_running)) = (Serving 4, d)"
    using example_stopped_round by blast
  from stop_in_round_serves [OF this]
  have r: "daemon_steps (net_table Network) 5 (Returned (SelectReady False True), snd (pp_stop example_running)) (Serving 4, d)" .
  have "daemon_steps (net_table Network) 5 (Selecting, snd (pp_stop example_running)) (Selecting, snd (pp_stop example_running))"
    by simp
  from stop_ends_loop [OF this] stop_ends_loop [OF r] r show ?thesis by auto
qed

lemma signal_before_select_missed_witness:
  "\<exists>d' d''. pp_daemon_abort d' \<and> daemon_steps (net_table Network) 5 (Selecting, d') (Serving 6, d'')"
proof -
  obtain d1 where "main_round (net_table Network) 5 False True InChild example_running = (Serving 6, d1)"
    using example_round by blast
  from signal_before_select_missed [OF _ _ _ _ this, of SIGTERM] show ?thesis by auto
qed

lemma service_end_ends_daemon_example:
  "\<exists>d'. daemon_steps (net_table Network) 5 (Looping, example_running) (Left_loop, d') \<and> zombies d' = []"
  using service_end_ends_daemon [of 88 example_running] by fastforce

end
