(* ===== verification/Serving.thy ===== *)
theory Serving
  imports ServerSafe DaemonSafe
begin

text \<open>
  A service from its first request to its last: every request of the connection is answered
  once, in order, with what the handlers make of it, and the process exits when the client
  closes.
\<close>

section \<open>Scripts and their end\<close>

text \<open>A stream of data only, in pieces.\<close>

fun arrivals :: "read_event list \<Rightarrow> bool" where
  "arrivals [] = True"
| "arrivals (Arrive bs # es) = arrivals es"
| "arrivals _ = False"

text \<open>A call that returns does the same on a longer script.\<close>

lemma sys_read_longer:
  "sys_read n es = Inr (r, es') \<Longrightarrow> sys_read n (es @ t) = Inr (r, es' @ t) \<and> (arrivals es \<longrightarrow> arrivals es')"
  by (induction n es rule: sys_read.induct) (auto split: if_splits)

lemma recv_header_longer:
  "recv_header br m es = Inr (r, es') \<Longrightarrow>
    recv_header br m (es @ t) = Inr (r, es' @ t) \<and> (arrivals es \<longrightarrow> arrivals es')"
proof (induction es arbitrary: br m rule: measure_induct_rule [of script_size])
  case (less es)
  show ?case
  proof (cases "0 \<le> br \<and> nat br < 5")
    case False
    with less.prems show ?thesis by (auto simp: recv_header_done)
  next
    case True
    with less.prems obtain x es1 where x: "sys_read (5 - nat br) es = Inr (x, es1)"
      by (auto simp: recv_header.simps [of br] split: sum.splits)
    note l = sys_read_longer [OF x, of t]
    show ?thesis
    proof (cases x)
      case (RData bs)
      have "script_size es1 < script_size es" using x RData True by (auto intro: sys_read_smaller)
      from less.IH [OF this] less.prems x l True RData show ?thesis
        by (auto simp: recv_header.simps [of br])
    next
      case REof
      with less.prems x l True show ?thesis by (auto simp: recv_header.simps [of br])
    next
      case (RErr e i)
      show ?thesis
      proof (cases "e = EINTR")
        case True
        have "script_size es1 < script_size es" using x RErr \<open>0 \<le> br \<and> nat br < 5\<close>
          by (auto intro: sys_read_smaller)
        from less.IH [OF this] less.prems x l True RErr \<open>0 \<le> br \<and> nat br < 5\<close> show ?thesis
          by (auto simp: recv_header.simps [of br])
      next
        case False
        with less.prems x l True RErr show ?thesis by (auto simp: recv_header.simps [of br])
      qed
    qed
  qed
qed

lemma recv_payload_longer:
  "recv_payload br m es = Inr (r, es') \<Longrightarrow>
    recv_payload br m (es @ t) = Inr (r, es' @ t) \<and> (arrivals es \<longrightarrow> arrivals es')"
proof (induction es arbitrary: br m rule: measure_induct_rule [of script_size])
  case (less es)
  show ?case
  proof (cases "0 \<le> br \<and> nat br < unat (msg_len m)")
    case False
    with less.prems show ?thesis by (auto simp: recv_payload_done)
  next
    case True
    with less.prems obtain x es1 where x: "sys_read (unat (msg_len m) - nat br) es = Inr (x, es1)"
      by (auto simp: recv_payload.simps [of br] split: sum.splits)
    note l = sys_read_longer [OF x, of t]
    show ?thesis
    proof (cases x)
      case (RData bs)
      have "script_size es1 < script_size es" using x RData True by (auto intro: sys_read_smaller)
      from less.IH [OF this] less.prems x l True RData show ?thesis
        by (auto simp: recv_payload.simps [of br])
    qed (use less.prems x l True in \<open>auto simp: recv_payload.simps [of br]\<close>)
  qed
qed

lemma recv_message_longer:
  assumes "recv_message m es = Inr (r, es')"
  shows "recv_message m (es @ t) = Inr (r, es' @ t) \<and> (arrivals es \<longrightarrow> arrivals es')"
proof -
  from assms obtain x es1 where x: "recv_header 0 m es = Inr (x, es1)"
    by (auto simp: recv_message_def split: sum.splits)
  note l = recv_header_longer [OF x, of t]
  obtain rc br m1 where [simp]: "x = (rc, br, m1)" by (cases x)
  show ?thesis
  proof (cases "rc = None \<and> unat (msg_len m1) < PP_MAX_MESSAGE_LEN")
    case True
    with assms x have "recv_payload br m1 es1 = Inr (r, es')" by (simp add: recv_message_def)
    from recv_payload_longer [OF this, of t] l True x show ?thesis by (simp add: recv_message_def)
  next
    case False
    with assms x l show ?thesis by (cases rc) (auto simp: recv_message_def)
  qed
qed

lemma recv_closed: "arrivals es \<Longrightarrow> pending_of es = [] \<Longrightarrow>
    recv_message m (es @ Closed # t) = Inr ((0, m), Closed # t)"
proof -
  assume a: "arrivals es" "pending_of es = []"
  then have "sys_read 5 (es @ Closed # t) = Inr (REof, Closed # t)"
    by (induction es rule: arrivals.induct) auto
  then show ?thesis by (simp add: recv_message_def recv_header.simps [of 0])
qed

section \<open>The exit code of a service\<close>

lemma handleConnection_nonzero:
  "pp_handleConnection fuel ops lib us session w s = Some (Inr (rv, w', s')) \<Longrightarrow> rv \<noteq> 0"
proof (induction fuel arbitrary: w s)
  case (Suc fuel)
  then show ?case by (auto split: sum.splits if_splits)
qed simp

text \<open>A service never reports success: it exits with 2 when it could not set up its session and with 3
  when its connection ended, also when the client just closed it.\<close>

theorem service_exit_code:
  assumes "service fuel ops lib us ctx newS d w s = Some (Inr (code, w', s'))"
  shows "code = 2 \<or> code = 3"
  using assms handleConnection_nonzero
  by (fastforce simp: service_def split: prod.splits sum.splits option.splits if_splits)

section \<open>Every request is answered\<close>

text \<open>
  The replies to the requests \<open>ms\<close> of a connection: the handlers one after the other, each on
  the stack of its round.
\<close>

fun replies :: "'s pcsc \<Rightarrow> (nat \<Rightarrow> uninit) \<Rightarrow> buffer list \<Rightarrow> 's \<Rightarrow> (buffer list \<times> 's) outcome" where
  "replies lib us [] s = Inr ([], s)"
| "replies lib us (m # ms) s =
     (case command_of (unat (msg_type m)) of
        None \<Rightarrow> Inl (Exited 4)
      | Some c \<Rightarrow>
          let u = us (Suc (length ms)) in
          bindo (dispatch lib u c (blit 0 (frame m) (u_msg u)) s) (\<lambda>(a, s).
          bindo (replies lib us ms s) (\<lambda>(as, s). Inr (a # as, s))))"

definition sendable :: "buffer \<Rightarrow> bool" where
  "sendable m \<longleftrightarrow> 5 \<le> unat (msg_len m) \<and> unat (msg_len m) < PP_MAX_MESSAGE_LEN"

lemma replies_Cons:
  assumes "replies lib us (m # ms) s = Inr (as, s')"
  obtains c a s1 as1 where "command_of (unat (msg_type m)) = Some c"
    "dispatch lib (us (Suc (length ms))) c (blit 0 (frame m) (u_msg (us (Suc (length ms))))) s = Inr (a, s1)"
    "replies lib us ms s1 = Inr (as1, s')" "as = a # as1"
  using assms by (auto simp: outcome_simps Let_def split: option.splits)

lemma one_request:
  assumes "rx (chan w (Sock sk)) = es @ t" "arrivals es" "pending_of es = frame m @ rest"
    and "heap w p = Some sk" "5 \<le> unat (msg_len m)" "unat (msg_len m) < PP_MAX_MESSAGE_LEN"
    and "command_of (unat (msg_type m)) = Some c"
    and "dispatch lib u c (blit 0 (frame m) (u_msg u)) s = Inr (a, s')"
    and "unat (msg_len a) \<le> PP_MAX_MESSAGE_LEN" "0 < takes (wx (chan w (Sock sk)))"
  shows "\<exists>w' es'. pp_nextMsg pp_nullenc_opts lib u (Some p) w s = Inr (0, w', s') \<and>
    rx (chan w' (Sock sk)) = es' @ t \<and> arrivals es' \<and> pending_of es' = rest \<and> heap w' p = Some sk \<and>
    stream_out (Sock sk) w' = stream_out (Sock sk) w @ frame a \<and>
    takes (wx (chan w (Sock sk))) \<le> Suc (takes (wx (chan w' (Sock sk))))"
proof -
  let ?m = "blit 0 (frame m) (u_msg u)"
  obtain es' where r: "recv_message (u_msg u) es = Inr ((int (unat (msg_len m)), ?m), es')" "pending_of es' = rest"
    using recv_message_frame [OF assms(3,5,6)] by blast
  note l = recv_message_longer [OF r(1), of t]
  define w1 where "w1 = w\<lparr>chan := (chan w)(Sock sk := (chan w (Sock sk))\<lparr>rx := es' @ t\<rparr>)\<rparr>"
  have "nullenc_tls_recv (Some p) (u_msg u) w = Inr (int (unat (msg_len m)), ?m, w1)"
    using l assms(1,4) by (simp add: nullenc_tls_recv_def deref_def recv_on_def w1_def)
  moreover obtain w2 where "send_on (Sock sk) a w1 = Inr (0, w2)" "heap w2 = heap w"
    "sent (chan w2 (Sock sk)) = sent (chan w (Sock sk)) @ frame a" "rx (chan w2 (Sock sk)) = es' @ t"
    "takes (wx (chan w (Sock sk))) \<le> Suc (takes (wx (chan w2 (Sock sk))))"
    using send_on_takes [of w1 "Sock sk" a] assms(9,10) by (auto simp: w1_def)
  moreover have "nullenc_tls_send (Some p) a w1 = send_on (Sock sk) a w1"
    using assms(4) by (simp add: nullenc_tls_send_def deref_def w1_def)
  moreover have "msg_type ?m = msg_type m" using assms(5) by (simp add: msg_simps)
  ultimately show ?thesis
    using l r(2) assms(2,4,5,7,8)
    by (intro exI [of _ w2] exI [of _ es']) (auto simp: pp_nextMsg_def)
qed

lemma connection_answers:
  assumes "replies lib us ms s = Inr (as, s')" "\<forall>m \<in> set ms. sendable m"
    and "\<forall>a \<in> set as. unat (msg_len a) \<le> PP_MAX_MESSAGE_LEN"
    and "rx (chan w (Sock sk)) = es @ Closed # t" "arrivals es" "pending_of es = concat (map frame ms)"
    and "length ms \<le> takes (wx (chan w (Sock sk)))" "heap w p = Some sk"
  shows "\<exists>w'. pp_handleConnection (Suc (length ms)) pp_nullenc_opts lib us (Some p) w s = Some (Inr (1, w', s')) \<and>
    stream_out (Sock sk) w' = stream_out (Sock sk) w @ concat (map frame as)"
  using assms
proof (induction ms arbitrary: w s es as)
  case Nil
  then show ?case
    by (auto simp: pp_nextMsg_def nullenc_tls_recv_def deref_def recv_on_def recv_closed)
next
  case (Cons m ms)
  from Cons.prems(1) obtain c a s1 as1 where
    c: "command_of (unat (msg_type m)) = Some c"
    and d: "dispatch lib (us (Suc (length ms))) c (blit 0 (frame m) (u_msg (us (Suc (length ms))))) s = Inr (a, s1)"
    and rest: "replies lib us ms s1 = Inr (as1, s')" "as = a # as1"
    by (rule replies_Cons)
  have "pending_of es = frame m @ concat (map frame ms)" using Cons.prems(6) by simp
  from one_request [OF Cons.prems(4,5) this Cons.prems(8) _ _ c d] Cons.prems(2,3,7) rest(2) obtain w1 es1 where
    w1: "pp_nextMsg pp_nullenc_opts lib (us (Suc (length ms))) (Some p) w s = Inr (0, w1, s1)"
      "rx (chan w1 (Sock sk)) = es1 @ Closed # t" "arrivals es1" "pending_of es1 = concat (map frame ms)"
      "heap w1 p = Some sk" "stream_out (Sock sk) w1 = stream_out (Sock sk) w @ frame a"
      "takes (wx (chan w (Sock sk))) \<le> Suc (takes (wx (chan w1 (Sock sk))))"
    by (auto simp: sendable_def)
  from Cons.IH [OF rest(1) _ _ w1(2-4) _ w1(5)] Cons.prems(2,3,7) rest(2) w1(7) obtain w' where
    "pp_handleConnection (Suc (length ms)) pp_nullenc_opts lib us (Some p) w1 s1 = Some (Inr (1, w', s'))"
    "stream_out (Sock sk) w' = stream_out (Sock sk) w1 @ concat (map frame as1)" by auto
  with w1(1,6) rest(2) show ?case by simp
qed

lemma service_replies:
  assumes "replies lib us ms s = Inr (as, s')" "\<forall>m \<in> set ms. sendable m"
    and "\<forall>a \<in> set as. unat (msg_len a) \<le> PP_MAX_MESSAGE_LEN"
    and "rx (chan w (Sock sk)) = es @ Closed # t" "arrivals es" "pending_of es = concat (map frame ms)"
    and "length ms \<le> takes (wx (chan w (Sock sk)))" "heap_left w \<noteq> 0" "refuse (d_os d) = (\<lambda>_. False)"
  shows "\<exists>w'. service (Suc (length ms)) pp_nullenc_opts lib us ctx sk d w s = Some (Inr (3, w', s')) \<and>
    stream_out (Sock sk) w' = stream_out (Sock sk) w @ concat (map frame as)"
proof -
  obtain d1 where h: "setSignalHandler d = (0, d1)"
    using assms(9) by (simp add: setSignalHandler_def setSingleSignalHandler_def refused_def called_def)
  obtain p w1 where n: "new_object sk w = Inr (p, w1)"
    using assms(8) by (auto simp: new_object_def malloc_def)
  then have w1: "heap w1 p = Some sk" "chan w1 = chan w"
    by (auto simp: new_object_Inr)
  from connection_answers [OF assms(1-3) _ assms(5,6) _ w1(1)] assms(4,7) w1(2) obtain w' where
    "pp_handleConnection (Suc (length ms)) pp_nullenc_opts lib us (Some p) w1 s = Some (Inr (1, w', s'))"
    "stream_out (Sock sk) w' = stream_out (Sock sk) w @ concat (map frame as)" by auto
  then show ?thesis
    using h n by (simp add: service_def nullenc_init_server_session_def del: pp_handleConnection.simps)
qed

text \<open>C2 A service answers every request of its connection once, in order, with what the handlers make of
  it, however the requests are cut on their way and however the answers are taken, and exits
  with 3 when the client closes the connection.\<close>

theorem service_answers_all:
  assumes "replies lib us ms s = Inr (as, s')" "\<forall>m \<in> set ms. sendable m"
    and "\<forall>a \<in> set as. unat (msg_len a) \<le> PP_MAX_MESSAGE_LEN"
    and "rx (chan w (Sock sk)) = es @ Closed # t" "arrivals es" "pending_of es = concat (map frame ms)"
    and "length ms \<le> takes (wx (chan w (Sock sk)))" "heap_left w \<noteq> 0" "refuse (d_os d) = (\<lambda>_. False)"
  shows "\<exists>w'. service (Suc (length ms)) pp_nullenc_opts lib us ctx sk d w s = Some (Inr (3, w', s')) \<and>
    stream_out (Sock sk) w' = stream_out (Sock sk) w @ concat (map frame as)"
  using assms by (rule service_replies)

section \<open>The client and the service\<close>

text \<open>A client that exchanges messages over the session of its context \<open>i\<close>.\<close>

fun exchanges :: "'w platform \<Rightarrow> nat \<Rightarrow> buffer list \<Rightarrow> 'w client \<Rightarrow> (buffer list \<times> 'w client) outcome" where
  "exchanges pl i [] c = Inr ([], c)"
| "exchanges pl i (m # ms) c =
     bindo (pp_exchangeMsg pl i m c) (\<lambda>(rv, m, c).
     bindo (exchanges pl i ms c) (\<lambda>(ms, c). Inr (m # ms, c)))"

lemma frame_received: "5 \<le> unat (msg_len a) \<Longrightarrow> frame (blit 0 (frame a) m) = frame a"
  by (subst frame_def) (simp add: header_frame bytes_frame, simp add: frame_def)

lemma exchanges_replies:
  assumes "replies lib (\<lambda>_. u) ms (srv (world c)) = Inr (as, s')" "\<forall>m \<in> set ms. sendable m"
    and "\<forall>a \<in> set as. sendable a" "linked lib N u pl c" "get_context i c = Inr p" "tlsSession p \<noteq> None"
  shows "\<exists>bs. exchanges pl i ms c = Inr (bs, after s' c) \<and> map frame bs = map frame as"
  using assms
proof (induction ms arbitrary: c as)
  case (Cons m ms)
  from Cons.prems(1) obtain cmd a s1 as1 where
    cmd: "command_of (unat (msg_type m)) = Some cmd"
    and d: "dispatch lib u cmd (blit 0 (frame m) (u_msg u)) (srv (world c)) = Inr (a, s1)"
    and rest: "replies lib (\<lambda>_. u) ms s1 = Inr (as1, s')" "as = a # as1"
    by (rule replies_Cons)
  have t: "msg_type m = command_code cmd"
    using command_of_Some [OF cmd] command_index_less [of cmd]
    by (simp add: command_code_def word_unat_eq_iff unat_of_nat)
  have x: "pp_exchangeMsg pl i m c = Inr (0, blit 0 (frame a) m, after s1 c)"
    using link_exchange [OF _ _ _ _ _ _ _ t d] Cons.prems rest(2) by (auto simp: linked_def sendable_def)
  have "frame (blit 0 (frame a) m) = frame a"
    using Cons.prems(3) rest(2) by (simp add: sendable_def frame_received)
  moreover obtain bs where "exchanges pl i ms (after s1 c) = Inr (bs, after s' (after s1 c))"
    "map frame bs = map frame as1"
    using Cons.IH [of "after s1 c" as1] Cons.prems rest by (auto simp: linked_def tls_ops_def get_context_def)
  ultimately show ?case using x rest(2) by auto
qed simp

text \<open>C3 What a client gets over the link of its session is what the service process of the server would
  have sent it for the same requests, and the PC/SC library is left in the same state: the two
  views of the server agree.\<close>

theorem link_is_the_service:
  assumes "replies lib (\<lambda>_. u) ms (srv (world c)) = Inr (as, s')" "\<forall>m \<in> set ms. sendable m"
    and "\<forall>a \<in> set as. sendable a" "linked lib N u pl c" "get_context i c = Inr p" "tlsSession p \<noteq> None"
    and "rx (chan w (Sock sk)) = es @ Closed # t" "arrivals es" "pending_of es = concat (map frame ms)"
    and "length ms \<le> takes (wx (chan w (Sock sk)))" "heap_left w \<noteq> 0" "refuse (d_os d) = (\<lambda>_. False)"
  shows "\<exists>bs c' w' code. exchanges pl i ms c = Inr (bs, c') \<and>
    service (Suc (length ms)) pp_nullenc_opts lib (\<lambda>_. u) ctx sk d w (srv (world c)) =
      Some (Inr (code, w', srv (world c'))) \<and>
    stream_out (Sock sk) w' = stream_out (Sock sk) w @ concat (map frame bs)"
proof -
  from exchanges_replies [OF assms(1-6)] obtain bs where
    bs: "exchanges pl i ms c = Inr (bs, after s' c)" "map frame bs = map frame as" by blast
  have "\<forall>a \<in> set as. unat (msg_len a) \<le> PP_MAX_MESSAGE_LEN" using assms(3) by (auto simp: sendable_def)
  from service_replies [OF assms(1,2) this assms(7-12)] bs show ?thesis by fastforce
qed

definition example_request :: buffer where
  "example_request = putf s_begin F_hCard 0x2002 (request SCARD_BEGIN_TRANSACTION 13)"

definition example_input :: "read_event list \<Rightarrow> net" where
  "example_input es = example_world
     \<lparr>chan := (\<lambda>_. \<lparr>rx = es @ [Closed], wx = [Accept PP_MAX_MESSAGE_LEN, WriteFail EINTR, Accept PP_MAX_MESSAGE_LEN], sent = []\<rparr>)\<rparr>"

definition example_reply :: buffer where
  "example_reply = putf s_begin F_rv 0 (blit 0 (frame example_request) zeros)"

lemma example_replies:
  "replies demo_lib (\<lambda>_. demo_uninit) [example_request, example_request] 0 = Inr ([example_reply, example_reply], 2)"
  by (simp add: example_request_def example_reply_def msg_simps handleBeginTransaction_def demo_uninit_def Let_def)

lemma example_sendable:
  "\<forall>m \<in> set [example_request, example_request]. sendable m" "\<forall>a \<in> set [example_reply, example_reply]. sendable a"
  by (simp_all add: example_reply_def example_request_def sendable_def msg_simps)

definition example_pieces :: "read_event list" where
  "example_pieces = [Arrive (frame example_request @ take 2 (frame example_request)),
     Arrive (drop 2 (frame example_request))]"

lemma example_service:
  "rx (chan (example_input example_pieces) (Sock 6)) = example_pieces @ Closed # []"
  "length [example_request, example_request] \<le> takes (wx (chan (example_input example_pieces) (Sock 6)))"
  "heap_left (example_input example_pieces) \<noteq> 0" "arrivals example_pieces"
  "pending_of example_pieces = concat (map frame [example_request, example_request])"
  "refuse (d_os example_daemon) = (\<lambda>_. False)"
  by (simp_all add: example_input_def example_world_def example_pieces_def example_daemon_def fun_eq_iff)

lemma service_answers_all_witness:
  "\<exists>w'. service (Suc (length [example_request, example_request])) pp_nullenc_opts demo_lib
     (\<lambda>_. demo_uninit) (Some 0) 6 example_daemon (example_input example_pieces) 0 = Some (Inr (3, w', 2))"
proof -
  have "\<forall>a \<in> set [example_reply, example_reply]. unat (msg_len a) \<le> PP_MAX_MESSAGE_LEN"
    using example_sendable(2) by (auto simp: sendable_def)
  from service_answers_all [OF example_replies example_sendable(1) this example_service(1,4,5,2,3,6)]
  show ?thesis by blast
qed

lemma link_is_the_service_witness:
  "\<exists>bs c'. exchanges demo_pl 0 [example_request, example_request] (demo_client demo_link) = Inr (bs, c') \<and>
    length bs = 2"
proof -
  have "replies demo_lib (\<lambda>_. demo_uninit) [example_request, example_request] (srv (world (demo_client demo_link))) =
      Inr ([example_reply, example_reply], 2)"
    using example_replies by simp
  moreover have "get_context 0 (demo_client demo_link) = Inr demo_context" "tlsSession demo_context \<noteq> None"
    using demo_context_session [of "link_opts demo_lib demo_network demo_uninit" demo_link]
    by (simp_all add: context_session_def)
  ultimately obtain bs c' where e: "exchanges demo_pl 0 [example_request, example_request] (demo_client demo_link) = Inr (bs, c')"
    using link_is_the_service [OF _ example_sendable demo_linked _ _ example_service(1,4,5,2,3,6)] by blast
  then have "length bs = 2" by (auto simp: outcome_simps)
  with e show ?thesis by blast
qed

lemma service_exit_code_witness:
  "\<exists>code w' s'. service 1 pp_nullenc_opts demo_lib (\<lambda>_. demo_uninit) (Some 0) 6 example_daemon
     (example_input []) 0 = Some (Inr (code, w', s')) \<and> (code = 2 \<or> code = 3)"
proof -
  obtain w' where r: "service 1 pp_nullenc_opts demo_lib (\<lambda>_. demo_uninit) (Some 0) 6 example_daemon
     (example_input []) 0 = Some (Inr (3, w', 0))"
    by (auto simp: service_def setSignalHandler_def setSingleSignalHandler_def example_daemon_def
        refused_def example_os_def nullenc_init_server_session_def new_object_def malloc_def
        example_input_def example_world_def pp_nextMsg_def nullenc_tls_recv_def deref_def recv_on_def
        recv_closed [of "[]", simplified])
  from service_exit_code [OF r] r show ?thesis by blast
qed

end
