(* ===== verification/Sessions.thy ===== *)
theory Sessions
  imports Opts
begin

text \<open>
  Contexts and sessions of the TLS libraries: the set-up and the release operations of
  \<open>src/src/common/openssl.c\<close> with its SRP authentication, and those of \<open>tls.c\<close> for GnuTLS.

  The structures of the program are in the heap of the world \<open>net\<close>, the objects of the TLS
  library in the second component: which of them are alive, and what the library answers to each
  call, a pointer (0 for NULL) or a return code, which is the environment's choice.
\<close>

section \<open>Objects of the library\<close>

datatype object =
  SslCtx bool | Vbase | Ssl "nat option" | Bio int | Dh | GnutlsSession | Credentials | DhParams

text \<open>
  \<open>ctx_fields\<close> and \<open>sess_fields\<close> are the pointers in the program's structures: SSL context and
  SRP base, and SSL and BIO objects (for GnuTLS the credentials and DH parameters, and the
  session).  The flag of an SSL context says that SRP is set up; an SSL object owns the BIO that
  was set for it.
\<close>

record objs =
  live :: "nat \<Rightarrow> object option"
  next_obj :: nat
  answer :: "nat \<Rightarrow> int"
  asked :: nat
  ctx_fields :: "nat \<Rightarrow> ptr \<times> ptr"
  sess_fields :: "nat \<Rightarrow> ptr \<times> ptr"

type_synonym tls_world = "net \<times> objs"

definition ask :: "objs \<Rightarrow> int \<times> objs" where
  "ask b = (answer b (asked b), b\<lparr>asked := Suc (asked b)\<rparr>)"

text \<open>A constructor of the library.\<close>

definition new_lib :: "object \<Rightarrow> objs \<Rightarrow> ptr \<times> objs" where
  "new_lib x b =
     (let (a, b) = ask b in
      if a = 0 then (None, b)
      else (Some (next_obj b), b\<lparr>live := (live b)(next_obj b \<mapsto> x), next_obj := Suc (next_obj b)\<rparr>))"

definition free_lib :: "ptr \<Rightarrow> objs \<Rightarrow> objs outcome" where
  "free_lib q b =
     (case q of
        None \<Rightarrow> Inr b
      | Some p \<Rightarrow> if live b p = None then Inl OutOfBounds else Inr (b\<lparr>live := (live b)(p := None)\<rparr>))"

text \<open>\<open>SSL_free\<close> releases the BIO of the object as well.\<close>

definition SSL_free :: "ptr \<Rightarrow> objs \<Rightarrow> objs outcome" where
  "SSL_free q b =
     (case q of
        None \<Rightarrow> Inr b
      | Some p \<Rightarrow>
          (case live b p of
             Some (Ssl bio) \<Rightarrow> bindo (free_lib q b) (free_lib bio)
           | _ \<Rightarrow> Inl OutOfBounds))"

definition SSL_set_bio :: "ptr \<Rightarrow> ptr \<Rightarrow> objs \<Rightarrow> objs" where
  "SSL_set_bio ssl bio b = (case ssl of None \<Rightarrow> b | Some p \<Rightarrow> b\<lparr>live := (live b)(p \<mapsto> Ssl bio)\<rparr>)"

section \<open>OpenSSL: contexts\<close>

text \<open>A failing \<open>DH_generate_key\<close> frees the object and returns it nevertheless.\<close>

definition setup_dh :: "objs \<Rightarrow> (ptr \<times> objs) outcome" where
  "setup_dh b =
     (let (dh, b) = new_lib Dh b in
      if dh = None then Inr (None, b)
      else
        let (rv, b) = ask b in
        if rv < 0 then bindo (free_lib dh b) (\<lambda>b. Inr (None, b))
        else
          let (rv, b) = ask b in
          if rv < 0 then bindo (free_lib dh b) (\<lambda>b. Inr (None, b))
          else
            let (rv, b) = ask b in
            if rv < 0 then bindo (free_lib dh b) (\<lambda>b. Inr (dh, b)) else Inr (dh, b))"

text \<open>
  The SRP callback: \<open>verifier\<close> is the lookup of a user in the SRP base and \<open>set_param\<close> the
  result of setting the parameters of one; the codes are \<open>SSL3_AL_FATAL\<close> and
  \<open>SSL_ERROR_NONE\<close>.
\<close>

definition srp_server_param_cb :: "(string \<Rightarrow> 'v option) \<Rightarrow> ('v \<Rightarrow> int) \<Rightarrow> string \<Rightarrow> int" where
  "srp_server_param_cb verifier set_param user =
     (case verifier user of None \<Rightarrow> 2 | Some v \<Rightarrow> if set_param v < 0 then 2 else 0)"

definition srp_init_server :: "nat \<Rightarrow> objs \<Rightarrow> int \<times> objs" where
  "srp_init_server ctx b =
     (let (vbase, b) = new_lib Vbase b;
        b = b\<lparr>ctx_fields := (ctx_fields b)(ctx := (fst (ctx_fields b ctx), vbase))\<rparr>
      in if vbase = None then (-1, b)
         else
           let (res, b) = ask b in
           if res \<noteq> 0 then (-1, b)
           else
             (0, case fst (ctx_fields b ctx) of
                   None \<Rightarrow> b
                 | Some c \<Rightarrow> b\<lparr>live := (live b)(c \<mapsto> SslCtx True)\<rparr>))"

definition ossl_init_server :: "tls_world \<Rightarrow> (int \<times> ptr \<times> tls_world) outcome" where
  "ossl_init_server w =
     (case w of (n, b) \<Rightarrow>
        bindo (new_object 0 n) (\<lambda>(ctx, n).
        let (ssl_ctx, b) = new_lib (SslCtx False) b;
          b = b\<lparr>ctx_fields := (ctx_fields b)(ctx := (ssl_ctx, None))\<rparr>
        in if ssl_ctx = None then Inr (-1, None, n, b)
           else
             let (rv, b) = ask b in
             if rv < 0 then bindo (free_object (Some ctx) n) (\<lambda>n. Inr (-1, None, n, b))
             else
               bindo (setup_dh b) (\<lambda>(dh, b).
               bindo (check (dh = None \<or> live b (the dh) \<noteq> None) OutOfBounds) (\<lambda>_.
               let (rv, b) = srp_init_server ctx b in
               if rv < 0 then bindo (free_object (Some ctx) n) (\<lambda>n. Inr (-1, None, n, b))
               else Inr (0, Some ctx, n, b)))))"

text \<open>The structure behind a pointer, and its fields.\<close>

definition ctx_of :: "ptr \<Rightarrow> tls_world \<Rightarrow> (ptr \<times> ptr) outcome" where
  "ctx_of q w =
     (case w of (n, b) \<Rightarrow>
        (case q of
           None \<Rightarrow> Inl NullPointer
         | Some p \<Rightarrow> if heap n p = None then Inl OutOfBounds else Inr (ctx_fields b p)))"

definition sess_of :: "ptr \<Rightarrow> tls_world \<Rightarrow> (ptr \<times> ptr) outcome" where
  "sess_of q w =
     (case w of (n, b) \<Rightarrow>
        (case q of
           None \<Rightarrow> Inl NullPointer
         | Some p \<Rightarrow> if heap n p = None then Inl OutOfBounds else Inr (sess_fields b p)))"

definition ossl_fini_server :: "ptr \<Rightarrow> tls_world \<Rightarrow> (int \<times> tls_world) outcome" where
  "ossl_fini_server ctx w =
     bindo (ctx_of ctx w) (\<lambda>(ssl_ctx, vbase).
     case w of (n, b) \<Rightarrow>
     bindo (free_lib vbase b) (\<lambda>b.
     bindo (free_lib ssl_ctx b) (\<lambda>b.
     bindo (free_object ctx n) (\<lambda>n. Inr (0, n, b)))))"

definition ossl_init_client :: "tls_world \<Rightarrow> (int \<times> ptr \<times> tls_world) outcome" where
  "ossl_init_client w =
     (case w of (n, b) \<Rightarrow>
        bindo (new_object 0 n) (\<lambda>(ctx, n).
        let (ssl_ctx, b) = new_lib (SslCtx False) b;
          b = b\<lparr>ctx_fields := (ctx_fields b)(ctx := (ssl_ctx, None))\<rparr>
        in if ssl_ctx = None then Inr (-1, None, n, b) else Inr (0, Some ctx, n, b)))"

definition ossl_client_set_srp_auth :: "ptr \<Rightarrow> string \<Rightarrow> string \<Rightarrow> tls_world \<Rightarrow> (int \<times> tls_world) outcome" where
  "ossl_client_set_srp_auth ctx name password w =
     bindo (ctx_of ctx w) (\<lambda>_.
     case w of (n, b) \<Rightarrow>
     let (rv, b) = ask b in
     if rv < 0 then Inr (-1, n, b)
     else
       let (rv, b) = ask b in
       if rv < 0 then Inr (-1, n, b)
       else
         let (rv, b) = ask b in
         if rv < 0 then Inr (-1, n, b) else Inr (0, n, b))"

definition ossl_fini_client :: "ptr \<Rightarrow> tls_world \<Rightarrow> (int \<times> tls_world) outcome" where
  "ossl_fini_client ctx w =
     bindo (ctx_of ctx w) (\<lambda>(ssl_ctx, _).
     case w of (n, b) \<Rightarrow>
     bindo (free_lib ssl_ctx b) (\<lambda>b.
     bindo (free_object ctx n) (\<lambda>n. Inr (0, n, b))))"

section \<open>OpenSSL: sessions\<close>

text \<open>
  \<open>ossl_init_server_session\<close> and \<open>ossl_init_client_session\<close> differ in the handshake only,
  \<open>SSL_accept\<close> or \<open>SSL_connect\<close>, which is a call of the library in both.
\<close>

definition open_session :: "ptr \<Rightarrow> int \<Rightarrow> tls_world \<Rightarrow> (int \<times> ptr \<times> tls_world) outcome" where
  "open_session ctx sock w =
     (case w of (n, b) \<Rightarrow>
        bindo (new_object sock n) (\<lambda>(session, n).
        bindo (ctx_of ctx (n, b)) (\<lambda>_.
        let (ssl, b) = new_lib (Ssl None) b;
          b = b\<lparr>sess_fields := (sess_fields b)(session := (ssl, None))\<rparr>
        in if ssl = None then bindo (free_object (Some session) n) (\<lambda>n. Inr (-1, None, n, b))
           else
             let (bio, b) = new_lib (Bio sock) b;
               b = b\<lparr>sess_fields := (sess_fields b)(session := (ssl, bio))\<rparr>
             in if bio = None then
                  bindo (SSL_free ssl b) (\<lambda>b.
                  bindo (free_object (Some session) n) (\<lambda>n. Inr (-1, None, n, b)))
                else
                  let b = SSL_set_bio ssl bio b;
                    (ret, b) = ask b
                  in if ret < 0 then
                       bindo (SSL_free ssl b) (\<lambda>b.
                       bindo (free_object (Some session) n) (\<lambda>n. Inr (-1, None, n, b)))
                     else Inr (0, Some session, n, b))))"

definition close_session :: "ptr \<Rightarrow> tls_world \<Rightarrow> (int \<times> tls_world) outcome" where
  "close_session session w =
     bindo (sess_of session w) (\<lambda>(ssl, _).
     case w of (n, b) \<Rightarrow>
     let (_, b) = ask b in
     bindo (SSL_free ssl b) (\<lambda>b.
     bindo (free_object session n) (\<lambda>n. Inr (0, n, b))))"

definition ossl_init_server_session :: "ptr \<Rightarrow> int \<Rightarrow> tls_world \<Rightarrow> (int \<times> ptr \<times> tls_world) outcome" where
  "ossl_init_server_session ctx sock w = open_session ctx sock w"

definition ossl_fini_server_session :: "ptr \<Rightarrow> ptr \<Rightarrow> tls_world \<Rightarrow> (int \<times> tls_world) outcome" where
  "ossl_fini_server_session ctx session w = close_session session w"

definition ossl_init_client_session :: "ptr \<Rightarrow> int \<Rightarrow> tls_world \<Rightarrow> (int \<times> ptr \<times> tls_world) outcome" where
  "ossl_init_client_session ctx sock w = open_session ctx sock w"

definition ossl_fini_client_session :: "ptr \<Rightarrow> ptr \<Rightarrow> tls_world \<Rightarrow> (int \<times> tls_world) outcome" where
  "ossl_fini_client_session ctx session w = close_session session w"

text \<open>The receive and send operations work on the sockets and streams of the world.\<close>

definition on_net_recv :: "(ptr \<Rightarrow> buffer \<Rightarrow> net \<Rightarrow> (int \<times> buffer \<times> net) outcome) \<Rightarrow>
    ptr \<Rightarrow> buffer \<Rightarrow> tls_world \<Rightarrow> (int \<times> buffer \<times> tls_world) outcome" where
  "on_net_recv f q m w =
     (case w of (n, b) \<Rightarrow> bindo (f q m n) (\<lambda>(rc, m, n). Inr (rc, m, n, b)))"

definition on_net_send :: "(ptr \<Rightarrow> buffer \<Rightarrow> net \<Rightarrow> (int \<times> net) outcome) \<Rightarrow>
    ptr \<Rightarrow> buffer \<Rightarrow> tls_world \<Rightarrow> (int \<times> tls_world) outcome" where
  "on_net_send f q m w = (case w of (n, b) \<Rightarrow> bindo (f q m n) (\<lambda>(rc, n). Inr (rc, n, b)))"

definition pp_openssl_opts :: "tls_world tlsopts" where
  "pp_openssl_opts =
     \<lparr>init_server = ossl_init_server, fini_server = ossl_fini_server,
      init_server_session = ossl_init_server_session,
      fini_server_session = ossl_fini_server_session,
      init_client = ossl_init_client, fini_client = ossl_fini_client,
      client_set_srp_auth = ossl_client_set_srp_auth,
      init_client_session = ossl_init_client_session,
      fini_client_session = ossl_fini_client_session,
      tls_recv = on_net_recv ossl_tls_recv, tls_send = on_net_send ossl_tls_send,
      get_socket = (\<lambda>q w. ossl_tls_get_socket q (fst w))\<rparr>"

section \<open>GnuTLS\<close>

text \<open>The calls of the library whose results are not looked at.\<close>

fun skip_calls :: "nat \<Rightarrow> objs \<Rightarrow> objs" where
  "skip_calls 0 b = b"
| "skip_calls (Suc k) b = skip_calls k (snd (ask b))"

definition pp_init_server :: "tls_world \<Rightarrow> (int \<times> ptr \<times> tls_world) outcome" where
  "pp_init_server w =
     (case w of (n, b) \<Rightarrow>
        bindo (new_object 0 n) (\<lambda>(ctx, n).
        let b = skip_calls 1 b;
          (dh_params, b) = new_lib DhParams b;
          b = skip_calls 1 b;
          (anoncred, b) = new_lib Credentials b;
          b = skip_calls 1 b
        in Inr (0, Some ctx, n, b\<lparr>ctx_fields := (ctx_fields b)(ctx := (anoncred, dh_params))\<rparr>)))"

definition pp_fini_server :: "ptr \<Rightarrow> tls_world \<Rightarrow> (int \<times> tls_world) outcome" where
  "pp_fini_server ctx w =
     bindo (ctx_of ctx w) (\<lambda>(anoncred, _).
     case w of (n, b) \<Rightarrow>
     bindo (free_lib anoncred b) (\<lambda>b.
     bindo (free_object ctx n) (\<lambda>n. Inr (0, n, b))))"

definition pp_init_client :: "tls_world \<Rightarrow> (int \<times> ptr \<times> tls_world) outcome" where
  "pp_init_client w =
     (case w of (n, b) \<Rightarrow>
        bindo (new_object 0 n) (\<lambda>(ctx, n).
        let b = skip_calls 1 b;
          (anoncred, b) = new_lib Credentials b
        in Inr (0, Some ctx, n, b\<lparr>ctx_fields := (ctx_fields b)(ctx := (anoncred, None))\<rparr>)))"

definition pp_fini_client :: "ptr \<Rightarrow> tls_world \<Rightarrow> (int \<times> tls_world) outcome" where
  "pp_fini_client ctx w = pp_fini_server ctx w"

text \<open>
  The two \<open>init\<close> functions for sessions differ in the flag given to \<open>gnutls_init\<close>.  After a
  failed handshake the program's structure is freed, and the library's is not.
\<close>

definition gnutls_open :: "ptr \<Rightarrow> int \<Rightarrow> tls_world \<Rightarrow> (int \<times> ptr \<times> tls_world) outcome" where
  "gnutls_open ctx sock w =
     (case w of (n, b) \<Rightarrow>
        bindo (new_object sock n) (\<lambda>(session, n).
        let (g, b) = new_lib GnutlsSession b;
          b = b\<lparr>sess_fields := (sess_fields b)(session := (g, None))\<rparr>;
          b = skip_calls 1 b
        in bindo (ctx_of ctx (n, b)) (\<lambda>_.
           let b = skip_calls 3 b;
             (ret, b) = ask b
           in if ret < 0 then bindo (free_object (Some session) n) (\<lambda>n. Inr (-1, None, n, b))
              else Inr (0, Some session, n, b))))"

definition gnutls_close :: "ptr \<Rightarrow> tls_world \<Rightarrow> (int \<times> tls_world) outcome" where
  "gnutls_close session w =
     bindo (sess_of session w) (\<lambda>(g, _).
     case w of (n, b) \<Rightarrow>
     bindo (free_lib g b) (\<lambda>b.
     bindo (free_object session n) (\<lambda>n. Inr (0, n, b))))"

definition pp_init_server_session :: "ptr \<Rightarrow> int \<Rightarrow> tls_world \<Rightarrow> (int \<times> ptr \<times> tls_world) outcome" where
  "pp_init_server_session ctx sock w = gnutls_open ctx sock w"

definition pp_fini_server_session :: "ptr \<Rightarrow> ptr \<Rightarrow> tls_world \<Rightarrow> (int \<times> tls_world) outcome" where
  "pp_fini_server_session ctx session w = gnutls_close session w"

definition pp_init_client_session :: "ptr \<Rightarrow> int \<Rightarrow> tls_world \<Rightarrow> (int \<times> ptr \<times> tls_world) outcome" where
  "pp_init_client_session ctx sock w = gnutls_open ctx sock w"

definition pp_fini_client_session :: "ptr \<Rightarrow> ptr \<Rightarrow> tls_world \<Rightarrow> (int \<times> tls_world) outcome" where
  "pp_fini_client_session ctx session w = gnutls_close session w"

section \<open>The life of objects\<close>

lemma ask_simps [simp]:
  "live (snd (ask b)) = live b" "next_obj (snd (ask b)) = next_obj b" "sess_fields (snd (ask b)) = sess_fields b"
  "ctx_fields (snd (ask b)) = ctx_fields b"
  by (simp_all add: ask_def)

lemma skip_calls_simps [simp]:
  "live (skip_calls k b) = live b" "next_obj (skip_calls k b) = next_obj b"
  "sess_fields (skip_calls k b) = sess_fields b" "ctx_fields (skip_calls k b) = ctx_fields b"
  by (induction k b rule: skip_calls.induct) simp_all

text \<open>The numbers of new objects were never used: nothing is alive at them.\<close>

definition wf_world :: "tls_world \<Rightarrow> bool" where
  "wf_world w \<longleftrightarrow>
     (\<forall>i \<ge> heap_next (fst w). heap (fst w) i = None) \<and> (\<forall>i \<ge> next_obj (snd w). live (snd w) i = None)"

lemma ask_cases:
  assumes "ask b = (rv, b')"
  obtains "live b' = live b" "next_obj b' = next_obj b" "sess_fields b' = sess_fields b"
    "ctx_fields b' = ctx_fields b"
  using assms by (auto simp: ask_def)

lemma new_lib_cases:
  assumes "new_lib x b = (q, b')"
  obtains "q = None" "live b' = live b" "next_obj b' = next_obj b" "sess_fields b' = sess_fields b"
  | "q = Some (next_obj b)" "live b' = (live b)(next_obj b \<mapsto> x)" "next_obj b' = Suc (next_obj b)"
    "sess_fields b' = sess_fields b"
  using assms by (auto simp: new_lib_def ask_def split: if_splits)

text \<open>Sessions, one after the other: each is opened, and closed when the opening succeeded.\<close>

fun sessions :: "(int \<Rightarrow> 'w \<Rightarrow> (int \<times> ptr \<times> 'w) outcome) \<Rightarrow> (ptr \<Rightarrow> 'w \<Rightarrow> (int \<times> 'w) outcome) \<Rightarrow>
    int list \<Rightarrow> 'w \<Rightarrow> 'w outcome" where
  "sessions open_on close_on [] w = Inr w"
| "sessions open_on close_on (sock # socks) w =
     bindo (open_on sock w) (\<lambda>(rv, q, w).
       if rv < 0 then sessions open_on close_on socks w
       else bindo (close_on q w) (\<lambda>(_, w). sessions open_on close_on socks w))"

text \<open>
  What a TLS layer promises of its sessions: in a world with memory left, opening one does not
  fault; when it fails, everything that was made on the way is gone; when it succeeds, closing
  the session leaves what there was before.
\<close>

locale session_life =
  fixes alive :: "'w \<Rightarrow> 'a" and usable :: "nat \<Rightarrow> 'w \<Rightarrow> bool"
    and open_on :: "int \<Rightarrow> 'w \<Rightarrow> (int \<times> ptr \<times> 'w) outcome"
    and close_on :: "ptr \<Rightarrow> 'w \<Rightarrow> (int \<times> 'w) outcome"
  assumes session: "usable (Suc k) w \<Longrightarrow> \<exists>rv q w'. open_on sock w = Inr (rv, q, w') \<and>
    (if rv < 0 then alive w' = alive w \<and> usable k w'
     else \<exists>w''. close_on q w' = Inr (0, w'') \<and> alive w'' = alive w \<and> usable k w'')"
begin

lemma sessions_leave_nothing:
  "usable (length socks) w \<Longrightarrow> \<exists>w'. sessions open_on close_on socks w = Inr w' \<and> alive w' = alive w"
proof (induction socks arbitrary: w)
  case (Cons sock socks)
  from Cons.prems session [of "length socks" w sock] obtain rv q w1 where
    o: "open_on sock w = Inr (rv, q, w1)" and
    r: "if rv < 0 then alive w1 = alive w \<and> usable (length socks) w1
     else \<exists>w2. close_on q w1 = Inr (0, w2) \<and> alive w2 = alive w \<and> usable (length socks) w2"
    by auto
  show ?case
  proof (cases "rv < 0")
    case True
    with Cons.IH [of w1] o r show ?thesis by auto
  next
    case False
    with r obtain w2 where "close_on q w1 = Inr (0, w2)" "alive w2 = alive w" "usable (length socks) w2" by auto
    with Cons.IH [of w2] o False show ?thesis by auto
  qed
qed simp

end

abbreviation alive_world :: "tls_world \<Rightarrow> (nat \<Rightarrow> int option) \<times> (nat \<Rightarrow> object option)" where
  "alive_world w \<equiv> (heap (fst w), live (snd w))"

text \<open>A well-formed world with a live context \<open>c\<close> and memory for \<open>k\<close> more structures.\<close>

definition ready :: "nat \<Rightarrow> nat \<Rightarrow> tls_world \<Rightarrow> bool" where
  "ready c k w \<longleftrightarrow> wf_world w \<and> heap (fst w) c \<noteq> None \<and> k \<le> heap_left (fst w)"

lemma new_object_ready:
  assumes "ready c (Suc k) (n, b)"
  obtains n1 n2 where "new_object sock n = Inr (heap_next n, n1)" "heap n1 = (heap n)(heap_next n \<mapsto> sock)"
    "heap n (heap_next n) = None" "c \<noteq> heap_next n" "ctx_of (Some c) (n1, b) = Inr (ctx_fields b c)"
    "free_object (Some (heap_next n)) n1 = Inr n2" "heap n2 = heap n"
    "\<And>b'. live b' = live b \<Longrightarrow> next_obj b \<le> next_obj b' \<Longrightarrow> ready c k (n2, b')"
    "\<And>b' x y z u. z \<noteq> u \<Longrightarrow> live b' = (live b)(z \<mapsto> x, u \<mapsto> y) \<Longrightarrow> next_obj b \<le> next_obj b' \<Longrightarrow>
      z < next_obj b' \<Longrightarrow> u < next_obj b' \<Longrightarrow> wf_world (n1, b') \<and> k \<le> heap_left n1"
proof -
  define n1 where
    "n1 = n\<lparr>heap := (heap n)(heap_next n \<mapsto> sock), heap_next := Suc (heap_next n), heap_left := heap_left n - 1\<rparr>"
  define n2 where "n2 = n1\<lparr>heap := (heap n1)(heap_next n := None)\<rparr>"
  have free: "heap n i = None" if "heap_next n \<le> i" for i
    using assms that by (simp add: ready_def wf_world_def)
  have objs: "live b i = None" if "next_obj b \<le> i" for i
    using assms that by (simp add: ready_def wf_world_def)
  have c: "c \<noteq> heap_next n" "heap n c \<noteq> None" using assms free by (auto simp: ready_def)
  have n2: "heap n2 = heap n" by (auto simp: n2_def n1_def fun_eq_iff free)
  show ?thesis
  proof (rule that)
    show "new_object sock n = Inr (heap_next n, n1)"
      using assms by (simp add: new_object_Inr ready_def n1_def)
    show "heap n1 = (heap n)(heap_next n \<mapsto> sock)" by (simp add: n1_def)
    show "heap n (heap_next n) = None" by (simp add: free)
    show "c \<noteq> heap_next n" by (rule c)
    show "ctx_of (Some c) (n1, b) = Inr (ctx_fields b c)" using c by (simp add: ctx_of_def n1_def)
    show "free_object (Some (heap_next n)) n1 = Inr n2" by (simp add: free_object_def n2_def n1_def)
    show "heap n2 = heap n" by (rule n2)
    show "ready c k (n2, b')" if "live b' = live b" "next_obj b \<le> next_obj b'" for b'
      using that assms n2 by (auto simp: ready_def wf_world_def n2_def n1_def)
    show "wf_world (n1, b') \<and> k \<le> heap_left n1"
      if "z \<noteq> u" "live b' = (live b)(z \<mapsto> x, u \<mapsto> y)" "next_obj b \<le> next_obj b'" "z < next_obj b'" "u < next_obj b'"
      for b' x y z u
      using that assms free objs by (auto simp: ready_def wf_world_def n1_def)
  qed
qed

text \<open>What opening a session of the OpenSSL layer does.\<close>

definition opened :: "nat \<Rightarrow> nat \<Rightarrow> int \<Rightarrow> tls_world \<Rightarrow> ptr \<Rightarrow> tls_world \<Rightarrow> bool" where
  "opened c k sock w q w' \<longleftrightarrow>
     (\<exists>p s i. q = Some p \<and> p \<noteq> c \<and> s \<noteq> i \<and> heap (fst w) p = None \<and> heap (fst w) c \<noteq> None \<and>
       live (snd w) s = None \<and> live (snd w) i = None \<and>
       heap (fst w') = (heap (fst w))(p \<mapsto> sock) \<and>
       live (snd w') = (live (snd w))(s \<mapsto> Ssl (Some i), i \<mapsto> Bio sock) \<and>
       sess_fields (snd w') p = (Some s, Some i) \<and> wf_world w' \<and> k \<le> heap_left (fst w'))"

lemma SSL_free_alone:
  "live b = L(s \<mapsto> Ssl None) \<Longrightarrow> L s = None \<Longrightarrow> SSL_free (Some s) b = Inr (b\<lparr>live := L\<rparr>)"
  by (simp add: SSL_free_def free_lib_def fun_upd_idem)

text \<open>An SSL object owns its BIO: both are freed together.\<close>

lemma set_bio_result:
  assumes "ask (SSL_set_bio (Some s) (Some i) b) = (rv, b')" "live b = L(s \<mapsto> Ssl None, i \<mapsto> Bio sock)"
    "s \<noteq> i" "L s = None" "L i = None"
  shows "live b' = L(s \<mapsto> Ssl (Some i), i \<mapsto> Bio sock)" "next_obj b' = next_obj b" "sess_fields b' = sess_fields b"
    "SSL_free (Some s) b' = Inr (b'\<lparr>live := L\<rparr>)"
proof -
  show l: "live b' = L(s \<mapsto> Ssl (Some i), i \<mapsto> Bio sock)" "next_obj b' = next_obj b" "sess_fields b' = sess_fields b"
    using assms by (auto simp: ask_def SSL_set_bio_def fun_eq_iff)
  have "L(s := None, i := None) = L" using assms by (auto simp: fun_eq_iff)
  with l assms(3) show "SSL_free (Some s) b' = Inr (b'\<lparr>live := L\<rparr>)"
    by (simp add: SSL_free_def free_lib_def fun_upd_twist)
qed

lemma open_session_result:
  assumes "ready c (Suc k) w"
  shows "\<exists>rv q w'. open_session (Some c) sock w = Inr (rv, q, w') \<and>
    (if rv < 0 then alive_world w' = alive_world w \<and> ready c k w' else opened c k sock w q w')"
proof -
  obtain n b where w: "w = (n, b)" by (cases w)
  let ?p = "heap_next n" and ?s = "next_obj b" and ?i = "Suc (next_obj b)"
  obtain n1 n2 where r: "new_object sock n = Inr (heap_next n, n1)" "heap n1 = (heap n)(heap_next n \<mapsto> sock)"
    "heap n (heap_next n) = None" "c \<noteq> heap_next n" "ctx_of (Some c) (n1, b) = Inr (ctx_fields b c)"
    "free_object (Some (heap_next n)) n1 = Inr n2" "heap n2 = heap n"
    "\<And>b'. live b' = live b \<Longrightarrow> next_obj b \<le> next_obj b' \<Longrightarrow> ready c k (n2, b')"
    "\<And>b' x y z u. z \<noteq> u \<Longrightarrow> live b' = (live b)(z \<mapsto> x, u \<mapsto> y) \<Longrightarrow> next_obj b \<le> next_obj b' \<Longrightarrow>
      z < next_obj b' \<Longrightarrow> u < next_obj b' \<Longrightarrow> wf_world (n1, b') \<and> k \<le> heap_left n1"
    by (rule new_object_ready [OF assms [unfolded w]]) blast
  have objs: "live b j = None" if "?s \<le> j" for j using assms that by (simp add: ready_def wf_world_def w)
  obtain ssl b1 where s: "new_lib (Ssl None) b = (ssl, b1)" by force
  from s show ?thesis
  proof (cases rule: new_lib_cases)
    case 1
    have "open_session (Some c) sock w = Inr (-1, None, n2, b1\<lparr>sess_fields := (sess_fields b1)(?p := (None, None))\<rparr>)"
      using 1(1) s r(1,5,6) by (simp add: open_session_def w)
    then show ?thesis using 1(2,3) r(7) r(8) by (simp add: w)
  next
    case ssl: 2
    let ?b1 = "b1\<lparr>sess_fields := (sess_fields b1)(?p := (Some ?s, None))\<rparr>"
    obtain bio b2 where i: "new_lib (Bio sock) ?b1 = (bio, b2)" by force
    let ?b2 = "b2\<lparr>sess_fields := (sess_fields b2)(?p := (Some ?s, bio))\<rparr>"
    note open_eq = open_session_def w s i r(1,5,6) ssl(1)
    from i show ?thesis
    proof (cases rule: new_lib_cases)
      case 1
      have "SSL_free (Some ?s) ?b2 = Inr (?b2\<lparr>live := live b\<rparr>)"
        using 1(2) ssl(2) objs by (intro SSL_free_alone) simp_all
      with 1(1) have "open_session (Some c) sock w = Inr (-1, None, n2, ?b2\<lparr>live := live b\<rparr>)"
        by (simp add: open_eq)
      then show ?thesis using 1(3) ssl(3) r(7) r(8) by (simp add: w)
    next
      case bio: 2
      obtain rtv b4 where a: "ask (SSL_set_bio (Some ?s) bio ?b2) = (rtv, b4)" by force
      have b4: "live b4 = (live b)(?s \<mapsto> Ssl (Some ?i), ?i \<mapsto> Bio sock)" "next_obj b4 = Suc ?i"
        "sess_fields b4 ?p = (Some ?s, Some ?i)" "SSL_free (Some ?s) b4 = Inr (b4\<lparr>live := live b\<rparr>)"
        using set_bio_result [OF a [unfolded bio(1)]] bio(1-3) ssl(1-3) objs by simp_all
      show ?thesis
      proof (cases "rtv < 0")
        case True
        with bio(1) a b4(4) have "open_session (Some c) sock w = Inr (-1, None, n2, b4\<lparr>live := live b\<rparr>)"
          by (simp add: open_eq)
        then show ?thesis using b4(2) r(7) r(8) by (simp add: w)
      next
        case False
        with bio(1) a have "open_session (Some c) sock w = Inr (0, Some ?p, n1, b4)" by (simp add: open_eq)
        moreover have "opened c k sock w (Some ?p) (n1, b4)"
          using r(2-4) r(9) [OF _ b4(1)] b4 objs assms unfolding opened_def
          by (intro exI [of _ ?p] exI [of _ ?s] exI [of _ ?i]) (simp add: w ready_def)
        ultimately show ?thesis by auto
      qed
    qed
  qed
qed

lemma close_opened:
  assumes "opened c k sock w q w'"
  shows "\<exists>w''. close_session q w' = Inr (0, w'') \<and> alive_world w'' = alive_world w \<and> ready c k w''"
proof -
  obtain n b where w': "w' = (n, b)" by (cases w')
  from assms obtain p s i where r: "q = Some p" "p \<noteq> c" "s \<noteq> i" "heap (fst w) p = None" "heap (fst w) c \<noteq> None"
    "live (snd w) s = None" "live (snd w) i = None" "heap n = (heap (fst w))(p \<mapsto> sock)"
    "live b = (live (snd w))(s \<mapsto> Ssl (Some i), i \<mapsto> Bio sock)"
    "sess_fields b p = (Some s, Some i)" "wf_world w'" "k \<le> heap_left n"
    unfolding opened_def w' by auto
  define w'' where
    "w'' = (n\<lparr>heap := (heap n)(p := None)\<rparr>, (snd (ask b))\<lparr>live := (live b)(s := None, i := None)\<rparr>)"
  have alive: "alive_world w'' = alive_world w"
    using r by (auto simp: w''_def fun_eq_iff)
  have "close_session q w' = Inr (0, w'')"
    using r(1,3,8-10)
    by (simp add: close_session_def sess_of_def w' w''_def SSL_free_def free_lib_def free_object_def split_beta)
  moreover have "ready c k w''"
    using r(2,5,8,11,12) by (auto simp: ready_def wf_world_def w' w''_def split: if_splits)
  ultimately show ?thesis using alive by blast
qed

interpretation ossl_server: session_life alive_world "ready c"
    "ossl_init_server_session (Some c)" "ossl_fini_server_session (Some c)"
  by unfold_locales (use open_session_result close_opened in
    \<open>fastforce simp: ossl_init_server_session_def ossl_fini_server_session_def split: if_splits\<close>)

interpretation ossl_client: session_life alive_world "ready c"
    "ossl_init_client_session (Some c)" "ossl_fini_client_session (Some c)"
  by unfold_locales (use open_session_result close_opened in
    \<open>fastforce simp: ossl_init_client_session_def ossl_fini_client_session_def split: if_splits\<close>)

text \<open>The unencrypted layer keeps the same contract, with the heap alone.\<close>

definition net_ready :: "nat \<Rightarrow> net \<Rightarrow> bool" where
  "net_ready k n \<longleftrightarrow> (\<forall>i \<ge> heap_next n. heap n i = None) \<and> k \<le> heap_left n"

interpretation nullenc_server: session_life heap net_ready
    "nullenc_init_server_session ctx" "nullenc_fini_server_session ctx"
  by unfold_locales
    (auto simp: nullenc_init_server_session_def nullenc_fini_server_session_def new_object_def malloc_def
      free_object_def net_ready_def fun_eq_iff)

text \<open>A constructor whose answer is not NULL.\<close>

lemma new_lib_made:
  "answer b (asked b) \<noteq> 0 \<Longrightarrow> new_lib x b =
     (Some (next_obj b), b\<lparr>asked := Suc (asked b), live := (live b)(next_obj b \<mapsto> x), next_obj := Suc (next_obj b)\<rparr>)"
  by (simp add: new_lib_def ask_def)

section \<open>Properties\<close>

text \<open>C19 
  The OpenSSL layer can open and close any number of sessions, whatever the library answers: no
  step faults, and afterwards there are the same structures and library objects as before,
  whether the sessions were made or the handshakes failed; the client's and the server's
  operations alike.
\<close>

theorem ossl_sessions_leave_nothing:
  assumes "ready c (length socks) w"
  shows "(\<exists>w'. sessions (ossl_init_server_session (Some c)) (ossl_fini_server_session (Some c)) socks w = Inr w' \<and>
      alive_world w' = alive_world w) \<and>
    (\<exists>w'. sessions (ossl_init_client_session (Some c)) (ossl_fini_client_session (Some c)) socks w = Inr w' \<and>
      alive_world w' = alive_world w)"
  using ossl_server.sessions_leave_nothing [OF assms] ossl_client.sessions_leave_nothing [OF assms] by auto

definition example_tls_world :: tls_world where
  "example_tls_world =
     (\<lparr>chan = (\<lambda>_. \<lparr>rx = [], wx = [], sent = []\<rparr>), heap = (\<lambda>_. None)(0 \<mapsto> 0), heap_next = 1, heap_left = 4\<rparr>,
      \<lparr>live = (\<lambda>_. None)(0 \<mapsto> SslCtx True), next_obj = 1, answer = (\<lambda>k. if k = 6 then -1 else 1), asked = 0,
       ctx_fields = (\<lambda>_. (Some 0, None)), sess_fields = (\<lambda>_. (None, None))\<rparr>)"

lemma ossl_sessions_leave_nothing_witness:
  "\<exists>w'. sessions (ossl_init_server_session (Some 0)) (ossl_fini_server_session (Some 0)) [3, 4] example_tls_world = Inr w' \<and>
     alive_world w' = alive_world example_tls_world"
  using ossl_sessions_leave_nothing [of 0 "[3, 4]" example_tls_world]
  by (simp add: ready_def wf_world_def example_tls_world_def)

text \<open>C37 
  The GnuTLS layer frees its own structure after a failed handshake and loses the pointer to the
  session of the library with it: the session stays alive, nothing points to it, and every
  failing client makes one more.
\<close>

theorem gnutls_failed_handshake_leaks:
  assumes "ready c (Suc k) (n, b)" "answer b (asked b) \<noteq> 0" "answer b (asked b + 5) < 0"
  shows "\<exists>n' b'. pp_init_server_session (Some c) sock (n, b) = Inr (-1, None, n', b') \<and>
    heap n' = heap n \<and> live b (next_obj b) = None \<and> live b' = (live b)(next_obj b \<mapsto> GnutlsSession)"
proof -
  obtain n1 n2 where r: "new_object sock n = Inr (heap_next n, n1)" "heap n1 = (heap n)(heap_next n \<mapsto> sock)"
    "heap n (heap_next n) = None" "c \<noteq> heap_next n" "ctx_of (Some c) (n1, b) = Inr (ctx_fields b c)"
    "free_object (Some (heap_next n)) n1 = Inr n2" "heap n2 = heap n"
    by (rule new_object_ready [OF assms(1)]) blast
  obtain y where "heap n1 c = Some y" using r(2,4) assms(1) by (auto simp: ready_def)
  moreover have "live b (next_obj b) = None" using assms(1) by (simp add: ready_def wf_world_def)
  ultimately show ?thesis
    using assms(2,3) r(1,6,7)
    by (simp add: pp_init_server_session_def gnutls_open_def new_lib_made ctx_of_def ask_def eval_nat_numeral Let_def)
qed

lemma gnutls_failed_handshake_leaks_witness:
  "\<exists>n' b'. pp_init_server_session (Some 0) 3
      (fst example_tls_world, (snd example_tls_world)\<lparr>asked := 1\<rparr>) = Inr (-1, None, n', b') \<and>
    live b' 1 = Some GnutlsSession"
  using gnutls_failed_handshake_leaks [of 0 0 "fst example_tls_world" "(snd example_tls_world)\<lparr>asked := 1\<rparr>" 3]
  by (auto simp: ready_def wf_world_def example_tls_world_def)

text \<open>
  A server context of the OpenSSL layer that is made and released again: nothing faults and the
  program's structure, the SSL context and the SRP base are gone, but the Diffie-Hellman object
  of \<open>setup_dh\<close> is still there, since the SSL context keeps a copy of it.
\<close>

theorem ossl_server_keeps_dh:
  assumes "ready c (Suc k) (n, b)" "\<And>i. i \<le> 6 \<Longrightarrow> answer b (asked b + i) > 0" "answer b (asked b + 7) = 0"
  shows "\<exists>q w' w''. ossl_init_server (n, b) = Inr (0, q, w') \<and> ossl_fini_server q w' = Inr (0, w'') \<and>
    heap (fst w'') = heap n \<and> live (snd w'') = (live b)(Suc (next_obj b) \<mapsto> Dh)"
proof -
  obtain n1 n2 where r: "new_object 0 n = Inr (heap_next n, n1)" "heap n1 = (heap n)(heap_next n \<mapsto> 0)"
    "heap n (heap_next n) = None" "free_object (Some (heap_next n)) n1 = Inr n2" "heap n2 = heap n"
    by (rule new_object_ready [OF assms(1)]) blast
  have free: "live b j = None" if "next_obj b \<le> j" for j
    using assms(1) that by (simp add: ready_def wf_world_def)
  have a: "answer b (asked b) > 0" "answer b (Suc (asked b)) > 0" "answer b (Suc (Suc (asked b))) > 0"
    "answer b (Suc (Suc (Suc (asked b)))) > 0" "answer b (Suc (Suc (Suc (Suc (asked b))))) > 0"
    "answer b (Suc (Suc (Suc (Suc (Suc (asked b)))))) > 0"
    "answer b (Suc (Suc (Suc (Suc (Suc (Suc (asked b))))))) > 0"
    "answer b (Suc (Suc (Suc (Suc (Suc (Suc (Suc (asked b)))))))) = 0"
    using assms(2) [of 0] assms(2) [of 1] assms(2) [of 2] assms(2) [of 3] assms(2) [of 4] assms(2) [of 5]
      assms(2) [of 6] assms(3)
    by (simp_all add: eval_nat_numeral)
  define b' where "b' = b\<lparr>asked := asked b + 8, next_obj := next_obj b + 3,
    live := (live b)(next_obj b \<mapsto> SslCtx True, Suc (next_obj b) \<mapsto> Dh, Suc (Suc (next_obj b)) \<mapsto> Vbase),
    ctx_fields := (ctx_fields b)(heap_next n := (Some (next_obj b), Some (Suc (Suc (next_obj b)))))\<rparr>"
  have i: "ossl_init_server (n, b) = Inr (0, Some (heap_next n), n1, b')"
    using r(1) a
    by (simp add: ossl_init_server_def new_lib_made ask_def setup_dh_def srp_init_server_def b'_def Let_def
        check_def fun_upd_twist eval_nat_numeral)
  define b'' where "b'' = b'\<lparr>live := (live b)(Suc (next_obj b) \<mapsto> Dh)\<rparr>"
  have l: "(live b')(Suc (Suc (next_obj b)) := None, next_obj b := None) = live b''"
    using free by (auto simp: b'_def b''_def fun_eq_iff)
  have "ossl_fini_server (Some (heap_next n)) (n1, b') = Inr (0, n2, b'')"
    using r(2,4) l by (simp add: ossl_fini_server_def ctx_of_def b'_def b''_def free_lib_def)
  with i r(5) show ?thesis by (auto simp: b''_def)
qed

lemma ossl_server_keeps_dh_witness:
  "\<exists>q w' w''. ossl_init_server (fst example_tls_world, (snd example_tls_world)\<lparr>answer := (\<lambda>k. if k = 7 then 0 else 1)\<rparr>) =
      Inr (0, q, w') \<and> ossl_fini_server q w' = Inr (0, w'') \<and> live (snd w'') 2 = Some Dh"
  using ossl_server_keeps_dh [of 0 3 "fst example_tls_world"
      "(snd example_tls_world)\<lparr>answer := (\<lambda>k. if k = 7 then 0 else 1)\<rparr>"]
  by (fastforce simp: ready_def wf_world_def example_tls_world_def)

end
