(* ===== verification/Texts.thy ===== *)
theory Texts
  imports Pcsc
begin

text \<open>
  What is written for people: the return codes and their texts (\<open>pcsc_stringify_error\<close> of
  \<open>src/src/client/client.c\<close>) and the dump of a byte buffer (\<open>pp_dumpString\<close> of
  \<open>src/src/common/message.c\<close>), with the conversions of \<open>printf\<close> they use.
\<close>

section \<open>Conversions of printf\<close>

definition digit :: "string \<Rightarrow> nat \<Rightarrow> char" where
  "digit ds n = ds ! n"

fun digits :: "nat \<Rightarrow> string \<Rightarrow> nat \<Rightarrow> string" where
  "digits b ds n = (if n < b \<or> b < 2 then [digit ds n] else digits b ds (n div b) @ [digit ds (n mod b)])"

declare digits.simps [simp del]

definition padded :: "nat \<Rightarrow> string \<Rightarrow> string" where
  "padded w s = replicate (w - length s) (CHR ''0'') @ s"

definition lower_hex :: "nat \<Rightarrow> nat \<Rightarrow> string" where
  "lower_hex w n = padded w (digits 16 ''0123456789abcdef'' n)"

definition upper_hex :: "nat \<Rightarrow> nat \<Rightarrow> string" where
  "upper_hex w n = padded w (digits 16 ''0123456789ABCDEF'' n)"

definition decimal :: "int \<Rightarrow> string" where
  "decimal n = (if n < 0 then CHR ''-'' # digits 10 ''0123456789'' (nat (- n)) else digits 10 ''0123456789'' (nat n))"

text \<open>The number of a digit and of a string of digits, to read them back.\<close>

definition digit_value :: "string \<Rightarrow> char \<Rightarrow> nat" where
  "digit_value ds x = length (takeWhile (\<lambda>y. y \<noteq> x) ds)"

definition number_of :: "nat \<Rightarrow> string \<Rightarrow> string \<Rightarrow> nat" where
  "number_of b ds s = foldl (\<lambda>v x. b * v + digit_value ds x) 0 s"

lemma digit_value_digit:
  "distinct ds \<Longrightarrow> n < length ds \<Longrightarrow> digit_value ds (digit ds n) = n"
proof (induction ds arbitrary: n)
  case (Cons d ds)
  then show ?case by (cases n) (auto simp: digit_value_def digit_def)
qed simp

lemma number_of_digits:
  assumes "distinct ds" "length ds = b" "1 < b"
  shows "number_of b ds (digits b ds n) = n"
proof (induction n rule: less_induct)
  case (less n)
  show ?case
  proof (cases "n < b")
    case True
    with assms show ?thesis by (simp add: digits.simps [of b ds n] number_of_def digit_value_digit)
  next
    case False
    with assms have "n div b < n" by simp
    from less.IH [OF this] False assms show ?thesis
      by (subst digits.simps) (simp add: number_of_def digit_value_digit)
  qed
qed

lemma number_of_padded:
  assumes "hd ds = CHR ''0''" "ds \<noteq> []"
  shows "number_of b ds (padded w s) = number_of b ds s"
proof -
  have "digit_value ds (CHR ''0'') = 0" using assms by (cases ds) (simp_all add: digit_value_def)
  then have "foldl (\<lambda>v x. b * v + digit_value ds x) 0 (replicate k (CHR ''0'')) = 0" for k
    by (induction k) simp_all
  then show ?thesis by (simp add: number_of_def padded_def)
qed

lemma upper_hex_inj: "upper_hex w m = upper_hex w n \<Longrightarrow> m = n"
proof -
  have r: "number_of 16 ''0123456789ABCDEF'' (upper_hex w k) = k" for k
    unfolding upper_hex_def by (subst number_of_padded; simp add: number_of_digits)
  show "upper_hex w m = upper_hex w n \<Longrightarrow> m = n" using r by metis
qed

lemma length_digits: "1 < b \<Longrightarrow> n < b ^ Suc k \<Longrightarrow> length (digits b ds n) \<le> Suc k"
proof (induction k arbitrary: n)
  case 0
  then show ?case by (simp add: digits.simps [of b ds n])
next
  case (Suc k)
  show ?case
  proof (cases "n < b")
    case True
    then show ?thesis by (simp add: digits.simps [of b ds n])
  next
    case False
    have "n div b < b ^ Suc k" using Suc.prems by (simp add: less_mult_imp_div_less mult.commute)
    with Suc False show ?thesis by (subst digits.simps) simp
  qed
qed

section \<open>The return codes and their texts\<close>

text \<open>The return codes of \<open>pcsclite.h\<close>; a \<open>LONG\<close> of LP64 has 64 bits, so that none is negative.\<close>

definition scard_codes :: "(string \<times> u64) list" where
  "scard_codes =
   [(''SCARD_S_SUCCESS'', 0x00000000), (''SCARD_F_INTERNAL_ERROR'', 0x80100001),
    (''SCARD_E_CANCELLED'', 0x80100002), (''SCARD_E_INVALID_HANDLE'', 0x80100003),
    (''SCARD_E_INVALID_PARAMETER'', 0x80100004), (''SCARD_E_INVALID_TARGET'', 0x80100005),
    (''SCARD_E_NO_MEMORY'', 0x80100006), (''SCARD_F_WAITED_TOO_LONG'', 0x80100007),
    (''SCARD_E_INSUFFICIENT_BUFFER'', 0x80100008), (''SCARD_E_UNKNOWN_READER'', 0x80100009),
    (''SCARD_E_TIMEOUT'', 0x8010000A), (''SCARD_E_SHARING_VIOLATION'', 0x8010000B),
    (''SCARD_E_NO_SMARTCARD'', 0x8010000C), (''SCARD_E_UNKNOWN_CARD'', 0x8010000D),
    (''SCARD_E_CANT_DISPOSE'', 0x8010000E), (''SCARD_E_PROTO_MISMATCH'', 0x8010000F),
    (''SCARD_E_NOT_READY'', 0x80100010), (''SCARD_E_INVALID_VALUE'', 0x80100011),
    (''SCARD_E_SYSTEM_CANCELLED'', 0x80100012), (''SCARD_F_COMM_ERROR'', 0x80100013),
    (''SCARD_F_UNKNOWN_ERROR'', 0x80100014), (''SCARD_E_INVALID_ATR'', 0x80100015),
    (''SCARD_E_NOT_TRANSACTED'', 0x80100016), (''SCARD_E_READER_UNAVAILABLE'', 0x80100017),
    (''SCARD_P_SHUTDOWN'', 0x80100018), (''SCARD_E_PCI_TOO_SMALL'', 0x80100019),
    (''SCARD_E_READER_UNSUPPORTED'', 0x8010001A), (''SCARD_E_DUPLICATE_READER'', 0x8010001B),
    (''SCARD_E_CARD_UNSUPPORTED'', 0x8010001C), (''SCARD_E_NO_SERVICE'', 0x8010001D),
    (''SCARD_E_SERVICE_STOPPED'', 0x8010001E), (''SCARD_E_UNEXPECTED'', 0x8010001F),
    (''SCARD_E_UNSUPPORTED_FEATURE'', 0x8010001F), (''SCARD_E_ICC_INSTALLATION'', 0x80100020),
    (''SCARD_E_ICC_CREATEORDER'', 0x80100021), (''SCARD_E_DIR_NOT_FOUND'', 0x80100023),
    (''SCARD_E_FILE_NOT_FOUND'', 0x80100024), (''SCARD_E_NO_DIR'', 0x80100025),
    (''SCARD_E_NO_FILE'', 0x80100026), (''SCARD_E_NO_ACCESS'', 0x80100027),
    (''SCARD_E_WRITE_TOO_MANY'', 0x80100028), (''SCARD_E_BAD_SEEK'', 0x80100029),
    (''SCARD_E_INVALID_CHV'', 0x8010002A), (''SCARD_E_UNKNOWN_RES_MNG'', 0x8010002B),
    (''SCARD_E_NO_SUCH_CERTIFICATE'', 0x8010002C), (''SCARD_E_CERTIFICATE_UNAVAILABLE'', 0x8010002D),
    (''SCARD_E_NO_READERS_AVAILABLE'', 0x8010002E), (''SCARD_E_COMM_DATA_LOST'', 0x8010002F),
    (''SCARD_E_NO_KEY_CONTAINER'', 0x80100030), (''SCARD_E_SERVER_TOO_BUSY'', 0x80100031),
    (''SCARD_W_UNSUPPORTED_CARD'', 0x80100065), (''SCARD_W_UNRESPONSIVE_CARD'', 0x80100066),
    (''SCARD_W_UNPOWERED_CARD'', 0x80100067), (''SCARD_W_RESET_CARD'', 0x80100068),
    (''SCARD_W_REMOVED_CARD'', 0x80100069), (''SCARD_W_SECURITY_VIOLATION'', 0x8010006A),
    (''SCARD_W_WRONG_CHV'', 0x8010006B), (''SCARD_W_CHV_BLOCKED'', 0x8010006C), (''SCARD_W_EOF'', 0x8010006D),
    (''SCARD_W_CANCELLED_BY_USER'', 0x8010006E), (''SCARD_W_CARD_NOT_AUTHENTICATED'', 0x8010006F)]"

text \<open>The state \<open>SCARD_STATE_PRESENT\<close> of a reader, the one label of the \<open>switch\<close> that is no return code.\<close>

definition SCARD_STATE_PRESENT :: u64 where "SCARD_STATE_PRESENT = 0x20"

definition error_texts :: "(u64 \<times> string) list" where
  "error_texts =
    [(0x00000000, ''Command successful.''), (0x80100002, ''Command cancelled.''),
     (0x8010000E, ''Cannot dispose handle.''), (0x80100008, ''Insufficient buffer.''),
     (0x80100015, ''Invalid ATR.''), (0x80100003, ''Invalid handle.''),
     (0x80100004, ''Invalid parameter given.''), (0x80100005, ''Invalid target given.''),
     (0x80100011, ''Invalid value given.''), (0x80100006, ''Not enough memory.''),
     (0x80100013, ''RPC transport error.''), (0x80100001, ''Internal error.''),
     (0x80100014, ''Unknown error.''), (0x80100007, ''Waited too long.''),
     (0x80100009, ''Unknown reader specified.''), (0x8010000A, ''Command timeout.''),
     (0x8010000B, ''Sharing violation.''), (0x8010000C, ''No smart card inserted.''),
     (0x8010000D, ''Unknown card.''), (0x8010000F, ''Card protocol mismatch.''),
     (0x80100010, ''Subsystem not ready.''), (0x80100012, ''System cancelled.''),
     (0x80100016, ''Transaction failed.''), (0x80100017, ''Reader is unavailable.''),
     (0x80100065, ''Card is not supported.''), (0x80100066, ''Card is unresponsive.''),
     (0x80100067, ''Card is unpowered.''), (0x80100068, ''Card was reset.''),
     (0x80100069, ''Card was removed.''), (SCARD_STATE_PRESENT, ''Card was inserted.''),
     (0x8010001F, ''Feature not supported.''), (0x80100019, ''PCI struct too small.''),
     (0x8010001A, ''Reader is unsupported.''), (0x8010001B, ''Reader already exists.''),
     (0x8010001C, ''Card is unsupported.''), (0x8010001D, ''Service not available.''),
     (0x8010001E, ''Service was stopped.''), (0x8010002E, ''Cannot find a smart card reader.'')]"

text \<open>
  The string in \<open>strError\<close> up to its first zero: \<open>strncpy\<close> fills all of the 75 bytes and the last
  is overwritten with a zero, \<open>snprintf\<close> is given 74 of them and closes the text itself.
\<close>

definition pcsc_stringify_error :: "u64 \<Rightarrow> string" where
  "pcsc_stringify_error pcscError =
     (case map_of error_texts pcscError of
        Some s \<Rightarrow> take 74 s
      | None \<Rightarrow> take 74 (take 73 (''Unkown error: 0x'' @ upper_hex 8 (unat pcscError))))"

text \<open>The codes of \<open>pcsclite.h\<close> that have a text of their own, the ones that have none, and the two
  names of one value.\<close>

lemma text_codes:
  "\<forall>(c, s) \<in> set error_texts. c = SCARD_STATE_PRESENT \<or> c \<in> snd ` set scard_codes"
  by code_simp

lemma codes_without_text:
  "list_all (\<lambda>c. c \<notin> set (map fst error_texts) \<longleftrightarrow> c = 0x80100018 \<or>
     0x80100020 \<le> c \<and> c \<noteq> 0x8010002E \<and> (c < 0x80100065 \<or> 0x8010006A \<le> c)) (map snd scard_codes)"
  by code_simp

lemma codes_with_two_names:
  "map_of scard_codes ''SCARD_E_UNEXPECTED'' = map_of scard_codes ''SCARD_E_UNSUPPORTED_FEATURE''"
  "distinct (map snd (filter (\<lambda>(n, c). n \<noteq> ''SCARD_E_UNSUPPORTED_FEATURE'') scard_codes))"
proof -
  show "map_of scard_codes ''SCARD_E_UNEXPECTED'' = map_of scard_codes ''SCARD_E_UNSUPPORTED_FEATURE''"
    by code_simp
  have "successively (<) (map snd (filter (\<lambda>(n, c). n \<noteq> ''SCARD_E_UNSUPPORTED_FEATURE'') scard_codes))"
    by (simp add: scard_codes_def)
  then show "distinct (map snd (filter (\<lambda>(n, c). n \<noteq> ''SCARD_E_UNSUPPORTED_FEATURE'') scard_codes))"
    by (simp add: successively_conv_sorted_wrt strict_sorted_iff del: filter_map)
qed

lemma model_codes:
  "[(''SCARD_S_SUCCESS'', SCARD_S_SUCCESS), (''SCARD_F_INTERNAL_ERROR'', SCARD_F_INTERNAL_ERROR)] = take 2 scard_codes"
  "(''SCARD_E_INVALID_VALUE'', SCARD_E_INVALID_VALUE) = scard_codes ! 17"
  by code_simp+

lemma error_texts_facts:
  "distinct (map snd error_texts)" "\<forall>(c, s) \<in> set error_texts. length s \<le> 74 \<and> take 6 s \<noteq> ''Unkown''"
  by (simp_all add: error_texts_def)

lemma map_of_inj_values:
  "distinct (map snd xs) \<Longrightarrow> map_of xs a = Some y \<Longrightarrow> map_of xs b = Some y \<Longrightarrow> a = b"
  by (metis distinct_map inj_on_def map_of_SomeD prod.inject snd_conv)

lemma length_upper_hex: "length (upper_hex 8 (unat (x :: u64))) \<le> 16"
proof -
  have "unat x < 16 ^ Suc 15" using unsigned_less [of x, where 'a = nat] by simp
  then have "length (digits 16 ''0123456789ABCDEF'' (unat x)) \<le> Suc 15" by (intro length_digits) simp_all
  then show ?thesis by (simp add: upper_hex_def padded_def)
qed

lemma stringify_unknown:
  "map_of error_texts x = None \<Longrightarrow> pcsc_stringify_error x = ''Unkown error: 0x'' @ upper_hex 8 (unat x)"
  using length_upper_hex [of x] by (simp add: pcsc_stringify_error_def)

lemma stringify_known:
  "map_of error_texts x = Some s \<Longrightarrow> pcsc_stringify_error x = s \<and> take 6 s \<noteq> ''Unkown''"
  using error_texts_facts(2) by (auto simp: pcsc_stringify_error_def dest!: map_of_SomeD)

text \<open>The text tells the code: two different codes never have the same text, known or not, and no text
  is cut at the end of the buffer.\<close>

theorem stringify_error_inj:
  "inj pcsc_stringify_error \<and> (\<forall>x. length (pcsc_stringify_error x) < 75)"
proof
  show "inj pcsc_stringify_error"
  proof (rule injI)
    fix x y :: u64
    assume eq: "pcsc_stringify_error x = pcsc_stringify_error y"
    show "x = y"
    proof (cases "map_of error_texts x"; cases "map_of error_texts y")
      assume "map_of error_texts x = None" "map_of error_texts y = None"
      with eq show ?thesis using upper_hex_inj [of 8 "unat x" "unat y"] by (simp add: stringify_unknown word_unat_eq_iff)
    next
      fix s t assume "map_of error_texts x = Some s" "map_of error_texts y = Some t"
      with eq show ?thesis using error_texts_facts(1) stringify_known map_of_inj_values by metis
    qed (use eq stringify_known stringify_unknown in fastforce)+
  qed
  show "\<forall>x. length (pcsc_stringify_error x) < 75"
    by (auto simp: pcsc_stringify_error_def less_Suc_eq_le split: option.splits)
qed

section \<open>Dumping a buffer\<close>

definition printable :: "u8 \<Rightarrow> char" where
  "printable b = (if sint b < 32 then CHR ''.'' else char_of (unat b))"

text \<open>The bytes \<open>s[pos]\<close> to \<open>s[j - 1]\<close> of a loop \<open>for (i=pos; i<j; i++)\<close>.\<close>

definition loop_bytes :: "u8 list \<Rightarrow> u32 \<Rightarrow> u32 \<Rightarrow> u8 list outcome" where
  "loop_bytes s pos j =
     bindo (check (unat j \<le> unat pos \<or> unat j \<le> length s) OutOfBounds)
       (\<lambda>_. Inr (map (\<lambda>i. s ! i) [unat pos ..< unat j]))"

text \<open>The lines from \<open>pos\<close> on; the positions are those of \<open>unsigned int\<close>.\<close>

partial_function (option) dump_lines :: "u8 list \<Rightarrow> u32 \<Rightarrow> u32 \<Rightarrow> u32 \<Rightarrow> string outcome option" where
  "dump_lines s l ins pos =
     (if pos < l then
        let j = (if l \<le> pos + 16 then l else pos + 16) in
        (case loop_bytes s pos j of
           Inl e \<Rightarrow> Some (Inl e)
         | Inr bs \<Rightarrow>
             Option.bind (dump_lines s l ins (pos + 16)) (\<lambda>r. Some (bindo r (\<lambda>out.
               Inr (replicate (unat ins) (CHR '' '') @ lower_hex 4 (unat pos) @ '': '' @
                 concat (map (\<lambda>b. lower_hex 2 (unat b) @ '' '') bs) @
                 (if j - pos < 16 then concat (replicate (unat (16 - (j - pos))) ''   '') else []) @
                 map printable bs @ [CHR 0x0A] @ out)))))
      else Some (Inr []))"

definition pp_dumpString :: "u8 list \<Rightarrow> u32 \<Rightarrow> u32 \<Rightarrow> string outcome option" where
  "pp_dumpString s l ins =
     map_option (\<lambda>r. bindo r (\<lambda>out.
       Inr (replicate (unat ins) (CHR '' '') @ ''String size is '' @ decimal (sint l) @ '':'' @ [CHR 0x0A] @ out)))
     (dump_lines s l ins 0)"

text \<open>The bytes in rows of 16, and the line of a row.\<close>

function rows :: "nat \<Rightarrow> u8 list \<Rightarrow> (nat \<times> u8 list) list" where
  "rows pos [] = []"
| "rows pos (b # bs) = (pos, take 16 (b # bs)) # rows (pos + 16) (drop 16 (b # bs))"
  by pat_completeness auto
termination by (relation "measure (\<lambda>(_, bs). length bs)") auto

definition row_line :: "nat \<Rightarrow> nat \<times> u8 list \<Rightarrow> string" where
  "row_line indent r =
     (case r of (pos, bs) \<Rightarrow>
        replicate indent (CHR '' '') @ lower_hex 4 pos @ '': '' @
        concat (map (\<lambda>b. lower_hex 2 (unat b) @ '' '') bs) @ concat (replicate (16 - length bs) ''   '') @
        map printable bs @ [CHR 0x0A])"

lemma blanks:
  "(if x < 16 then concat (replicate (unat (16 - x)) t) else []) = concat (replicate (16 - unat x) t)" for x :: u32
  by (simp add: word_less_nat_alt unat_sub word_le_nat_alt)

lemma dump_lines_rows:
  assumes "unat l \<le> length s" "unat l \<le> 2 ^ 32 - 16" "unat pos mod 16 = 0"
  shows "dump_lines s l ins pos =
    Some (Inr (concat (map (row_line (unat ins)) (rows (unat pos) (drop (unat pos) (take (unat l) s))))))"
  using assms(3)
proof (induction "unat l - unat pos" arbitrary: pos rule: less_induct)
  case less
  show ?case
  proof (cases "pos < l")
    case False
    then have "drop (unat pos) (take (unat l) s) = []" by (simp add: word_less_nat_alt)
    with False show ?thesis by (subst dump_lines.simps) simp
  next
    case True
    have lt: "unat pos < unat l" using True by (simp add: word_less_nat_alt)
    have "unat pos < 2 ^ 32 - 16" using lt assms(2) by simp
    then have p: "unat (pos + 16) = unat pos + 16" by (simp add: unat_word_ariths)
    let ?j = "if l \<le> pos + 16 then l else pos + 16"
    have j: "unat ?j = min (unat l) (unat pos + 16)" using p by (simp add: word_le_nat_alt)
    then have le: "pos \<le> ?j" using lt by (simp add: word_le_nat_alt)
    then have w: "unat (?j - pos) = min (unat l) (unat pos + 16) - unat pos" using j by (simp add: unat_sub)
    let ?bs = "take 16 (drop (unat pos) (take (unat l) s))"
    have len: "length ?bs = min (unat l) (unat pos + 16) - unat pos" using assms(1) by simp
    have "map (\<lambda>i. s ! i) [unat pos ..< unat ?j] = ?bs"
      unfolding j
    proof (rule nth_equalityI)
      fix i assume "i < length (map (\<lambda>i. s ! i) [unat pos ..< min (unat l) (unat pos + 16)])"
      then have "unat pos + i < unat l" "i < 16" by auto
      then show "map (\<lambda>i. s ! i) [unat pos ..< min (unat l) (unat pos + 16)] ! i = ?bs ! i"
        using assms(1) by simp
    qed (use assms(1) in simp)
    then have bs: "loop_bytes s pos ?j = Inr ?bs" using j assms(1) by (simp add: loop_bytes_def min_le_iff_disj)
    have pad: "(if ?j - pos < 16 then concat (replicate (unat (16 - (?j - pos))) ''   '') else []) =
        concat (replicate (16 - length ?bs) ''   '')"
      unfolding blanks w len ..
    have rest: "drop 16 (drop (unat pos) (take (unat l) s)) = drop (unat (pos + 16)) (take (unat l) s)"
      by (simp add: p add.commute)
    have "drop (unat pos) (take (unat l) s) \<noteq> []" using lt assms(1) by simp
    then obtain b t where bt: "drop (unat pos) (take (unat l) s) = b # t" by (cases "drop (unat pos) (take (unat l) s)") auto
    have "unat l - unat (pos + 16) < unat l - unat pos" "unat (pos + 16) mod 16 = 0"
      using lt p less.prems by simp_all
    from less.hyps [OF this] True bs pad rest bt p show ?thesis
      by (subst dump_lines.simps) (simp add: Let_def row_line_def del: take_Suc_Cons)
  qed
qed

text \<open>With more than \<open>2 ^ 32 - 16\<close> bytes the position wraps around and stays below the length.\<close>

lemma dump_lines_returns:
  "dump_lines s l ins pos = Some r \<Longrightarrow> unat pos mod 16 = 0 \<longrightarrow> unat l \<le> length s \<longrightarrow> unat l \<le> 2 ^ 32 - 16"
proof (induction rule: dump_lines.raw_induct [rotated, consumes 1, case_names step])
  case (step f s l ins pos r)
  show ?case
  proof (intro impI)
    assume a: "unat pos mod 16 = 0" "unat l \<le> length s"
    show "unat l \<le> 2 ^ 32 - 16"
    proof (cases "pos < l")
      case False
      have "unat pos < 2 ^ 32" using unsigned_less [of pos, where 'a = nat] by simp
      with a(1) have "unat pos \<le> 2 ^ 32 - 16" by (auto simp: mod_eq_0_iff_dvd elim!: dvdE)
      with False show ?thesis by (simp add: word_less_nat_alt)
    next
      case True
      let ?j = "if l \<le> pos + 16 then l else pos + 16"
      have "unat ?j \<le> unat l" by (simp add: word_le_nat_alt)
      with a(2) obtain bs where "loop_bytes s pos ?j = Inr bs" by (simp add: loop_bytes_def)
      with step(2) True obtain r' where "f s l ins (pos + 16) = Some r'"
        by (auto simp: Let_def split: Option.bind_splits)
      moreover have "unat (pos + 16) mod 16 = 0" using a(1) by (simp add: unat_word_ariths mod_mod_cancel mod_add_left_eq)
      ultimately show ?thesis using step(1) [of s l ins "pos + 16" r'] a(2) by simp
    qed
  qed
qed

text \<open>C32 The dump returns exactly when the length is at most \<open>2 ^ 32 - 16\<close>; then it has one line for each row
  of 16 bytes, in order, with every byte of the buffer.\<close>

theorem dumpString_rows:
  assumes "unat l \<le> length s"
  shows "pp_dumpString s l ins =
    (if unat l \<le> 2 ^ 32 - 16 then
       Some (Inr (replicate (unat ins) (CHR '' '') @ ''String size is '' @ decimal (sint l) @ '':'' @ [CHR 0x0A] @
         concat (map (row_line (unat ins)) (rows 0 (take (unat l) s)))))
     else None)"
proof (cases "unat l \<le> 2 ^ 32 - 16")
  case True
  with dump_lines_rows [OF assms, of 0 ins] show ?thesis by (simp add: pp_dumpString_def)
next
  case False
  have "dump_lines s l ins 0 = None"
  proof (rule ccontr)
    assume "dump_lines s l ins 0 \<noteq> None"
    then obtain r where "dump_lines s l ins 0 = Some r" by auto
    from dump_lines_returns [OF this] assms False show False by simp
  qed
  with False show ?thesis by (simp add: pp_dumpString_def)
qed

lemma dumpString_rows_witness:
  "pp_dumpString [0x41] 1 0 = Some (Inr (''String size is 1:'' @ [CHR 0x0A] @ row_line 0 (0, [0x41])))"
  using dumpString_rows [of 1 "[0x41]" 0] by (simp add: decimal_def digits.simps [of 10 _ "Suc 0"] digit_def)

end
