(* ===== verification/Threads.thy ===== *)
theory Threads
  imports Prelude
begin

text \<open>
  Threads that call operations on shared data one step at a time, in any interleaving.  An
  operation first takes a mutex (\<open>enter\<close>) and then runs its critical section (\<open>step\<close>), whose
  last step gives the result.  The locale \<open>critical_section\<close> states when such operations are
  atomic, and proves that every interleaving then has the results and the effect of calling
  them one after the other.
\<close>

section \<open>Operations in steps\<close>

datatype ('pc, 'r) status = Waiting | Inside 'pc | Finished 'r

record ('op, 'pc, 'r, 's) threads =
  shared :: 's
  running :: "nat \<Rightarrow> ('op \<times> ('pc, 'r) status) option"
  returned :: "(nat \<times> 'op \<times> 'r) list"

text \<open>
  Threads are numbered; a thread that runs no operation may call one for which \<open>calls\<close> holds.
  \<open>returned\<close> records the operations in the order in which they came to their results.
\<close>

inductive thread_step :: "('op \<Rightarrow> bool) \<Rightarrow> ('op \<Rightarrow> 's \<Rightarrow> (('pc, 'r) status \<times> 's) outcome) \<Rightarrow>
    ('pc \<Rightarrow> 's \<Rightarrow> (('pc, 'r) status \<times> 's) outcome) \<Rightarrow>
    ('op, 'pc, 'r, 's) threads \<Rightarrow> ('op, 'pc, 'r, 's) threads \<Rightarrow> bool"
  for calls enter step where
  call: "running s t = None \<Longrightarrow> calls op \<Longrightarrow>
    thread_step calls enter step s (s\<lparr>running := (running s)(t \<mapsto> (op, Waiting))\<rparr>)"
| enter: "running s t = Some (op, Waiting) \<Longrightarrow> enter op (shared s) = Inr (Inside pc, d) \<Longrightarrow>
    thread_step calls enter step s (s\<lparr>shared := d, running := (running s)(t \<mapsto> (op, Inside pc))\<rparr>)"
| refuse: "running s t = Some (op, Waiting) \<Longrightarrow> enter op (shared s) = Inr (Finished r, d) \<Longrightarrow>
    thread_step calls enter step s (s\<lparr>shared := d, running := (running s)(t \<mapsto> (op, Finished r)),
      returned := returned s @ [(t, op, r)]\<rparr>)"
| move: "running s t = Some (op, Inside pc) \<Longrightarrow> step pc (shared s) = Inr (Inside pc', d) \<Longrightarrow>
    thread_step calls enter step s (s\<lparr>shared := d, running := (running s)(t \<mapsto> (op, Inside pc'))\<rparr>)"
| finish: "running s t = Some (op, Inside pc) \<Longrightarrow> step pc (shared s) = Inr (Finished r, d) \<Longrightarrow>
    thread_step calls enter step s (s\<lparr>shared := d, running := (running s)(t \<mapsto> (op, Finished r)),
      returned := returned s @ [(t, op, r)]\<rparr>)"
| return: "running s t = Some (op, Finished r) \<Longrightarrow>
    thread_step calls enter step s (s\<lparr>running := (running s)(t := None)\<rparr>)"

inductive thread_run :: "('op \<Rightarrow> bool) \<Rightarrow> ('op \<Rightarrow> 's \<Rightarrow> (('pc, 'r) status \<times> 's) outcome) \<Rightarrow>
    ('pc \<Rightarrow> 's \<Rightarrow> (('pc, 'r) status \<times> 's) outcome) \<Rightarrow>
    ('op, 'pc, 'r, 's) threads \<Rightarrow> ('op, 'pc, 'r, 's) threads \<Rightarrow> bool"
  for calls enter step where
  none: "thread_run calls enter step s s"
| more: "thread_run calls enter step s s1 \<Longrightarrow> thread_step calls enter step s1 s2 \<Longrightarrow> thread_run calls enter step s s2"

definition all_idle :: "'s \<Rightarrow> ('op, 'pc, 'r, 's) threads" where
  "all_idle d = \<lparr>shared = d, running = (\<lambda>_. None), returned = []\<rparr>"

definition inside :: "('op, 'pc, 'r, 's) threads \<Rightarrow> nat \<Rightarrow> bool" where
  "inside s t \<longleftrightarrow> (\<exists>op pc. running s t = Some (op, Inside pc))"

text \<open>The critical section of one thread, when no other changes the data.\<close>

inductive section_run :: "('pc \<Rightarrow> 's \<Rightarrow> (('pc, 'r) status \<times> 's) outcome) \<Rightarrow>
    'pc \<Rightarrow> 's \<Rightarrow> ('pc, 'r) status \<Rightarrow> 's \<Rightarrow> bool"
  for step where
  stay: "section_run step pc d (Inside pc) d"
| go: "section_run step pc d (Inside pc1) d1 \<Longrightarrow> step pc1 d1 = Inr (x, d2) \<Longrightarrow> section_run step pc d x d2"

text \<open>
  \<open>rest pc d\<close> is the result of going on from \<open>pc\<close>; when the steps keep it, and the property \<open>I\<close>
  of the data it needs, it is the result of the section.
\<close>

lemma section_rest:
  assumes "\<And>pc d pc' d'. I d \<Longrightarrow> step pc d = Inr (Inside pc', d') \<Longrightarrow> I d' \<and> rest pc d = rest pc' d'"
    and "\<And>pc d r d'. I d \<Longrightarrow> step pc d = Inr (Finished r, d') \<Longrightarrow> rest pc d = Inr (r, d')"
    and "section_run step pc d (Finished r) d'" "I d"
  shows "rest pc d = Inr (r, d')"
proof -
  have "(\<forall>pc'. x = Inside pc' \<longrightarrow> I d' \<and> rest pc d = rest pc' d') \<and> (\<forall>r. x = Finished r \<longrightarrow> rest pc d = Inr (r, d'))"
    if "section_run step pc d x d'" for x d'
    using that assms(4) by induction (auto dest: assms(1,2))
  with assms(3) show ?thesis by blast
qed

text \<open>The operations one after the other: their results and the data they leave.\<close>

fun serial :: "('op \<Rightarrow> 's \<Rightarrow> ('r \<times> 's) outcome) \<Rightarrow> 'op list \<Rightarrow> 's \<Rightarrow> ('r list \<times> 's) outcome" where
  "serial atomic [] d = Inr ([], d)"
| "serial atomic (op # ops) d =
     bindo (atomic op d) (\<lambda>(r, d). bindo (serial atomic ops d) (\<lambda>(rs, d). Inr (r # rs, d)))"

definition called :: "(nat \<times> 'op \<times> 'r) list \<Rightarrow> 'op list" where
  "called l = map (fst \<circ> snd) l"

definition results :: "(nat \<times> 'op \<times> 'r) list \<Rightarrow> 'r list" where
  "results l = map (snd \<circ> snd) l"

lemma log_simps [simp]:
  "called [] = []" "results [] = []"
  "called (l @ l') = called l @ called l'" "results (l @ l') = results l @ results l'"
  "called ((t, op, r) # l) = op # called l" "results ((t, op, r) # l) = r # results l"
  by (simp_all add: called_def results_def)

lemma serial_snoc:
  "serial atomic ops d = Inr (rs, d1) \<Longrightarrow> atomic op d1 = Inr (r, d2) \<Longrightarrow>
    serial atomic (ops @ [op]) d = Inr (rs @ [r], d2)"
  by (induction ops arbitrary: d rs) (auto simp: outcome_simps)

lemma serial_append:
  "serial atomic (ops @ ops') d = Inr (rs, d2) \<Longrightarrow>
    \<exists>rs1 rs2 d1. serial atomic ops d = Inr (rs1, d1) \<and> serial atomic ops' d1 = Inr (rs2, d2) \<and> rs = rs1 @ rs2"
  by (induction ops arbitrary: d rs) (fastforce simp: outcome_simps)+

lemma serial_length: "serial atomic ops d = Inr (rs, d1) \<Longrightarrow> length rs = length ops"
  by (induction ops arbitrary: d rs) (auto simp: outcome_simps)

lemma length_log [simp]: "length (called l) = length l" "length (results l) = length l"
  by (simp_all add: called_def results_def)

lemma serial_split:
  assumes "serial atomic (called (l @ (t, op, r) # l')) d = Inr (results (l @ (t, op, r) # l'), d3)"
  obtains d1 d2 where "serial atomic (called l) d = Inr (results l, d1)" "atomic op d1 = Inr (r, d2)"
    "serial atomic (called l') d2 = Inr (results l', d3)"
proof -
  from assms have "serial atomic (called l @ op # called l') d = Inr (results l @ r # results l', d3)" by simp
  from serial_append [OF this] obtain rs1 rs2 d1 where
    s: "serial atomic (called l) d = Inr (rs1, d1)" "serial atomic (op # called l') d1 = Inr (rs2, d3)"
    and r: "results l @ r # results l' = rs1 @ rs2" by blast
  from serial_length [OF s(1)] r have "rs1 = results l" "rs2 = r # results l'"
    by (auto simp: append_eq_append_conv)
  with s that show thesis by (auto simp: outcome_simps)
qed

section \<open>Runs by schedule\<close>

text \<open>A schedule says which thread moves next, and which operation a thread calls.\<close>

definition turn :: "('op \<Rightarrow> 's \<Rightarrow> (('pc, 'r) status \<times> 's) outcome) \<Rightarrow>
    ('pc \<Rightarrow> 's \<Rightarrow> (('pc, 'r) status \<times> 's) outcome) \<Rightarrow> nat \<Rightarrow>
    ('op, 'pc, 'r, 's) threads \<Rightarrow> ('op, 'pc, 'r, 's) threads option" where
  "turn enter step t s =
     (case running s t of
        None \<Rightarrow> None
      | Some (op, Finished r) \<Rightarrow> Some (s\<lparr>running := (running s)(t := None)\<rparr>)
      | Some (op, x) \<Rightarrow>
          (case (case x of Inside pc \<Rightarrow> step pc (shared s) | _ \<Rightarrow> enter op (shared s)) of
             Inr (Inside pc, d) \<Rightarrow> Some (s\<lparr>shared := d, running := (running s)(t \<mapsto> (op, Inside pc))\<rparr>)
           | Inr (Finished r, d) \<Rightarrow>
               Some (s\<lparr>shared := d, running := (running s)(t \<mapsto> (op, Finished r)),
                 returned := returned s @ [(t, op, r)]\<rparr>)
           | _ \<Rightarrow> None))"

fun schedule :: "('op \<Rightarrow> bool) \<Rightarrow> ('op \<Rightarrow> 's \<Rightarrow> (('pc, 'r) status \<times> 's) outcome) \<Rightarrow>
    ('pc \<Rightarrow> 's \<Rightarrow> (('pc, 'r) status \<times> 's) outcome) \<Rightarrow> (nat \<times> 'op option) list \<Rightarrow>
    ('op, 'pc, 'r, 's) threads \<Rightarrow> ('op, 'pc, 'r, 's) threads option" where
  "schedule calls enter step [] s = Some s"
| "schedule calls enter step ((t, None) # l) s =
     (case turn enter step t s of None \<Rightarrow> None | Some s \<Rightarrow> schedule calls enter step l s)"
| "schedule calls enter step ((t, Some op) # l) s =
     (if running s t = None \<and> calls op
      then schedule calls enter step l (s\<lparr>running := (running s)(t \<mapsto> (op, Waiting))\<rparr>) else None)"

lemma turn_step:
  assumes "turn enter step t s = Some s'"
  shows "thread_step calls enter step s s'"
proof -
  from assms obtain op x where x: "running s t = Some (op, x)" by (auto simp: turn_def split: option.splits)
  show ?thesis
  proof (cases x)
    case Waiting
    with assms x show ?thesis
      by (auto simp: turn_def split: sum.splits status.splits intro: thread_step.enter thread_step.refuse)
  next
    case (Inside pc)
    with assms x show ?thesis
      by (auto simp: turn_def split: sum.splits status.splits intro: thread_step.move thread_step.finish)
  next
    case (Finished r)
    with assms x show ?thesis by (auto simp: turn_def intro: thread_step.return)
  qed
qed

lemma schedule_run_from:
  "schedule calls enter step l s1 = Some s2 \<Longrightarrow> thread_run calls enter step s s1 \<Longrightarrow> thread_run calls enter step s s2"
proof (induction calls enter step l s1 rule: schedule.induct)
  case (2 calls enter step t l s1)
  then show ?case by (auto dest: turn_step intro: thread_run.more split: option.splits)
next
  case (3 calls enter step t op l s1)
  then show ?case by (auto intro: thread_run.more thread_step.call split: if_splits)
qed simp

lemma schedule_run: "schedule calls enter step l s = Some s' \<Longrightarrow> thread_run calls enter step s s'"
  by (rule schedule_run_from [OF _ thread_run.none])

lemma schedule_others:
  "schedule calls enter step l s = Some s' \<Longrightarrow> t \<notin> set (map fst l) \<Longrightarrow> running s' t = running s t"
proof (induction calls enter step l s rule: schedule.induct)
  case (2 calls enter step t' l s)
  then show ?case
    by (auto simp: turn_def split: option.splits sum.splits status.splits)
qed (auto split: if_splits)

section \<open>Mutual exclusion makes operations atomic\<close>

locale critical_section =
  fixes enter :: "'op \<Rightarrow> 's \<Rightarrow> (('pc, 'r) status \<times> 's) outcome"
    and step :: "'pc \<Rightarrow> 's \<Rightarrow> (('pc, 'r) status \<times> 's) outcome"
    and locked :: "'s \<Rightarrow> bool"
    and atomic :: "'op \<Rightarrow> 's \<Rightarrow> ('r \<times> 's) outcome"
  assumes enter_inside: "enter op d = Inr (Inside pc, d') \<Longrightarrow> \<not> locked d \<and> locked d'"
  and enter_refused: "enter op d = Inr (Finished r, d') \<Longrightarrow> \<not> locked d \<and> atomic op d = Inr (r, d')"
  and step_inside: "locked d \<Longrightarrow> step pc d = Inr (Inside pc', d') \<Longrightarrow> locked d'"
  and section_atomic:
    "enter op d = Inr (Inside pc, d1) \<Longrightarrow> section_run step pc d1 (Finished r) d2 \<Longrightarrow> atomic op d = Inr (r, d2)"
begin

text \<open>
  Up to a thread inside its critical section, the data is what the finished operations make of
  the initial data one after the other.
\<close>

definition serialized :: "'s \<Rightarrow> ('op, 'pc, 'r, 's) threads \<Rightarrow> bool" where
  "serialized d0 s \<longleftrightarrow>
     (\<exists>d. serial atomic (called (returned s)) d0 = Inr (results (returned s), d) \<and>
        ((\<forall>t. \<not> inside s t) \<and> shared s = d \<or>
         (\<exists>t op pc pc0 d1. running s t = Some (op, Inside pc) \<and> (\<forall>t'. inside s t' \<longrightarrow> t' = t) \<and>
            locked (shared s) \<and> enter op d = Inr (Inside pc0, d1) \<and>
            section_run step pc0 d1 (Inside pc) (shared s))))"

lemma serializedE:
  assumes "serialized d0 s"
  obtains (free) "serial atomic (called (returned s)) d0 = Inr (results (returned s), shared s)"
      "\<And>t. \<not> inside s t"
    | (held) d t op pc pc0 d1 where
      "serial atomic (called (returned s)) d0 = Inr (results (returned s), d)"
      "running s t = Some (op, Inside pc)" "\<And>t'. inside s t' \<Longrightarrow> t' = t" "locked (shared s)"
      "enter op d = Inr (Inside pc0, d1)" "section_run step pc0 d1 (Inside pc) (shared s)"
  using assms unfolding serialized_def by blast

lemma serialized_free:
  "serial atomic (called (returned s)) d0 = Inr (results (returned s), shared s) \<Longrightarrow>
    (\<And>t. \<not> inside s t) \<Longrightarrow> serialized d0 s"
  by (auto simp: serialized_def)

lemma serialized_held:
  "serial atomic (called (returned s)) d0 = Inr (results (returned s), d) \<Longrightarrow>
    running s t = Some (op, Inside pc) \<Longrightarrow> (\<And>t'. inside s t' \<Longrightarrow> t' = t) \<Longrightarrow> locked (shared s) \<Longrightarrow>
    enter op d = Inr (Inside pc0, d1) \<Longrightarrow> section_run step pc0 d1 (Inside pc) (shared s) \<Longrightarrow> serialized d0 s"
  unfolding serialized_def by blast

text \<open>A step that changes nothing but a thread outside its critical section.\<close>

lemma serialized_outside:
  assumes "serialized d0 s" "\<not> inside s t" "\<And>op pc. x \<noteq> Some (op, Inside pc)"
  shows "serialized d0 (s\<lparr>running := (running s)(t := x)\<rparr>)" (is "serialized d0 ?s")
proof -
  have i: "inside ?s t' \<longleftrightarrow> inside s t'" for t' using assms(2,3) by (simp add: inside_def)
  from assms(1) show ?thesis
  proof (cases rule: serializedE)
    case free
    then show ?thesis using i by (intro serialized_free) simp_all
  next
    case (held d t' op pc pc0 d1)
    moreover from held(2) assms(2) have "t' \<noteq> t" by (auto simp: inside_def)
    ultimately show ?thesis using i by (intro serialized_held [of ?s d0 d t' op pc pc0 d1]) simp_all
  qed
qed

lemma serialized_step:
  assumes "serialized d0 s" "thread_step calls enter step s s'"
  shows "serialized d0 s'"
  using assms(2)
proof cases
  case (call t op)
  then show ?thesis using serialized_outside [OF assms(1), of t] by (simp add: inside_def)
next
  case (enter t op pc d)
  have i: "inside s' t' \<longleftrightarrow> t' = t \<or> inside s t'" for t' using enter by (simp add: inside_def)
  from assms(1) show ?thesis
  proof (cases rule: serializedE)
    case free
    with enter i enter_inside [OF enter(3)] show ?thesis
      by (intro serialized_held [of s' d0 "shared s" t op pc pc d]) (auto intro: section_run.stay)
  qed (use enter_inside [OF enter(3)] in simp)
next
  case (refuse t op r d)
  have i: "inside s' t' \<longleftrightarrow> inside s t'" for t' using refuse by (simp add: inside_def)
  with assms(1) refuse enter_refused [OF refuse(3)] show ?thesis
    by (cases rule: serializedE) (auto intro!: serialized_free serial_snoc)
next
  case (move t op pc pc' d)
  have i: "inside s' t' \<longleftrightarrow> inside s t'" for t' using move by (simp add: inside_def)
  from assms(1) show ?thesis
  proof (cases rule: serializedE)
    case free
    with move(2) show ?thesis by (simp add: inside_def)
  next
    case (held d' t' op' q pc0 d1)
    from held(3) [of t] move(2) have "t' = t" by (simp add: inside_def)
    with held move have "section_run step pc0 d1 (Inside pc') d" by (auto intro: section_run.go)
    with held move i step_inside [OF held(4) move(3)] \<open>t' = t\<close> show ?thesis
      by (intro serialized_held [of s' d0 d' t op pc' pc0 d1]) (auto simp: inside_def)
  qed
next
  case (finish t op pc r d)
  have i: "inside s' t' \<longleftrightarrow> inside s t' \<and> t' \<noteq> t" for t' using finish by (simp add: inside_def)
  from assms(1) show ?thesis
  proof (cases rule: serializedE)
    case free
    with finish(2) show ?thesis by (simp add: inside_def)
  next
    case (held d' t' op' q pc0 d1)
    from held(3) [of t] finish(2) have "t' = t" by (simp add: inside_def)
    with held finish have "section_run step pc0 d1 (Finished r) d" "op' = op"
      by (auto intro: section_run.go)
    with section_atomic [OF held(5)] have "atomic op d' = Inr (r, d)" by simp
    with held finish i \<open>t' = t\<close> show ?thesis
      by (intro serialized_free) (auto intro: serial_snoc)
  qed
next
  case (return t op r)
  then show ?thesis using serialized_outside [OF assms(1), of t] by (simp add: inside_def)
qed

lemma serialized_run: "thread_run calls enter step (all_idle d0) s \<Longrightarrow> serialized d0 s"
proof (induction "all_idle d0 :: ('op, 'pc, 'r, 's) threads" s rule: thread_run.induct)
  case none
  show ?case by (rule serialized_free) (simp_all add: all_idle_def inside_def)
next
  case (more s1 s2)
  then show ?case by (blast intro: serialized_step)
qed

lemma linearizable:
  assumes "thread_run calls enter step (all_idle d0) s" "\<And>t. \<not> inside s t"
  shows "serial atomic (called (returned s)) d0 = Inr (results (returned s), shared s)"
  using serialized_run [OF assms(1)] assms(2) by (cases rule: serializedE) (auto simp: inside_def)

lemma linearizable_results:
  assumes "thread_run calls enter step (all_idle d0) s"
  obtains d where "serial atomic (called (returned s)) d0 = Inr (results (returned s), d)"
  using serialized_run [OF assms] by (auto simp: serialized_def)

lemma mutual_exclusion:
  assumes "thread_run calls enter step (all_idle d0) s" "inside s t" "inside s t'"
  shows "t = t' \<and> locked (shared s)"
  using serialized_run [OF assms(1)] by (cases rule: serializedE) (use assms(2,3) in \<open>auto\<close>)

end

text \<open>A critical section that always ends and then gives the mutex back.\<close>

locale released_section = critical_section enter step locked atomic
  for enter :: "'op \<Rightarrow> 's \<Rightarrow> (('pc, 'r) status \<times> 's) outcome" and step locked
    and atomic :: "'op \<Rightarrow> 's \<Rightarrow> ('r \<times> 's) outcome" +
  fixes sound :: "'pc \<Rightarrow> 's \<Rightarrow> bool" and left :: "'pc \<Rightarrow> nat" and calls :: "'op \<Rightarrow> bool" and ok :: "'s \<Rightarrow> bool"
  assumes enter_sound: "calls op \<Longrightarrow> ok d \<Longrightarrow> enter op d = Inr (Inside pc, d') \<Longrightarrow> sound pc d'"
  and refused_ok: "ok d \<Longrightarrow> enter op d = Inr (Finished r, d') \<Longrightarrow> ok d'"
  and step_runs: "sound pc d \<Longrightarrow> \<exists>x d'. step pc d = Inr (x, d') \<and> x \<noteq> Waiting"
  and step_sound: "sound pc d \<Longrightarrow> step pc d = Inr (Inside pc', d') \<Longrightarrow> sound pc' d' \<and> left pc' < left pc"
  and step_unlocks: "sound pc d \<Longrightarrow> step pc d = Inr (Finished r, d') \<Longrightarrow> ok d' \<and> \<not> locked d'"
begin

lemma section_ends: "sound pc d \<Longrightarrow> \<exists>r d'. section_run step pc d (Finished r) d' \<and> \<not> locked d'"
proof (induction "left pc" arbitrary: pc d rule: less_induct)
  case less
  obtain x d1 where x: "step pc d = Inr (x, d1)" "x \<noteq> Waiting" using step_runs [OF less.prems] by blast
  have first: "section_run step pc d x d1" using section_run.stay x(1) by (rule section_run.go)
  show ?case
  proof (cases x)
    case (Inside pc1)
    with x step_sound [OF less.prems] less.hyps [of pc1 d1] obtain r d' where
      r: "section_run step pc1 d1 (Finished r) d'" "\<not> locked d'" by blast
    have "section_run step pc d y d2" if "section_run step pc1 d1 y d2" for y d2
      using that first Inside by (induction rule: section_run.induct) (auto intro: section_run.go)
    with r show ?thesis by blast
  next
    case (Finished r)
    with x(1) first step_unlocks [OF less.prems] show ?thesis by blast
  qed (use x in simp)
qed

text \<open>In every state the data is sound for the thread inside, or for whoever comes next.\<close>

definition kept :: "('op, 'pc, 'r, 's) threads \<Rightarrow> bool" where
  "kept s \<longleftrightarrow> (\<forall>t op x. running s t = Some (op, x) \<longrightarrow> calls op) \<and>
     (\<not> locked (shared s) \<longrightarrow> ok (shared s)) \<and>
     (\<forall>t op pc. running s t = Some (op, Inside pc) \<longrightarrow>
        locked (shared s) \<and> sound pc (shared s) \<and> (\<forall>t' op' pc'. running s t' = Some (op', Inside pc') \<longrightarrow> t' = t))"

lemma kept_step:
  assumes "kept s" "thread_step calls enter step s s'"
  shows "kept s'"
  using assms(2)
proof cases
  case (enter t op pc d)
  with assms(1) enter_inside [OF enter(3)] enter_sound [OF _ _ enter(3)] show ?thesis
    by (auto simp: kept_def)
next
  case (refuse t op r d)
  with assms(1) enter_refused [OF refuse(3)] refused_ok [OF _ refuse(3)] show ?thesis
    by (auto simp: kept_def)
next
  case (move t op pc pc' d)
  with assms(1) step_sound [OF _ move(3)] step_inside [OF _ move(3)] show ?thesis
    by (fastforce simp: kept_def)
next
  case (finish t op pc r d)
  with assms(1) step_unlocks [OF _ finish(3)] show ?thesis by (fastforce simp: kept_def)
qed (use assms(1) in \<open>auto simp: kept_def\<close>)

lemma kept_run:
  assumes "ok d"
  shows "thread_run calls enter step (all_idle d) s \<Longrightarrow> kept s"
proof (induction "all_idle d :: ('op, 'pc, 'r, 's) threads" s rule: thread_run.induct)
  case none
  show ?case using assms by (simp add: kept_def all_idle_def)
next
  case (more s1 s2)
  then show ?case by (blast intro: kept_step)
qed

lemma lock_released:
  assumes "thread_run calls enter step (all_idle d) s" "ok d" "running s t = Some (op, Inside pc)"
  shows "\<exists>r d'. section_run step pc (shared s) (Finished r) d' \<and> \<not> locked d'"
  using kept_run [OF assms(2,1)] assms(3) by (intro section_ends) (auto simp: kept_def)

end

end
