(* ===== verification/CardThreads.thy ===== *)
theory CardThreads
  imports Threads Demo
begin

text \<open>
  The functions on the table of cards in \<open>src/src/client/client.c\<close> as threads run them: a step
  is one statement that touches the table.  They satisfy the contract of \<open>Threads\<close>, so that
  every interleaving is a sequence of whole calls.
\<close>

section \<open>The functions in steps\<close>

datatype card_op = FindCard u32 | CreateCard nat | ReleaseCard u32

datatype card_pc =
    CardArray card_op
  | AllocCards nat
  | CardSlot card_op nat
  | SetCardId nat nat
  | SetCardContext nat nat
  | UnlockCards "nat option"

definition enter_cards :: "'w platform \<Rightarrow> card_op \<Rightarrow> 'w client \<Rightarrow>
    ((card_pc, nat option) status \<times> 'w client) outcome" where
  "enter_cards pl op c =
     (if pp_card_locked c then Inl Blocked
      else if mutex_lock_rv pl \<noteq> 0 then Inr (Finished None, c)
      else Inr (Inside (CardArray op), c\<lparr>pp_card_locked := True\<rparr>))"

definition card_index :: "u32 \<Rightarrow> nat" where
  "card_index h = unat (h - PP_CARD_MAGIC)"

definition card_go :: "card_pc \<Rightarrow> 'w client \<Rightarrow> ((card_pc, nat option) status \<times> 'w client) outcome" where
  "card_go pc c = Inr (Inside pc, c)"

fun card_step :: "'w platform \<Rightarrow> card_pc \<Rightarrow> 'w client \<Rightarrow>
    ((card_pc, nat option) status \<times> 'w client) outcome" where
  "card_step pl (CardArray op) c =
     (case op of
        CreateCard ctx \<Rightarrow>
          card_go (if pp_card_array c = None then AllocCards ctx else CardSlot op 0) c
      | FindCard h \<Rightarrow>
          card_go (if pp_card_array c = None \<or> PP_MAX_CONTEXT < card_index h then UnlockCards None
                   else CardSlot op (card_index h)) c
      | ReleaseCard h \<Rightarrow>
          card_go (if pp_card_array c = None \<or> PP_MAX_CONTEXT < card_index h then UnlockCards None
                   else CardSlot op (card_index h)) c)"
| "card_step pl (AllocCards ctx) c =
     (if malloc_cards pl
      then card_go (CardSlot (CreateCard ctx) 0) (c\<lparr>pp_card_array := Some (replicate PP_MAX_CONTEXT zero_card)\<rparr>)
      else card_go (UnlockCards None) c)"
| "card_step pl (CardSlot (FindCard h) i) c =
     bindo (get_card i c) (\<lambda>p. card_go (UnlockCards (if card_id p = 0 then None else Some i)) c)"
| "card_step pl (CardSlot (ReleaseCard h) i) c =
     bindo (get_card i c) (\<lambda>p. card_go (UnlockCards None) (set_card i (p\<lparr>card_id := 0\<rparr>) c))"
| "card_step pl (CardSlot (CreateCard ctx) i) c =
     (if PP_MAX_CONTEXT \<le> i then card_go (UnlockCards None) c
      else bindo (get_card i c) (\<lambda>p.
        card_go (if card_id p = 0 then SetCardId ctx i else CardSlot (CreateCard ctx) (Suc i)) c))"
| "card_step pl (SetCardId ctx i) c =
     bindo (get_card i c) (\<lambda>p.
       card_go (SetCardContext ctx i) (set_card i (p\<lparr>card_id := of_nat i + PP_CARD_MAGIC\<rparr>) c))"
| "card_step pl (SetCardContext ctx i) c =
     bindo (get_card i c) (\<lambda>p.
       card_go (UnlockCards (Some i)) (set_card i (p\<lparr>clientContext := Some ctx\<rparr>) c))"
| "card_step pl (UnlockCards r) c = Inr (Finished r, c\<lparr>pp_card_locked := False\<rparr>)"

text \<open>The calls as a whole.\<close>

fun card_call :: "'w platform \<Rightarrow> card_op \<Rightarrow> 'w client \<Rightarrow> (nat option \<times> 'w client) outcome" where
  "card_call pl (FindCard h) c = bindo (pp_findCard pl h c) (\<lambda>r. Inr (r, c))"
| "card_call pl (CreateCard ctx) c = pp_createCard pl ctx c"
| "card_call pl (ReleaseCard h) c = bindo (pp_releaseCard pl h c) (\<lambda>c. Inr (None, c))"

section \<open>The steps of a call give its result\<close>

abbreviation unlocked_cards :: "'w client \<Rightarrow> 'w client" where
  "unlocked_cards c \<equiv> c\<lparr>pp_card_locked := False\<rparr>"

lemma unlocked_cards_id: "\<not> pp_card_locked c \<Longrightarrow> unlocked_cards c = c"
  by (cases c) simp

definition scan_cards :: "nat \<Rightarrow> nat \<Rightarrow> 'w client \<Rightarrow> (nat option \<times> 'w client) outcome" where
  "scan_cards ctx i c =
     (if PP_MAX_CONTEXT \<le> i then Inr (None, c)
      else
        case pp_card_array c of
          None \<Rightarrow> Inl NullPointer
        | Some arr \<Rightarrow>
          let j = first_free_card i (drop i arr) in
          if PP_MAX_CONTEXT \<le> j then Inr (None, c)
          else Inr (Some j, set_card j ((arr ! j)\<lparr>card_id := of_nat j + PP_CARD_MAGIC, clientContext := Some ctx\<rparr>) c))"

text \<open>What is left to do of a call.\<close>

fun card_rest :: "'w platform \<Rightarrow> card_pc \<Rightarrow> 'w client \<Rightarrow> (nat option \<times> 'w client) outcome" where
  "card_rest pl (CardArray op) c = card_call pl op (unlocked_cards c)"
| "card_rest pl (AllocCards ctx) c =
     (if malloc_cards pl
      then scan_cards ctx 0 ((unlocked_cards c)\<lparr>pp_card_array := Some (replicate PP_MAX_CONTEXT zero_card)\<rparr>)
      else Inr (None, unlocked_cards c))"
| "card_rest pl (CardSlot (FindCard h) i) c =
     bindo (get_card i c) (\<lambda>p. Inr (if card_id p = 0 then None else Some i, unlocked_cards c))"
| "card_rest pl (CardSlot (ReleaseCard h) i) c =
     bindo (get_card i c) (\<lambda>p. Inr (None, unlocked_cards (set_card i (p\<lparr>card_id := 0\<rparr>) c)))"
| "card_rest pl (CardSlot (CreateCard ctx) i) c = scan_cards ctx i (unlocked_cards c)"
| "card_rest pl (SetCardId ctx i) c =
     bindo (get_card i c) (\<lambda>p. Inr (Some i, unlocked_cards
       (set_card i (p\<lparr>card_id := of_nat i + PP_CARD_MAGIC, clientContext := Some ctx\<rparr>) c)))"
| "card_rest pl (SetCardContext ctx i) c =
     bindo (get_card i c) (\<lambda>p. Inr (Some i, unlocked_cards (set_card i (p\<lparr>clientContext := Some ctx\<rparr>) c)))"
| "card_rest pl (UnlockCards r) c = Inr (r, unlocked_cards c)"

lemma first_free_card_ge: "i \<le> first_free_card i ps"
  by (induction i ps rule: first_free_card.induct) auto

lemma scan_cards_end: "PP_MAX_CONTEXT \<le> i \<Longrightarrow> scan_cards ctx i c = Inr (None, c)"
  by (simp add: scan_cards_def)

lemma scan_cards_step:
  assumes "i < PP_MAX_CONTEXT" "get_card i c = Inr p"
  shows "scan_cards ctx i c =
    (if card_id p = 0
     then Inr (Some i, set_card i (p\<lparr>card_id := of_nat i + PP_CARD_MAGIC, clientContext := Some ctx\<rparr>) c)
     else scan_cards ctx (Suc i) c)"
proof -
  from assms(2) obtain arr where arr: "pp_card_array c = Some arr" "i < length arr" "p = arr ! i"
    by (auto simp: get_card_def split: option.splits if_splits)
  have "PP_MAX_CONTEXT \<le> first_free_card (Suc i) (drop (Suc i) arr)" if "PP_MAX_CONTEXT \<le> Suc i"
    using that first_free_card_ge [of "Suc i" "drop (Suc i) arr"] by linarith
  with arr assms(1) show ?thesis
    by (auto simp: scan_cards_def Cons_nth_drop_Suc [symmetric] Let_def)
qed

lemma same_card_array: "pp_card_array c = Some arr \<Longrightarrow> c\<lparr>pp_card_array := Some arr\<rparr> = c"
  by (cases c) simp

lemma card_call_steps:
  assumes "mutex_lock_rv pl = 0" "\<not> pp_card_locked c"
  shows "card_call pl (FindCard h) c =
      (if pp_card_array c = None \<or> PP_MAX_CONTEXT < card_index h then Inr (None, c)
       else bindo (get_card (card_index h) c) (\<lambda>p. Inr (if card_id p = 0 then None else Some (card_index h), c)))"
    and "card_call pl (ReleaseCard h) c =
      (if pp_card_array c = None \<or> PP_MAX_CONTEXT < card_index h then Inr (None, c)
       else bindo (get_card (card_index h) c) (\<lambda>p. Inr (None, set_card (card_index h) (p\<lparr>card_id := 0\<rparr>) c)))"
    and "card_call pl (CreateCard ctx) c =
      (if pp_card_array c \<noteq> None then scan_cards ctx 0 c
       else if malloc_cards pl
       then scan_cards ctx 0 (c\<lparr>pp_card_array := Some (replicate PP_MAX_CONTEXT zero_card)\<rparr>)
       else Inr (None, c))"
  using assms by (auto simp: pp_findCard_def pp_releaseCard_def pp_createCard_def scan_cards_def card_index_def
      get_card_def same_card_array Let_def split: option.splits)

lemma unlocked_cards_array:
  "unlocked_cards (c\<lparr>pp_card_array := a\<rparr>) = (unlocked_cards c)\<lparr>pp_card_array := a\<rparr>"
  by simp

lemma unlocked_cards_set: "unlocked_cards (set_card i p c) = set_card i p (unlocked_cards c)"
  by (simp add: set_card_def)

lemma get_card_unlocked: "get_card i (unlocked_cards c) = get_card i c"
  by (simp add: get_card_def)

lemma get_set_card:
  "get_card i c = Inr p \<Longrightarrow> get_card i (set_card i q c) = Inr q"
  "set_card i q' (set_card i q c) = set_card i q' c"
  by (auto simp: get_card_def set_card_def option.map_comp comp_def split: option.splits if_splits)

lemma card_rest_moves:
  assumes "mutex_lock_rv pl = 0" "card_step pl pc c = Inr (Inside pc', c')"
  shows "card_rest pl pc c = card_rest pl pc' c'"
proof (cases pc)
  case (CardArray op)
  with assms show ?thesis
    by (cases op) (auto simp: card_go_def card_call_steps unlocked_cards_set get_card_unlocked simp del: card_call.simps)
next
  case (AllocCards ctx)
  with assms show ?thesis by (auto simp: card_go_def unlocked_cards_array split: if_splits)
next
  case (CardSlot op i)
  with assms show ?thesis
    by (cases op) (auto simp: card_go_def outcome_simps scan_cards_step scan_cards_end get_card_unlocked unlocked_cards_set
        split: if_splits)
qed (use assms in \<open>auto simp: card_go_def outcome_simps get_set_card get_card_unlocked\<close>)

lemma card_rest_ends: "card_step pl pc c = Inr (Finished r, c') \<Longrightarrow> card_rest pl pc c = Inr (r, c')"
  by (cases "(pl, pc, c)" rule: card_step.cases)
    (auto simp: card_go_def outcome_simps split: card_op.splits if_splits)

section \<open>The contract\<close>

text \<open>Where a thread inside the critical section may be: no statement is about to leave the array.\<close>

definition card_table :: "'w client \<Rightarrow> bool" where
  "card_table c \<longleftrightarrow> (\<exists>arr. pp_card_array c = Some arr \<and> length arr = PP_MAX_CONTEXT)"

text \<open>A handle other than the one past the table.\<close>

fun card_op_ok :: "card_op \<Rightarrow> bool" where
  "card_op_ok (CreateCard ctx) = True"
| "card_op_ok (FindCard h) = (card_index h \<noteq> PP_MAX_CONTEXT)"
| "card_op_ok (ReleaseCard h) = (card_index h \<noteq> PP_MAX_CONTEXT)"

fun card_sound :: "card_pc \<Rightarrow> 'w client \<Rightarrow> bool" where
  "card_sound (CardArray op) c = ((pp_card_array c = None \<or> card_table c) \<and> card_op_ok op)"
| "card_sound (AllocCards ctx) c = (pp_card_array c = None)"
| "card_sound (CardSlot (CreateCard ctx) i) c = card_table c"
| "card_sound (CardSlot op i) c = (card_table c \<and> i < PP_MAX_CONTEXT)"
| "card_sound (SetCardId ctx i) c = (card_table c \<and> i < PP_MAX_CONTEXT)"
| "card_sound (SetCardContext ctx i) c = (card_table c \<and> i < PP_MAX_CONTEXT)"
| "card_sound (UnlockCards r) c = (pp_card_array c = None \<or> card_table c)"

text \<open>The steps a call still has at most.\<close>

fun cards_left :: "card_pc \<Rightarrow> nat" where
  "cards_left (CardArray op) = PP_MAX_CONTEXT + 6"
| "cards_left (AllocCards ctx) = PP_MAX_CONTEXT + 5"
| "cards_left (CardSlot op i) = PP_MAX_CONTEXT - i + 4"
| "cards_left (SetCardId ctx i) = 3"
| "cards_left (SetCardContext ctx i) = 2"
| "cards_left (UnlockCards r) = 1"

lemma card_table_facts:
  "card_table c \<Longrightarrow> card_table (set_card i p c)"
  "card_table (c\<lparr>pp_card_array := Some (replicate PP_MAX_CONTEXT zero_card)\<rparr>)"
  "card_table (c\<lparr>pp_card_locked := b\<rparr>) = card_table c"
  by (auto simp: card_table_def get_card_def set_card_def)

lemma card_step_runs:
  "card_sound pc c \<Longrightarrow> \<exists>x c'. card_step pl pc c = Inr (x, c') \<and> x \<noteq> Waiting"
  by (cases "(pc, c)" rule: card_sound.cases)
    (auto simp: card_go_def card_table_def get_card_def split: card_op.splits)

lemma card_step_sound:
  "card_sound pc c \<Longrightarrow> card_step pl pc c = Inr (Inside pc', c') \<Longrightarrow>
    card_sound pc' c' \<and> cards_left pc' < cards_left pc"
  by (cases "(pc, c)" rule: card_sound.cases)
    (auto simp: card_go_def outcome_simps card_table_facts [simplified] split: card_op.splits if_splits)

lemma enter_cards_result:
  "enter_cards pl op c = Inr (Inside pc, c') \<longleftrightarrow>
    \<not> pp_card_locked c \<and> mutex_lock_rv pl = 0 \<and> pc = CardArray op \<and> c' = c\<lparr>pp_card_locked := True\<rparr>"
  "enter_cards pl op c = Inr (Finished r, c') \<longleftrightarrow>
    \<not> pp_card_locked c \<and> mutex_lock_rv pl \<noteq> 0 \<and> r = None \<and> c' = c"
  by (auto simp: enter_cards_def)

lemma card_section_atomic:
  assumes "enter_cards pl op c = Inr (Inside pc, c1)" "section_run (card_step pl) pc c1 (Finished r) c2"
  shows "card_call pl op c = Inr (r, c2)"
proof -
  from assms(1) have e: "mutex_lock_rv pl = 0" "pc = CardArray op" "unlocked_cards c1 = c"
    by (simp_all add: enter_cards_result unlocked_cards_id)
  have "card_rest pl pc c1 = Inr (r, c2)"
    by (rule section_rest [of "\<lambda>_. True", OF _ _ assms(2)])
      (auto simp: card_rest_ends intro: card_rest_moves [OF e(1)])
  then show ?thesis using e(2,3) by simp
qed

interpretation card_threads: released_section "enter_cards pl" "card_step pl" pp_card_locked "card_call pl"
    card_sound cards_left card_op_ok "\<lambda>c. pp_card_array c = None \<or> card_table c"
proof unfold_locales
  show "\<not> pp_card_locked c \<and> card_call pl op c = Inr (r, c')"
    if "enter_cards pl op c = Inr (Finished r, c')" for op and c c' :: "'a client" and r
    using that by (cases op) (auto simp: enter_cards_result pp_findCard_def pp_createCard_def pp_releaseCard_def)
  show "pp_card_locked c'" if "pp_card_locked c" "card_step pl pc c = Inr (Inside pc', c')" for pc pc' and c c' :: "'a client"
    using that by (cases "(pl, pc, c)" rule: card_step.cases)
      (auto simp: card_go_def outcome_simps set_card_def split: card_op.splits if_splits)
  show "(pp_card_array c' = None \<or> card_table c') \<and> \<not> pp_card_locked c'"
    if "card_sound pc c" "card_step pl pc c = Inr (Finished r, c')" for pc r and c c' :: "'a client"
    using that by (cases "(pl, pc, c)" rule: card_step.cases)
      (auto simp: card_go_def outcome_simps card_table_facts split: card_op.splits if_splits)
  show "\<exists>x c'. card_step pl pc c = Inr (x, c') \<and> x \<noteq> Waiting" if "card_sound pc c" for pc and c :: "'a client"
    using that by (rule card_step_runs)
qed (auto simp: enter_cards_result card_step_sound card_table_facts intro: card_section_atomic)

lemma card_call_keeps:
  assumes "cards_ok pl c" "card_call pl op c = Inr (r, c')"
  shows "cards_ok pl c'"
    and "card_used c i \<Longrightarrow> card_used c' i \<or> (\<exists>h. op = ReleaseCard h \<and> card_index h = i)"
    and "op = CreateCard a \<Longrightarrow> r = Some i \<Longrightarrow> \<not> card_used c i \<and> card_used c' i"
proof -
  have rel: "cards_ok pl c' \<and> (card_used c i \<longrightarrow> card_used c' i \<or> card_index h = i)"
    if "op = ReleaseCard h" for h i
  proof (cases "card_index h < 64")
    case True
    moreover have "h = of_nat (card_index h) + PP_CARD_MAGIC"
      using magic_handle [of h PP_CARD_MAGIC "card_index h"] by (simp add: card_index_def)
    ultimately show ?thesis
      using release_card [OF assms(1), of "card_index h"] assms(2) that by (auto simp: outcome_simps)
  next
    case False
    then have "c' = c"
      using assms that by (auto simp: pp_releaseCard_def cards_ok_def card_index_def Let_def outcome_simps
          split: option.splits if_splits)
    with assms(1) show ?thesis by simp
  qed
  show "cards_ok pl c'" "card_used c i \<Longrightarrow> card_used c' i \<or> (\<exists>h. op = ReleaseCard h \<and> card_index h = i)"
    "op = CreateCard a \<Longrightarrow> r = Some i \<Longrightarrow> \<not> card_used c i \<and> card_used c' i"
    using assms rel [of _ i] rel cards.create_slot [OF assms(1)] cards.create_none [OF assms(1)]
    by (cases op; cases r; fastforce simp: outcome_simps)+
qed

lemma serial_cards_ok:
  "serial (card_call pl) ops c = Inr (rs, c') \<Longrightarrow> cards_ok pl c \<Longrightarrow> cards_ok pl c'"
  by (induction ops arbitrary: c rs) (auto simp: outcome_simps dest: card_call_keeps(1))

lemma serial_cards_used:
  "serial (card_call pl) ops c = Inr (rs, c') \<Longrightarrow> cards_ok pl c \<Longrightarrow> card_used c i \<Longrightarrow>
    card_used c' i \<or> (\<exists>h. ReleaseCard h \<in> set ops \<and> card_index h = i)"
proof (induction ops arbitrary: c rs)
  case (Cons op ops)
  then obtain r c1 rs1 where c1: "card_call pl op c = Inr (r, c1)" "serial (card_call pl) ops c1 = Inr (rs1, c')"
    by (auto simp: outcome_simps)
  from card_call_keeps(1,2) [OF Cons.prems(2) c1(1)] Cons.IH [OF c1(2)] Cons.prems(3) show ?case by auto
qed simp

section \<open>Threads\<close>

text \<open>Any interleaving of threads that search, allocate and free slots of the table of cards has
  the results and the effect of calling the functions one after the other.\<close>

theorem card_threads_linearizable:
  assumes "thread_run calls (enter_cards pl) (card_step pl) (all_idle c) s" "\<And>t. \<not> inside s t"
  shows "serial (card_call pl) (called (returned s)) c = Inr (results (returned s), shared s)"
  using assms by (rule card_threads.linearizable)

text \<open>C7 Two threads never get the same slot: between the calls that return it, it was freed.\<close>

theorem card_threads_distinct_slots:
  assumes "thread_run calls (enter_cards pl) (card_step pl) (all_idle c) s" "cards_ok pl c"
    and "returned s = l1 @ (t1, CreateCard a, Some i) # l2 @ (t2, CreateCard b, Some i) # l3"
  shows "\<exists>h. ReleaseCard h \<in> set (called l2) \<and> card_index h = i"
proof -
  obtain d where "serial (card_call pl) (called (returned s)) c = Inr (results (returned s), d)"
    using card_threads.linearizable_results [OF assms(1)] .
  then obtain c1 c2 where c1: "serial (card_call pl) (called l1) c = Inr (results l1, c1)"
    "card_call pl (CreateCard a) c1 = Inr (Some i, c2)"
    and "serial (card_call pl) (called (l2 @ (t2, CreateCard b, Some i) # l3)) c2 =
      Inr (results (l2 @ (t2, CreateCard b, Some i) # l3), d)"
    unfolding assms(3) by (rule serial_split)
  from this(3) obtain c3 c4 where c3: "serial (card_call pl) (called l2) c2 = Inr (results l2, c3)"
    "card_call pl (CreateCard b) c3 = Inr (Some i, c4)"
    by (rule serial_split)
  have ok: "cards_ok pl c1" by (rule serial_cards_ok [OF c1(1) assms(2)])
  have ok2: "cards_ok pl c2" by (rule card_call_keeps(1) [OF ok c1(2)])
  have ok3: "cards_ok pl c3" by (rule serial_cards_ok [OF c3(1) ok2])
  have "card_used c2 i" using card_call_keeps(3) [OF ok c1(2)] by blast
  moreover have "\<not> card_used c3 i" using card_call_keeps(3) [OF ok3 c3(2)] by blast
  ultimately show ?thesis using serial_cards_used [OF c3(1) ok2] by blast
qed

text \<open>C22 No thread keeps the mutex for good: the one that holds it comes to its result by its own steps
  and frees the mutex, as long as no thread uses the handle one past the table.\<close>

theorem card_threads_release:
  assumes "thread_run card_op_ok (enter_cards pl) (card_step pl) (all_idle c) s" "cards_ok pl c"
    and "running s t = Some (op, Inside pc)"
  shows "\<exists>r c'. section_run (card_step pl) pc (shared s) (Finished r) c' \<and> \<not> pp_card_locked c'"
proof (rule card_threads.lock_released [OF assms(1) _ assms(3)])
  show "pp_card_array c = None \<or> card_table c"
    using assms(2) by (auto simp: cards_ok_def card_table_def split: option.splits)
qed

section \<open>A run\<close>

text \<open>
  Thread 0 calls first but is overtaken by thread 1, which creates a card and frees it again;
  then thread 0 gets the same slot.
\<close>

definition demo_schedule :: "(nat \<times> card_op option) list" where
  "demo_schedule =
     [(0, Some (CreateCard 0)), (1, Some (CreateCard 3))] @ replicate 8 (1, None) @
     [(1, Some (ReleaseCard 0x38345289))] @ replicate 5 (1, None) @ replicate 7 (0, None)"


lemma demo_schedule_steps:
  "demo_schedule =
     [(0, Some (CreateCard 0)), (1, Some (CreateCard 3)), (1, None), (1, None), (1, None), (1, None), (1, None),
      (1, None), (1, None), (1, None), (1, Some (ReleaseCard 0x38345289)), (1, None), (1, None), (1, None),
      (1, None), (1, None), (0, None), (0, None), (0, None), (0, None), (0, None), (0, None), (0, None)]"
  by (simp add: demo_schedule_def numeral_eq_Suc)

lemma demo_threads_run:
  obtains s where "schedule card_op_ok (enter_cards demo_pl) (card_step demo_pl) demo_schedule
      (all_idle (fresh_client demo_link)) = Some s"
    "returned s = [(1, CreateCard 3, Some 0), (1, ReleaseCard 0x38345289, None), (0, CreateCard 0, Some 0)]"
    "\<And>t. \<not> inside s t" "pp_card_array (shared s) = Some ((replicate 64 zero_card) [0 := demo_card\<lparr>pcScHandle := 0\<rparr>])"
proof -
  have "\<exists>s. schedule card_op_ok (enter_cards demo_pl) (card_step demo_pl) demo_schedule
      (all_idle (fresh_client demo_link)) = Some s \<and>
    returned s = [(1, CreateCard 3, Some 0), (1, ReleaseCard 0x38345289, None), (0, CreateCard 0, Some 0)] \<and>
    (\<forall>t. \<not> inside s t) \<and> pp_card_array (shared s) = Some ((replicate 64 zero_card) [0 := demo_card\<lparr>pcScHandle := 0\<rparr>])"
    by (simp add: demo_schedule_steps turn_def all_idle_def fresh_client_def enter_cards_def card_go_def get_card_def
      set_card_def card_index_def PP_CARD_MAGIC_def zero_card_def demo_card_def inside_def)
  with that show thesis by blast
qed

lemma fresh_cards_ok: "cards_ok (demo_platform ops) (fresh_client w)"
  by (simp add: cards_ok_def fresh_client_def)

lemma card_threads_linearizable_witness:
  "\<exists>c. serial (card_call demo_pl) [CreateCard 3, ReleaseCard 0x38345289, CreateCard 0] (fresh_client demo_link) =
    Inr ([Some 0, None, Some 0], c)"
proof -
  obtain s where s: "schedule card_op_ok (enter_cards demo_pl) (card_step demo_pl) demo_schedule
      (all_idle (fresh_client demo_link)) = Some s"
    "returned s = [(1, CreateCard 3, Some 0), (1, ReleaseCard 0x38345289, None), (0, CreateCard 0, Some 0)]"
    "\<And>t. \<not> inside s t" by (rule demo_threads_run) blast
  from card_threads_linearizable [OF schedule_run [OF s(1)] s(3)] show ?thesis by (auto simp: s(2))
qed

lemma card_threads_distinct_slots_witness: "\<exists>h. ReleaseCard h \<in> {ReleaseCard 0x38345289} \<and> card_index h = 0"
proof -
  obtain s where s: "schedule card_op_ok (enter_cards demo_pl) (card_step demo_pl) demo_schedule
      (all_idle (fresh_client demo_link)) = Some s"
    "returned s = [(1, CreateCard 3, Some 0), (1, ReleaseCard 0x38345289, None), (0, CreateCard 0, Some 0)]"
    by (rule demo_threads_run) blast
  have "returned s = [] @ (1, CreateCard 3, Some 0) # [(1, ReleaseCard 0x38345289, None)] @
    (0, CreateCard 0, Some 0) # []" by (simp add: s(2))
  from card_threads_distinct_slots [OF schedule_run [OF s(1)] fresh_cards_ok this] show ?thesis by simp
qed

lemma card_threads_release_witness:
  "\<exists>r c'. section_run (card_step demo_pl) (AllocCards 0) ((fresh_client demo_link)\<lparr>pp_card_locked := True\<rparr>)
    (Finished r) c' \<and> \<not> pp_card_locked c'"
proof -
  let ?s = "(all_idle (fresh_client demo_link))\<lparr>shared := (fresh_client demo_link)\<lparr>pp_card_locked := True\<rparr>,
    running := (\<lambda>_. None)(0 \<mapsto> (CreateCard 0, Inside (AllocCards 0)))\<rparr>"
  have "schedule card_op_ok (enter_cards demo_pl) (card_step demo_pl)
      [(0, Some (CreateCard 0)), (0, None), (0, None)] (all_idle (fresh_client demo_link)) = Some ?s"
    by (simp add: turn_def all_idle_def fresh_client_def enter_cards_def card_go_def)
  from card_threads_release [OF schedule_run [OF this] fresh_cards_ok, of 0 "CreateCard 0" "AllocCards 0"]
  show ?thesis by simp
qed

end
