(* ===== verification/ContextThreads.thy ===== *)
theory ContextThreads
  imports Threads Demo
begin

text \<open>
  The functions on the table of contexts in \<open>src/src/client/client.c\<close> as threads run them, a step
  for each statement that touches the table or the TLS layer.  They satisfy the contract
  \<open>critical_section\<close> of \<open>Threads\<close>; giving the mutex back is no part of it, as
  \<open>pp_createContext\<close> keeps the mutex when no TLS layer can be chosen.
\<close>

section \<open>The functions in steps\<close>

datatype context_op = FindContext u32 | CreateContext | ReleaseContext u32

datatype context_pc =
    ContextArray context_op
  | AllocContexts
  | InitTlsopts
  | ContextSlot context_op nat
  | SetContextId nat
  | InitClient nat
  | SrpAuth nat
  | FreeContext nat
  | UnlockContexts "nat option"

definition enter_contexts :: "'w platform \<Rightarrow> context_op \<Rightarrow> 'w client \<Rightarrow>
    ((context_pc, nat option) status \<times> 'w client) outcome" where
  "enter_contexts pl op c =
     (if pp_context_locked c then Inl Blocked
      else if mutex_lock_rv pl \<noteq> 0 then Inr (Finished None, c)
      else Inr (Inside (ContextArray op), c\<lparr>pp_context_locked := True\<rparr>))"

definition context_index :: "u32 \<Rightarrow> nat" where
  "context_index h = unat (h - PP_CONTEXT_MAGIC)"

definition context_go :: "context_pc \<Rightarrow> 'w client \<Rightarrow>
    ((context_pc, nat option) status \<times> 'w client) outcome" where
  "context_go pc c = Inr (Inside pc, c)"

fun context_step :: "'w platform \<Rightarrow> context_pc \<Rightarrow> 'w client \<Rightarrow>
    ((context_pc, nat option) status \<times> 'w client) outcome" where
  "context_step pl (ContextArray op) c =
     (case op of
        CreateContext \<Rightarrow>
          context_go (if pp_context_array c = None then AllocContexts else InitTlsopts) c
      | FindContext h \<Rightarrow>
          context_go (if pp_context_array c = None \<or> PP_MAX_CONTEXT < context_index h then UnlockContexts None
                      else ContextSlot op (context_index h)) c
      | ReleaseContext h \<Rightarrow>
          context_go (if pp_context_array c = None \<or> PP_MAX_CONTEXT < context_index h then UnlockContexts None
                      else ContextSlot op (context_index h)) c)"
| "context_step pl AllocContexts c =
     (if malloc_contexts pl
      then context_go InitTlsopts (c\<lparr>pp_context_array := Some (replicate PP_MAX_CONTEXT zero_context)\<rparr>)
      else context_go (UnlockContexts None) c)"
| "context_step pl InitTlsopts c =
     (case g_tlsopts c of
        Some k \<Rightarrow> context_go (ContextSlot CreateContext 0) c
      | None \<Rightarrow>
          (case getenv pl ''PCSC_NULLENC'' of
             None \<Rightarrow> Inl NullPointer
           | Some nullenc \<Rightarrow>
               let (rv, k) = pp_tlsopts_init_any (build_options pl)
                     (strcaseeq nullenc ''true'' \<or> strcaseeq nullenc ''1'')
               in if rv < 0 then Inr (Finished None, c)
                  else
                    (case k of
                       None \<Rightarrow> Inl NullPointer
                     | Some k \<Rightarrow> context_go (ContextSlot CreateContext 0) (c\<lparr>g_tlsopts := Some k\<rparr>))))"
| "context_step pl (ContextSlot (FindContext h) i) c =
     bindo (get_context i c) (\<lambda>p. context_go (UnlockContexts (if ctx_id p = 0 then None else Some i)) c)"
| "context_step pl (ContextSlot (ReleaseContext h) i) c =
     bindo (get_context i c) (\<lambda>p. context_go (UnlockContexts None) (set_context i (p\<lparr>ctx_id := 0\<rparr>) c))"
| "context_step pl (ContextSlot CreateContext i) c =
     (if PP_MAX_CONTEXT \<le> i then context_go (UnlockContexts None) c
      else bindo (get_context i c) (\<lambda>p.
        context_go (if ctx_id p = 0 then SetContextId i else ContextSlot CreateContext (Suc i)) c))"
| "context_step pl (SetContextId i) c =
     bindo (get_context i c) (\<lambda>p.
       context_go (InitClient i) (set_context i (p\<lparr>ctx_id := of_nat i + PP_CONTEXT_MAGIC\<rparr>) c))"
| "context_step pl (InitClient i) c =
     bindo (tls_ops pl c) (\<lambda>ops.
     bindo (get_context i c) (\<lambda>p.
     bindo (init_client ops (world c)) (\<lambda>(rv, q, w).
       context_go (if rv < 0 then FreeContext i else SrpAuth i)
         (set_context i (if q = None then p else p\<lparr>tlsContext := q\<rparr>) (c\<lparr>world := w\<rparr>)))))"
| "context_step pl (SrpAuth i) c =
     (case (getenv pl ''PCSC_USER'', getenv pl ''PCSC_PASSWD'') of
        (Some user, Some passwd) \<Rightarrow>
          if user = [] \<or> passwd = [] then context_go (FreeContext i) c
          else
            bindo (tls_ops pl c) (\<lambda>ops.
            bindo (get_context i c) (\<lambda>p.
            bindo (client_set_srp_auth ops (tlsContext p) user passwd (world c)) (\<lambda>(rv, w).
              context_go (if rv < 0 then FreeContext i else UnlockContexts (Some i)) (c\<lparr>world := w\<rparr>))))
      | _ \<Rightarrow> context_go (FreeContext i) c)"
| "context_step pl (FreeContext i) c =
     bindo (get_context i c) (\<lambda>p. context_go (UnlockContexts None) (set_context i (p\<lparr>ctx_id := 0\<rparr>) c))"
| "context_step pl (UnlockContexts r) c = Inr (Finished r, c\<lparr>pp_context_locked := False\<rparr>)"

text \<open>The calls as a whole.\<close>

fun context_call :: "'w platform \<Rightarrow> context_op \<Rightarrow> 'w client \<Rightarrow> (nat option \<times> 'w client) outcome" where
  "context_call pl (FindContext h) c = bindo (pp_findContext pl h c) (\<lambda>r. Inr (r, c))"
| "context_call pl CreateContext c = pp_createContext pl c"
| "context_call pl (ReleaseContext h) c = bindo (pp_releaseContext pl h c) (\<lambda>c. Inr (None, c))"

section \<open>The steps of a call give its result\<close>

abbreviation unlocked_contexts :: "'w client \<Rightarrow> 'w client" where
  "unlocked_contexts c \<equiv> c\<lparr>pp_context_locked := False\<rparr>"

lemma unlocked_contexts_id: "\<not> pp_context_locked c \<Longrightarrow> unlocked_contexts c = c"
  by (cases c) simp

text \<open>The parts of \<open>pp_createContext\<close> from a step on, with the mutex held.\<close>

definition freed_context :: "nat \<Rightarrow> 'w client \<Rightarrow> (nat option \<times> 'w client) outcome" where
  "freed_context i c =
     bindo (get_context i c) (\<lambda>p. Inr (None, unlocked_contexts (set_context i (p\<lparr>ctx_id := 0\<rparr>) c)))"

definition rest_auth :: "'w platform \<Rightarrow> nat \<Rightarrow> 'w client \<Rightarrow> (nat option \<times> 'w client) outcome" where
  "rest_auth pl i c =
     (case (getenv pl ''PCSC_USER'', getenv pl ''PCSC_PASSWD'') of
        (Some user, Some passwd) \<Rightarrow>
          if user = [] \<or> passwd = [] then freed_context i c
          else
            bindo (tls_ops pl c) (\<lambda>ops.
            bindo (get_context i c) (\<lambda>p.
            bindo (client_set_srp_auth ops (tlsContext p) user passwd (world c)) (\<lambda>(rv, w).
              if rv < 0 then freed_context i (c\<lparr>world := w\<rparr>)
              else Inr (Some i, unlocked_contexts (c\<lparr>world := w\<rparr>)))))
      | _ \<Rightarrow> freed_context i c)"

definition rest_init :: "'w platform \<Rightarrow> nat \<Rightarrow> 'w client \<Rightarrow> (nat option \<times> 'w client) outcome" where
  "rest_init pl i c =
     bindo (tls_ops pl c) (\<lambda>ops.
     bindo (get_context i c) (\<lambda>p.
     bindo (init_client ops (world c)) (\<lambda>(rv, q, w).
       (if rv < 0 then freed_context i else rest_auth pl i)
         (set_context i (if q = None then p else p\<lparr>tlsContext := q\<rparr>) (c\<lparr>world := w\<rparr>)))))"

definition rest_id :: "'w platform \<Rightarrow> nat \<Rightarrow> 'w client \<Rightarrow> (nat option \<times> 'w client) outcome" where
  "rest_id pl i c =
     bindo (get_context i c) (\<lambda>p.
       rest_init pl i (set_context i (p\<lparr>ctx_id := of_nat i + PP_CONTEXT_MAGIC\<rparr>) c))"

definition rest_scan :: "'w platform \<Rightarrow> nat \<Rightarrow> 'w client \<Rightarrow> (nat option \<times> 'w client) outcome" where
  "rest_scan pl i c =
     (if PP_MAX_CONTEXT \<le> i then Inr (None, unlocked_contexts c)
      else
        case pp_context_array c of
          None \<Rightarrow> Inl NullPointer
        | Some arr \<Rightarrow>
            let j = first_free_context i (drop i arr) in
            if PP_MAX_CONTEXT \<le> j then Inr (None, unlocked_contexts c)
            else
              case g_tlsopts c of
                None \<Rightarrow> Inl NullPointer
              | Some k \<Rightarrow> create_context_slot pl k j ((arr ! j)\<lparr>ctx_id := of_nat j + PP_CONTEXT_MAGIC\<rparr>) c)"

lemma first_free_context_ge: "i \<le> first_free_context i ps"
  by (induction i ps rule: first_free_context.induct) auto

lemma rest_scan_end: "PP_MAX_CONTEXT \<le> i \<Longrightarrow> rest_scan pl i c = Inr (None, unlocked_contexts c)"
  by (simp add: rest_scan_def)

definition rest_tls :: "'w platform \<Rightarrow> 'w client \<Rightarrow> (nat option \<times> 'w client) outcome" where
  "rest_tls pl c =
     (case g_tlsopts c of
        Some k \<Rightarrow> rest_scan pl 0 c
      | None \<Rightarrow>
          (case getenv pl ''PCSC_NULLENC'' of
             None \<Rightarrow> Inl NullPointer
           | Some nullenc \<Rightarrow>
               let (rv, k) = pp_tlsopts_init_any (build_options pl)
                     (strcaseeq nullenc ''true'' \<or> strcaseeq nullenc ''1'')
               in if rv < 0 then Inr (None, c)
                  else
                    (case k of
                       None \<Rightarrow> Inl NullPointer
                     | Some k \<Rightarrow> rest_scan pl 0 (c\<lparr>g_tlsopts := Some k\<rparr>))))"

lemma get_set_context:
  "get_context i c = Inr p \<Longrightarrow> get_context i (set_context i q c) = Inr q"
  "set_context i q' (set_context i q c) = set_context i q' c"
  by (auto simp: get_context_def set_context_def option.map_comp comp_def split: option.splits if_splits)

lemma set_context_fields [simp]:
  "g_tlsopts (set_context i p c) = g_tlsopts c" "world (set_context i p c) = world c"
  "(set_context i p c)\<lparr>world := w\<rparr> = set_context i p (c\<lparr>world := w\<rparr>)"
  "get_context i (c\<lparr>world := w\<rparr>) = get_context i c" "tls_ops pl (c\<lparr>world := w\<rparr>) = tls_ops pl c"
  "tls_ops pl (set_context i p c) = tls_ops pl c" "(set_context i p c)\<lparr>pp_context_locked := b\<rparr> =
   set_context i p (c\<lparr>pp_context_locked := b\<rparr>)"
  "get_context i (c\<lparr>pp_context_locked := b\<rparr>) = get_context i c"
  by (simp_all add: set_context_def get_context_def tls_ops_def)

lemma slot_rest:
  assumes "g_tlsopts c = Some k" "get_context i c = Inr p0"
  shows "create_context_slot pl k i p c = rest_init pl i (set_context i p c)"
  using assms
  by (auto simp: create_context_slot_def rest_init_def rest_auth_def freed_context_def get_set_context
      tls_ops_def Let_def split_def fun_eq_iff intro!: arg_cong2 [where f = bindo] split: option.splits)

lemma rest_scan_step:
  assumes "i < PP_MAX_CONTEXT" "get_context i c = Inr p"
  shows "rest_scan pl i c = (if ctx_id p = 0 then rest_id pl i c else rest_scan pl (Suc i) c)"
proof -
  from assms(2) obtain arr where arr: "pp_context_array c = Some arr" "i < length arr" "p = arr ! i"
    by (auto simp: get_context_def split: option.splits if_splits)
  have "PP_MAX_CONTEXT \<le> first_free_context (Suc i) (drop (Suc i) arr)" if "PP_MAX_CONTEXT \<le> Suc i"
    using that first_free_context_ge [of "Suc i" "drop (Suc i) arr"] by linarith
  with arr assms slot_rest [OF _ assms(2)] show ?thesis
    by (auto simp: rest_scan_def rest_id_def rest_init_def tls_ops_def Cons_nth_drop_Suc [symmetric] Let_def split: option.splits)
qed

text \<open>What is left to do of a call.\<close>

fun context_rest :: "'w platform \<Rightarrow> context_pc \<Rightarrow> 'w client \<Rightarrow> (nat option \<times> 'w client) outcome" where
  "context_rest pl (ContextArray op) c = context_call pl op (unlocked_contexts c)"
| "context_rest pl AllocContexts c =
     (if malloc_contexts pl
      then rest_tls pl (c\<lparr>pp_context_array := Some (replicate PP_MAX_CONTEXT zero_context)\<rparr>)
      else Inr (None, unlocked_contexts c))"
| "context_rest pl InitTlsopts c = rest_tls pl c"
| "context_rest pl (ContextSlot (FindContext h) i) c =
     bindo (get_context i c) (\<lambda>p. Inr (if ctx_id p = 0 then None else Some i, unlocked_contexts c))"
| "context_rest pl (ContextSlot (ReleaseContext h) i) c = freed_context i c"
| "context_rest pl (ContextSlot CreateContext i) c = rest_scan pl i c"
| "context_rest pl (SetContextId i) c = rest_id pl i c"
| "context_rest pl (InitClient i) c = rest_init pl i c"
| "context_rest pl (SrpAuth i) c = rest_auth pl i c"
| "context_rest pl (FreeContext i) c = freed_context i c"
| "context_rest pl (UnlockContexts r) c = Inr (r, unlocked_contexts c)"

lemma relocked: "pp_context_locked c \<Longrightarrow> (unlocked_contexts c)\<lparr>pp_context_locked := True\<rparr> = c"
  by (cases c) simp

lemma same_context_array: "pp_context_array c = Some arr \<Longrightarrow> c\<lparr>pp_context_array := Some arr\<rparr> = c"
  by (cases c) simp

lemma create_rest:
  assumes "mutex_lock_rv pl = 0" "pp_context_locked c"
  shows "context_call pl CreateContext (unlocked_contexts c) =
    (if pp_context_array c \<noteq> None then rest_tls pl c
     else if malloc_contexts pl
     then rest_tls pl (c\<lparr>pp_context_array := Some (replicate PP_MAX_CONTEXT zero_context)\<rparr>)
     else Inr (None, unlocked_contexts c))"
  using assms
  by (auto simp: pp_createContext_def create_context_setup_def relocked same_context_array rest_tls_def rest_scan_def
      Let_def split: option.splits prod.splits)
lemma search_rest:
  assumes "mutex_lock_rv pl = 0" "\<not> pp_context_locked c"
  shows "context_call pl (FindContext h) c =
      (if pp_context_array c = None \<or> PP_MAX_CONTEXT < context_index h then Inr (None, c)
       else bindo (get_context (context_index h) c)
         (\<lambda>p. Inr (if ctx_id p = 0 then None else Some (context_index h), c)))"
    and "context_call pl (ReleaseContext h) c =
      (if pp_context_array c = None \<or> PP_MAX_CONTEXT < context_index h then Inr (None, c)
       else bindo (get_context (context_index h) c)
         (\<lambda>p. Inr (None, set_context (context_index h) (p\<lparr>ctx_id := 0\<rparr>) c)))"
  using assms by (auto simp: pp_findContext_def pp_releaseContext_def context_index_def get_context_def Let_def
      split: option.splits)

lemma context_rest_moves:
  assumes "mutex_lock_rv pl = 0" "pp_context_locked c" "context_step pl pc c = Inr (Inside pc', c')"
  shows "pp_context_locked c' \<and> context_rest pl pc c = context_rest pl pc' c'"
proof (cases pc)
  case (ContextArray op)
  with assms show ?thesis
    by (cases op) (auto simp: context_go_def create_rest search_rest freed_context_def simp del: context_call.simps)
next
  case AllocContexts
  with assms show ?thesis by (auto simp: context_go_def split: if_splits)
next
  case InitTlsopts
  with assms show ?thesis
    by (auto simp: context_go_def rest_tls_def Let_def split: option.splits prod.splits if_splits)
next
  case (ContextSlot op i)
  with assms show ?thesis
    by (cases op) (auto simp: context_go_def outcome_simps rest_scan_step rest_scan_end freed_context_def
        set_context_def split: if_splits)
next
  case (InitClient i)
  with assms show ?thesis
    by (auto simp: context_go_def outcome_simps rest_init_def set_context_def split: if_splits)
next
  case (SrpAuth i)
  with assms show ?thesis
    by (auto simp: context_go_def outcome_simps rest_auth_def split: option.splits if_splits)
qed (use assms in \<open>auto simp: context_go_def outcome_simps rest_id_def freed_context_def set_context_def\<close>)

lemma context_rest_ends: "context_step pl pc c = Inr (Finished r, c') \<Longrightarrow> context_rest pl pc c = Inr (r, c')"
  by (cases "(pl, pc, c)" rule: context_step.cases)
    (auto simp: context_go_def outcome_simps rest_tls_def Let_def
      split: context_op.splits option.splits prod.splits if_splits)

section \<open>The contract\<close>

lemma enter_contexts_result:
  "enter_contexts pl op c = Inr (Inside pc, c') \<longleftrightarrow>
    \<not> pp_context_locked c \<and> mutex_lock_rv pl = 0 \<and> pc = ContextArray op \<and> c' = c\<lparr>pp_context_locked := True\<rparr>"
  "enter_contexts pl op c = Inr (Finished r, c') \<longleftrightarrow>
    \<not> pp_context_locked c \<and> mutex_lock_rv pl \<noteq> 0 \<and> r = None \<and> c' = c"
  by (auto simp: enter_contexts_def)

lemma context_section_atomic:
  assumes "enter_contexts pl op c = Inr (Inside pc, c1)" "section_run (context_step pl) pc c1 (Finished r) c2"
  shows "context_call pl op c = Inr (r, c2)"
proof -
  from assms(1) have e: "mutex_lock_rv pl = 0" "pc = ContextArray op" "unlocked_contexts c1 = c" "pp_context_locked c1"
    by (simp_all add: enter_contexts_result unlocked_contexts_id)
  have "context_rest pl pc c1 = Inr (r, c2)"
    by (rule section_rest [of pp_context_locked, OF _ _ assms(2) e(4)])
      (simp_all add: context_rest_ends context_rest_moves [OF e(1)])
  then show ?thesis using e(2,3) by simp
qed

lemma context_step_locked:
  "pp_context_locked c \<Longrightarrow> context_step pl pc c = Inr (Inside pc', c') \<Longrightarrow> pp_context_locked c'"
  by (cases "(pl, pc, c)" rule: context_step.cases)
    (auto simp: context_go_def outcome_simps set_context_def Let_def
      split: context_op.splits option.splits prod.splits if_splits)

interpretation context_threads: critical_section "enter_contexts pl" "context_step pl" pp_context_locked "context_call pl"
proof unfold_locales
  show "\<not> pp_context_locked c \<and> context_call pl op c = Inr (r, c')"
    if "enter_contexts pl op c = Inr (Finished r, c')" for op and c c' :: "'a client" and r
    using that by (cases op)
      (auto simp: enter_contexts_result pp_findContext_def pp_createContext_def pp_releaseContext_def)
qed (auto simp: enter_contexts_result intro: context_section_atomic context_step_locked)

section \<open>Threads\<close>

text \<open>C6 Any interleaving of threads that search, create and release contexts has the results and the
  effect of calling the functions one after the other, TLS layer and failures included.\<close>

theorem context_threads_linearizable:
  assumes "thread_run calls (enter_contexts pl) (context_step pl) (all_idle c) s" "\<And>t. \<not> inside s t"
  shows "serial (context_call pl) (called (returned s)) c = Inr (results (returned s), shared s)"
  using assms by (rule context_threads.linearizable)

section \<open>A run\<close>

text \<open>Thread 0 calls first, thread 1 creates the first context, and thread 0 gets the second.\<close>

definition demo_contexts :: "(nat \<times> context_op option) list" where
  "demo_contexts =
     [(0, Some CreateContext), (1, Some CreateContext)] @ replicate 10 (1, None) @
     [(1, Some (FindContext 0x8834528A))] @ replicate 10 (0, None) @ replicate 4 (1, None)"

lemma demo_contexts_steps:
  "demo_contexts =
     [(0, Some CreateContext), (1, Some CreateContext), (1, None), (1, None), (1, None), (1, None), (1, None),
      (1, None), (1, None), (1, None), (1, None), (1, None), (1, Some (FindContext 0x8834528A)),
      (0, None), (0, None), (0, None), (0, None), (0, None), (0, None), (0, None), (0, None), (0, None), (0, None),
      (1, None), (1, None), (1, None), (1, None)]"
  by (simp add: demo_contexts_def numeral_eq_Suc)

lemma context_threads_linearizable_witness:
  "\<exists>c. serial (context_call demo_pl) [CreateContext, CreateContext, FindContext 0x8834528A] (fresh_client demo_link) =
    Inr ([Some 0, Some 1, Some 1], c)"
proof -
  have "\<exists>s. schedule (\<lambda>_. True) (enter_contexts demo_pl) (context_step demo_pl) demo_contexts
        (all_idle (fresh_client demo_link)) = Some s \<and>
      returned s = [(1, CreateContext, Some 0), (0, CreateContext, Some 1), (1, FindContext 0x8834528A, Some 1)] \<and>
      (\<forall>t. \<not> inside s t)"
    by (simp add: demo_contexts_steps turn_def all_idle_def fresh_client_def enter_contexts_def context_go_def
        get_context_def set_context_def context_index_def PP_CONTEXT_MAGIC_def zero_context_def inside_def
        tls_ops_def pp_tlsopts_init_any_def strcaseeq_def)
  then obtain s where s: "schedule (\<lambda>_. True) (enter_contexts demo_pl) (context_step demo_pl) demo_contexts
        (all_idle (fresh_client demo_link)) = Some s"
      "returned s = [(1, CreateContext, Some 0), (0, CreateContext, Some 1), (1, FindContext 0x8834528A, Some 1)]"
      "\<And>t. \<not> inside s t" by blast
  from context_threads_linearizable [OF schedule_run [OF s(1)] s(3)] show ?thesis by (auto simp: s(2))
qed

end
