(* ===== verification/ExchangeThreads.thy ===== *)
theory ExchangeThreads
  imports Threads Demo
begin

text \<open>
  \<open>pp_exchangeMsg\<close> of \<open>src/src/client/client.c\<close> run by several threads.  The function takes no
  mutex: between the sending of a request and the receiving of its answer another thread may
  use the same context, and then each gets the answer of the other.
\<close>

section \<open>The exchange in steps\<close>

datatype exchange_pc = SendMsg nat buffer | RecvMsg nat buffer

text \<open>The connection of a context without a session is taken as one step, in \<open>enter_exchange\<close>.\<close>

definition enter_exchange :: "'w platform \<Rightarrow> nat \<times> buffer \<Rightarrow> 'w client \<Rightarrow>
    ((exchange_pc, int \<times> buffer) status \<times> 'w client) outcome" where
  "enter_exchange pl op c =
     (case op of (i, msg) \<Rightarrow>
        bindo (get_context i c) (\<lambda>p.
          if tlsSession p \<noteq> None then Inr (Inside (SendMsg i msg), c)
          else if msg_type msg \<noteq> command_code SCARD_ESTABLISH_CONTEXT then Inr (Finished (-1, msg), c)
          else
            bindo (connect_context pl i c) (\<lambda>(rv, c).
              if rv < 0 then Inr (Finished (rv, msg), c) else Inr (Inside (SendMsg i msg), c))))"

fun exchange_step :: "'w platform \<Rightarrow> exchange_pc \<Rightarrow> 'w client \<Rightarrow>
    ((exchange_pc, int \<times> buffer) status \<times> 'w client) outcome" where
  "exchange_step pl (SendMsg i msg) c =
     bindo (tls_ops pl c) (\<lambda>ops.
     bindo (get_context i c) (\<lambda>p.
     bindo (tls_send ops (tlsSession p) msg (world c)) (\<lambda>(rv, w).
       Inr (if rv < 0 then Finished (rv, msg) else Inside (RecvMsg i msg), c\<lparr>world := w\<rparr>))))"
| "exchange_step pl (RecvMsg i msg) c =
     bindo (tls_ops pl c) (\<lambda>ops.
     bindo (get_context i c) (\<lambda>p.
     bindo (tls_recv ops (tlsSession p) msg (world c)) (\<lambda>(rv, msg, w).
       Inr (Finished (if rv < 0 then rv else 0, msg), c\<lparr>world := w\<rparr>))))"

lemma exchange_world [simp]:
  "get_context i (c\<lparr>world := w\<rparr>) = get_context i c" "tls_ops pl (c\<lparr>world := w\<rparr>) = tls_ops pl c"
  by (simp_all add: get_context_def tls_ops_def)

section \<open>A thread alone\<close>

fun exchange_rest :: "'w platform \<Rightarrow> exchange_pc \<Rightarrow> 'w client \<Rightarrow> ((int \<times> buffer) \<times> 'w client) outcome" where
  "exchange_rest pl (SendMsg i msg) c =
     bindo (get_context i c) (\<lambda>p. bindo (exchange_on pl (tlsSession p) msg c) (\<lambda>(rv, m, c). Inr ((rv, m), c)))"
| "exchange_rest pl (RecvMsg i msg) c =
     bindo (get_context i c) (\<lambda>p. bindo (tls_ops pl c) (\<lambda>ops.
       bindo (tls_recv ops (tlsSession p) msg (world c)) (\<lambda>(rv, msg, w).
         Inr ((if rv < 0 then rv else 0, msg), c\<lparr>world := w\<rparr>))))"

lemma bindo_fun: "(\<And>x. f x = g x) \<Longrightarrow> bindo m f = bindo m g"
  by (cases m) auto

lemma exchange_alone:
  assumes "enter_exchange pl (i, msg) c = Inr (Inside pc, c1)"
    and "section_run (exchange_step pl) pc c1 (Finished (rv, m)) c2"
  shows "pp_exchangeMsg pl i msg c = Inr (rv, m, c2)"
proof -
  have pc: "pc = SendMsg i msg" using assms(1) by (auto simp: enter_exchange_def outcome_simps split: if_splits)
  have "exchange_rest pl pc c1 = Inr ((rv, m), c2)"
  proof (rule section_rest [of "\<lambda>_. True", OF _ _ assms(2)])
    show "True \<and> exchange_rest pl pc c = exchange_rest pl pc' c'"
      if "exchange_step pl pc c = Inr (Inside pc', c')" for pc pc' and c c' :: "'a client"
      using that by (cases pc) (auto simp: exchange_on_def outcome_simps bindo_assoc
          intro!: bindo_fun split: if_splits)
    show "exchange_rest pl pc c = Inr (r, c')"
      if "exchange_step pl pc c = Inr (Finished r, c')" for pc r and c c' :: "'a client"
      using that by (cases pc) (auto simp: exchange_on_def outcome_simps split: if_splits)
  qed simp
  then have on: "\<exists>p. get_context i c1 = Inr p \<and> exchange_on pl (tlsSession p) msg c1 = Inr (rv, m, c2)"
    by (auto simp: pc outcome_simps)
  from assms(1) obtain p where p: "get_context i c = Inr p" by (auto simp: enter_exchange_def outcome_simps)
  show ?thesis
  proof (cases "tlsSession p")
    case None
    with assms(1) p on show ?thesis
      by (auto simp: enter_exchange_def pp_exchangeMsg_def bindo_Inr_iff split: if_splits)
  next
    case (Some q)
    with assms(1) p on show ?thesis by (auto simp: enter_exchange_def pp_exchangeMsg_def)
  qed
qed

section \<open>Two threads\<close>

text \<open>C31 Two threads that use one context at the same time can get each other's answers, with a result
  of 0 in both: the second request is sent before the first answer is read, the answers come in
  the order of the requests, and they are read in the other order.\<close>

theorem threads_swap_answers:
  assumes "linked lib N u pl c" "get_context i c = Inr p" "tlsSession p \<noteq> None"
    and "\<And>m. m \<in> {m1, m2} \<Longrightarrow> 5 \<le> unat (msg_len m) \<and> unat (msg_len m) < PP_MAX_MESSAGE_LEN"
    and "msg_type m1 = command_code cmd1" "msg_type m2 = command_code cmd2"
    and "dispatch lib u cmd1 (blit 0 (frame m1) (u_msg u)) (srv (world c)) = Inr (a1, s1)"
    and "dispatch lib u cmd2 (blit 0 (frame m2) (u_msg u)) s1 = Inr (a2, s2)"
    and "\<And>a. a \<in> {a1, a2} \<Longrightarrow> 5 \<le> unat (msg_len a) \<and> unat (msg_len a) < PP_MAX_MESSAGE_LEN"
  shows "\<exists>s. thread_run (\<lambda>_. True) (enter_exchange pl) (exchange_step pl) (all_idle c) s \<and>
    returned s = [(1, (i, m2), (0, blit 0 (frame a1) m2)), (0, (i, m1), (0, blit 0 (frame a2) m1))]"
proof -
  have lk: "lossless N" "tls_ops pl c = Inr (link_opts lib N u)" "inbox (world c) = []"
    using assms(1) by (simp_all add: linked_def)
  let ?w1 = "(world c)\<lparr>srv := s1, inbox := frame a1\<rparr>"
  let ?w2 = "(world c)\<lparr>srv := s2, inbox := frame a1 @ frame a2\<rparr>"
  let ?w3 = "(world c)\<lparr>srv := s2, inbox := frame a2\<rparr>"
  have w: "link_send lib N u q m1 (world c) = Inr (0, ?w1)" "link_send lib N u q m2 ?w1 = Inr (0, ?w2)"
    "link_recv N q m2 ?w2 = Inr (int (unat (msg_len a1)), blit 0 (frame a1) m2, ?w3)"
    "link_recv N q m1 ?w3 = Inr (int (unat (msg_len a2)), blit 0 (frame a2) m1, ?w3\<lparr>inbox := []\<rparr>)" for q
    using link_send_answer [OF lk(1) _ _ assms(5,7)] link_send_answer [OF lk(1) _ _ assms(6), of lib u ?w1 a2 s2]
      link_recv_answer [OF lk(1), of ?w2 a1 "frame a2" q m2] link_recv_answer [OF lk(1), of ?w3 a2 "[]" q m1]
      assms(4,8,9) lk(3) by (simp_all add: less_imp_le)
  have "\<exists>s. schedule (\<lambda>_. True) (enter_exchange pl) (exchange_step pl)
      [(0, Some (i, m1)), (1, Some (i, m2)), (0, None), (1, None), (0, None), (1, None), (1, None), (0, None)]
      (all_idle c) = Some s \<and>
    returned s = [(1, (i, m2), (0, blit 0 (frame a1) m2)), (0, (i, m1), (0, blit 0 (frame a2) m1))]"
    using assms(2,3) lk(2) by (simp add: turn_def all_idle_def enter_exchange_def w)
  then show ?thesis using schedule_run by blast
qed

text \<open>Thread 0 asks the server about the context 0x1001 and thread 1 about 0x99, which is none: thread 1
  is told that it is valid, and thread 0 that it is not.\<close>

definition validity_request :: "u32 \<Rightarrow> buffer" where
  "validity_request h = putf s_isvalid F_hContext h (request SCARD_ISVALIDCONTEXT 13)"

lemma validity_request_answer:
  "dispatch demo_lib u SCARD_ISVALIDCONTEXT (blit 0 (frame (validity_request h)) (u_msg u)) n =
    Inr (putf s_isvalid F_rv (if (ucast h :: u64) = 0x1001 then 0 else 0x80100003)
      (blit 0 (frame (validity_request h)) (u_msg u)), Suc n)"
  by (simp add: validity_request_def handleIsValidContext_def msg_simps)

lemma threads_swap_answers_witness:
  "\<exists>s m1 m2. thread_run (\<lambda>_. True) (enter_exchange demo_pl) (exchange_step demo_pl) (all_idle (demo_client demo_link)) s \<and>
    returned s = [(1, (0, validity_request 0x99), (0, m2)), (0, (0, validity_request 0x1001), (0, m1))] \<and>
    getf s_isvalid F_rv m2 = 0 \<and> getf s_isvalid F_rv m1 = 0x80100003"
proof -
  have slot: "get_context 0 (demo_client demo_link) = Inr demo_context" "tlsSession demo_context \<noteq> None"
    by (simp_all add: demo_client_def get_context_def demo_context_def)
  have len: "unat (msg_len (validity_request h)) = 13" "msg_type (validity_request h) = command_code SCARD_ISVALIDCONTEXT" for h
    by (simp_all add: validity_request_def msg_simps)
  let ?a = "\<lambda>h. putf s_isvalid F_rv (if (ucast (h :: u32) :: u64) = 0x1001 then 0 else 0x80100003)
    (blit 0 (frame (validity_request h)) (u_msg demo_uninit))"
  have answer: "unat (msg_len (?a h)) = 13" for h by (simp add: validity_request_def msg_simps)
  have fits: "5 \<le> unat (msg_len m) \<and> unat (msg_len m) < PP_MAX_MESSAGE_LEN"
    if "m \<in> {validity_request 0x1001, validity_request 0x99}" for m using that by (auto simp: len)
  have "5 \<le> unat (msg_len m) \<and> unat (msg_len m) < PP_MAX_MESSAGE_LEN" if "m \<in> {?a 0x1001, ?a 0x99}" for m
    using that answer [of "0x1001"] answer [of "0x99"] by auto
  from threads_swap_answers [OF demo_linked slot fits len(2) len(2) validity_request_answer
      validity_request_answer this] obtain s where
    s: "thread_run (\<lambda>_. True) (enter_exchange demo_pl) (exchange_step demo_pl) (all_idle (demo_client demo_link)) s"
    "returned s = [(1, (0, validity_request 0x99), (0, blit 0 (frame (?a 0x1001)) (validity_request 0x99))),
      (0, (0, validity_request 0x1001), (0, blit 0 (frame (?a 0x99)) (validity_request 0x1001)))]" by blast
  have "getf s_isvalid F_rv (blit 0 (frame (?a 0x1001)) (validity_request 0x99)) = 0"
    "getf s_isvalid F_rv (blit 0 (frame (?a 0x99)) (validity_request 0x1001)) = 0x80100003"
    by (simp_all add: validity_request_def msg_simps)
  with s show ?thesis by blast
qed

end
