(* ===== verification/Defects.thy ===== *)
theory Defects
  imports ClientSafe DaemonSafe Sessions
begin

text \<open>
  Defects of the code in parts that no other theory is about: lengths that are not compared with
  the application's buffer, results that are not looked at, and objects that are used after they
  are freed or never freed.  Each is proved of the definitions that follow the code.
\<close>

section \<open>The client\<close>

text \<open>SCardControl writes past the application's buffer when the library returns more bytes than the
  buffer has, although the application gave its length.\<close>

theorem SCardControl_overflow:
  assumes "linked lib N u pl c" "card_session pl hCard cd c"
    and "unat sl = length bs" "length bs \<le> PP_MAX_BUFFER_LEN"
    and "lib_Control lib (scast (pcScHandle cd)) (ucast (ucast code :: u32)) bs
      (of_nat (min (unat rl) PP_MAX_BUFFER_LEN)) 0 (srv (world c)) = (res, out, outlen, s')"
    and "length out = unat outlen" "length out \<le> PP_MAX_BUFFER_LEN" "length d < length out"
  shows "SCardControl pl hCard code (Some bs) sl (Some d) rl r c = Inl OutOfBounds"
proof -
  obtain k where f: "pp_findCard pl (ucast hCard) c = Inr (Some k)" "get_card k c = Inr cd"
    using assms(2) by (rule card_found)
  have len: "length bs \<le> 4096" "length out \<le> 4096" "\<not> 4096 < sl"
    using assms(3,4,7) by (simp_all add: word_less_nat_alt)
  obtain x where x: "card_exchange pl cd (control_request (pcScHandle cd) code sl bs rl) c = Inr (0, x, after s' c)"
    "getf s_control F_dwBytesReturned x = ucast outlen" "bytes 4113 (length out) x = out"
    using control_exchange [OF assms(1-3) len(1) assms(5) len(2)] .
  have ol: "unat (ucast outlen :: u32) = unat outlen" "(ucast outlen :: u32) \<noteq> 0"
    using assms(6-8) by (auto simp: unat_ucast_32 dest: arg_cong [of _ _ unat])
  have "read_bytes 4113 (unat outlen) x = Inr out"
    using x(3) assms(6) len(2) by (simp add: read_bytes_def)
  moreover have "copy_to_app out (Some d) = Inl OutOfBounds" "app_bytes (unat sl) (Some bs) = Inr bs"
    using assms(3,8) by (auto simp: copy_to_app_def app_bytes_def)
  ultimately show ?thesis
    using f x [unfolded control_request_def] ol len(3)
    by (simp add: SCardControl_def Let_def split del: if_split cong del: if_weak_cong)
qed

lemma SCardControl_overflow_witness:
  "SCardControl demo_pl 0x38345289 0x42000D48 (Some [1, 2]) 2 (Some [5]) 2 (Some 0) (demo_client demo_link) =
    Inl OutOfBounds"
  using SCardControl_overflow [OF demo_linked demo_card_session, where sl = 2 and bs = "[1, 2]"
      and code = "0x42000D48" and rl = 2 and d = "[5]" and res = 0 and out = "[1, 2]" and outlen = 2 and s' = 1]
  by simp

text \<open>An application that gives a buffer never learns the length of the list of readers in it.\<close>

theorem SCardListReaders_keeps_length:
  assumes "SCardListReaders pl h (Some d) n c = Inr (rv, (buf, n'), c')"
  shows "n' = n"
  using assms by (auto simp: SCardListReaders_def outcome_simps Let_def split: option.splits if_splits)

section \<open>The server\<close>

text \<open>Without a port in the options the IPv6 server listens on port 65535.\<close>

theorem inet6_default_port:
  assumes "s_family s = AF_INET6" "s_port s = -1" "inet_pton ns ip = Some a"
  shows "listen_address ns AF_INET6 ip (default_port b s) = Some (Inet6 a 65535)"
  using assms by (simp add: default_port_def listen_address_def)

text \<open>A socket whose port cannot be asked for is advertised on channel 255.\<close>

theorem register_sdp_255: "refused w \<Longrightarrow> fst (register_sdp s w) = 255"
  by (simp add: register_sdp_def pp_btgetport_def sys_getsockname_def Let_def split_def
      unsigned_minus_1_eq_mask mask_eq_exp_minus_1)

section \<open>TLS layers\<close>

text \<open>When the key cannot be generated, the freed Diffie-Hellman object is given to the SSL context.\<close>

theorem ossl_init_server_uses_freed:
  assumes "0 < heap_left n" "answer b (asked b) \<noteq> 0" "0 \<le> answer b (asked b + 1)" "answer b (asked b + 2) \<noteq> 0"
    and "0 \<le> answer b (asked b + 3)" "0 \<le> answer b (asked b + 4)" "answer b (asked b + 5) < 0"
  shows "ossl_init_server (n, b) = Inl OutOfBounds"
  using assms
  by (simp add: ossl_init_server_def new_object_def malloc_def setup_dh_def new_lib_def ask_def free_lib_def
      numeral_eq_Suc)

text \<open>The parameters of a GnuTLS server context are still there when the context is gone.\<close>

theorem gnutls_server_keeps_params:
  assumes "pp_init_server (n, b) = Inr (rv, Some p, n1, b1)" "ctx_fields b1 p = (Some cred, Some dh)"
    and "pp_fini_server (Some p) (n1, b1) = Inr (rv', n2, b2)"
  shows "live b2 dh = Some DhParams"
  using assms
  by (auto simp: pp_init_server_def pp_fini_server_def new_lib_def ask_def free_lib_def ctx_of_def
      outcome_simps Let_def split: if_splits)
end
